(* ===== verification/Prelude.thy ===== *)
theory Prelude
  imports Main "HOL-Library.Word" "HOL-Library.Char_ord" "HOL-Library.List_Lexorder"
    "HOL-Library.Product_Lexorder"
begin

text \<open>
  The vocabulary the component theories share.

  A Rust \<open>str\<close> or \<open>String\<close> is a \<^typ>\<open>string\<close>: the list of its Unicode scalar values,
  restricted to the first 256 of them (one \<^typ>\<open>char\<close> each).  Whitespace is the Unicode
  \<open>White_Space\<close> property on that range, which is what \<open>str::trim\<close> removes; the order
  on strings is the lexicographic one, which is also the order of the UTF-8 bytes.
  An \<open>i64\<close> whose operations saturate is an \<^typ>\<open>int\<close> with the saturation written out.
  A fallible function returns a value of a sum type, \<open>Inl\<close> being the error; \<open>?\<close> is
  \<open>bind_result\<close>.  A table of the SQLite store is the list of its rows in \<open>rowid\<close> order.
\<close>

named_theorems result_simps \<open>unfolding of the error plumbing of fallible operations\<close>
named_theorems sql_simps \<open>rows selected, updated and deleted by a statement\<close>

section \<open>Results\<close>

type_synonym ('e, 'a) result = "'e + 'a"

abbreviation Ok :: "'a \<Rightarrow> 'e + 'a" where
  "Ok \<equiv> Inr"

abbreviation Err :: "'e \<Rightarrow> 'e + 'a" where
  "Err \<equiv> Inl"

fun bind_result :: "'e + 'a \<Rightarrow> ('a \<Rightarrow> 'e + 'b) \<Rightarrow> 'e + 'b" where
  "bind_result (Inl e) f = Inl e"
| "bind_result (Inr x) f = f x"

fun map_err :: "('e \<Rightarrow> 'f) \<Rightarrow> 'e + 'a \<Rightarrow> 'f + 'a" where
  "map_err g (Inl e) = Inl (g e)"
| "map_err g (Inr x) = Inr x"

fun map_ok :: "('a \<Rightarrow> 'b) \<Rightarrow> 'e + 'a \<Rightarrow> 'e + 'b" where
  "map_ok g (Inl e) = Inl e"
| "map_ok g (Inr x) = Inr (g x)"

fun result_ok :: "'e + 'a \<Rightarrow> 'a option" where
  "result_ok (Inl e) = None"
| "result_ok (Inr x) = Some x"

definition ok_or :: "'e \<Rightarrow> 'a option \<Rightarrow> 'e + 'a" where
  "ok_or e x = (case x of None \<Rightarrow> Inl e | Some v \<Rightarrow> Inr v)"

definition require :: "'e \<Rightarrow> bool \<Rightarrow> 'e + unit" where
  "require e ok = (if ok then Inr () else Inl e)"

lemma bind_result_eq_Inr [result_simps]:
  "bind_result m f = Inr y \<longleftrightarrow> (\<exists>x. m = Inr x \<and> f x = Inr y)"
  by (cases m) auto

lemma bind_result_eq_Inl [result_simps]:
  "bind_result m f = Inl e \<longleftrightarrow> m = Inl e \<or> (\<exists>x. m = Inr x \<and> f x = Inl e)"
  by (cases m) auto

lemma map_err_eq_Inr [simp]: "map_err g m = Inr y \<longleftrightarrow> m = Inr y"
  by (cases m) auto

lemma require_eq_Inr [simp]: "require e ok = Inr u \<longleftrightarrow> ok"
  by (simp add: require_def)

lemma require_eq_Inl [simp]: "require e ok = Inl e' \<longleftrightarrow> \<not> ok \<and> e' = e"
  by (auto simp: require_def)

lemma require_True [simp]: "require e True = Inr ()"
  by (simp add: require_def)

lemma require_False [simp]: "require e False = Inl e"
  by (simp add: require_def)

lemma ok_or_simps [simp]: "ok_or e None = Inl e" "ok_or e (Some x) = Inr x"
  by (simp_all add: ok_or_def)

lemma ok_or_eq_Inr [simp]: "ok_or e m = Inr x \<longleftrightarrow> m = Some x"
  by (cases m) auto

text \<open>A loop whose body may return early with an error.\<close>

fun fold_result :: "('a \<Rightarrow> 's \<Rightarrow> 'e + 's) \<Rightarrow> 'a list \<Rightarrow> 's \<Rightarrow> 'e + 's" where
  "fold_result f [] s = Inr s"
| "fold_result f (x # xs) s = bind_result (f x s) (fold_result f xs)"

lemma fold_result_append:
  "fold_result f (xs @ ys) s = bind_result (fold_result f xs s) (fold_result f ys)"
proof (induction xs arbitrary: s)
  case (Cons x xs)
  then show ?case by (cases "f x s") auto
qed simp

text \<open>An invariant of the body is an invariant of the loop.\<close>

lemma fold_result_invariant:
  assumes "fold_result f xs s = Inr t" and "P s"
    and "\<And>x s t. x \<in> set xs \<Longrightarrow> P s \<Longrightarrow> f x s = Inr t \<Longrightarrow> P t"
  shows "P t"
  using assms
proof (induction xs arbitrary: s)
  case (Cons x xs)
  then obtain u where u: "f x s = Inr u" "fold_result f xs u = Inr t"
    by (auto simp: result_simps)
  with Cons.prems have "P u" by auto
  with u Cons show ?case by auto
qed simp

section \<open>Comparison\<close>

datatype Ordering = Less | Equal | Greater

fun then_with :: "Ordering \<Rightarrow> Ordering \<Rightarrow> Ordering" where
  "then_with Equal o2 = o2"
| "then_with o1 o2 = o1"

definition cmp :: "'a::linorder \<Rightarrow> 'a \<Rightarrow> Ordering" where
  "cmp x y = (if x < y then Less else if x = y then Equal else Greater)"

lemma cmp_eq_iff [simp]:
  "cmp x y = Less \<longleftrightarrow> x < y" "cmp x y = Equal \<longleftrightarrow> x = y" "cmp x y = Greater \<longleftrightarrow> y < x"
  by (auto simp: cmp_def)

lemma cmp_eqI:
  assumes "x < y \<longleftrightarrow> a < b" and "x = y \<longleftrightarrow> a = b"
  shows "cmp x y = cmp a b"
  using assms by (simp add: cmp_def)

section \<open>Machine integers\<close>

definition i64_min :: int where "i64_min = - (2 ^ 63)"
definition i64_max :: int where "i64_max = 2 ^ 63 - 1"
definition u64_max :: nat where "u64_max = 2 ^ 64 - 1"

definition i64_range :: "int \<Rightarrow> bool" where
  "i64_range x \<longleftrightarrow> i64_min \<le> x \<and> x \<le> i64_max"

definition i64_clip :: "int \<Rightarrow> int" where
  "i64_clip x = max i64_min (min i64_max x)"

definition saturating_add :: "int \<Rightarrow> int \<Rightarrow> int" where
  "saturating_add a b = i64_clip (a + b)"

definition saturating_sub :: "int \<Rightarrow> int \<Rightarrow> int" where
  "saturating_sub a b = i64_clip (a - b)"

lemma i64_clip_range [simp]: "i64_range (i64_clip x)"
  by (simp add: i64_range_def i64_clip_def i64_min_def i64_max_def)

lemma i64_clip_id [simp]: "i64_range x \<Longrightarrow> i64_clip x = x"
  by (simp add: i64_range_def i64_clip_def)

lemma saturating_add_mono:
  "a \<le> b \<Longrightarrow> saturating_add a c \<le> saturating_add b c"
  by (auto simp: saturating_add_def i64_clip_def)

lemma saturating_add_ge:
  "i64_range a \<Longrightarrow> 0 \<le> b \<Longrightarrow> a \<le> saturating_add a b"
  by (simp add: saturating_add_def i64_clip_def i64_range_def)

lemma saturating_add_gt:
  "i64_range a \<Longrightarrow> a < i64_max \<Longrightarrow> 0 < b \<Longrightarrow> a < saturating_add a b"
  by (simp add: saturating_add_def i64_clip_def i64_range_def)

lemma saturating_sub_le:
  "i64_range a \<Longrightarrow> 0 \<le> b \<Longrightarrow> saturating_sub a b \<le> a"
  by (simp add: saturating_sub_def i64_clip_def i64_range_def)

definition checked_add_u64 :: "64 word \<Rightarrow> 64 word \<Rightarrow> 64 word option" where
  "checked_add_u64 a b = (if unat a + unat b \<le> u64_max then Some (a + b) else None)"

lemma checked_add_u64_Some:
  "checked_add_u64 a b = Some c \<Longrightarrow> unat c = unat a + unat b"
  by (auto simp: checked_add_u64_def u64_max_def unat_word_ariths split: if_splits)

section \<open>Strings\<close>

definition is_whitespace :: "char \<Rightarrow> bool" where
  "is_whitespace c \<longleftrightarrow>
     c \<in> {CHR 0x09, CHR 0x0A, CHR 0x0B, CHR 0x0C, CHR 0x0D, CHR 0x20, CHR 0x85, CHR 0xA0}"

definition trim_start :: "string \<Rightarrow> string" where
  "trim_start s = dropWhile is_whitespace s"

definition trim :: "string \<Rightarrow> string" where
  "trim s = rev (trim_start (rev (trim_start s)))"

definition trim_start_matches :: "char \<Rightarrow> string \<Rightarrow> string" where
  "trim_start_matches c s = dropWhile (\<lambda>d. d = c) s"

definition ascii_lower :: "char \<Rightarrow> char" where
  "ascii_lower c =
     (let n = of_char c :: nat in if 65 \<le> n \<and> n \<le> 90 then char_of (n + 32) else c)"

definition to_ascii_lowercase :: "string \<Rightarrow> string" where
  "to_ascii_lowercase s = map ascii_lower s"

definition starts_with :: "string \<Rightarrow> string \<Rightarrow> bool" where
  "starts_with p s \<longleftrightarrow> take (length p) s = p"

fun contains_str :: "string \<Rightarrow> string \<Rightarrow> bool" where
  "contains_str p [] \<longleftrightarrow> p = []"
| "contains_str p (c # s) \<longleftrightarrow> starts_with p (c # s) \<or> contains_str p s"

definition replace_char :: "char \<Rightarrow> char \<Rightarrow> string \<Rightarrow> string" where
  "replace_char a b s = map (\<lambda>c. if c = a then b else c) s"

text \<open>
  \<open>Debug\<close> of a \<open>str\<close>: quoted, with the escapes of \<open>char::escape_debug\<close> (control and
  format characters and every space but the ASCII one are not printable).
\<close>

definition hex_digit :: "nat \<Rightarrow> char" where
  "hex_digit d = (if d < 10 then char_of (48 + d) else char_of (87 + d))"

definition escape_debug :: "char \<Rightarrow> string" where
  "escape_debug c =
     (let n = of_char c :: nat in
      if n = 0 then [CHR 0x5C, CHR ''0'']
      else if n = 9 then [CHR 0x5C, CHR ''t'']
      else if n = 13 then [CHR 0x5C, CHR ''r'']
      else if n = 10 then [CHR 0x5C, CHR ''n'']
      else if n = 34 \<or> n = 92 then [CHR 0x5C, c]
      else if n < 32 \<or> 127 \<le> n \<and> n \<le> 160 \<or> n = 173
      then [CHR 0x5C, CHR ''u'', CHR 0x7B] @ (if n < 16 then [] else [hex_digit (n div 16)])
           @ [hex_digit (n mod 16), CHR 0x7D]
      else [c])"

definition debug_str :: "string \<Rightarrow> string" where
  "debug_str s = [CHR 0x22] @ concat (map escape_debug s) @ [CHR 0x22]"

lemma trim_Nil [simp]: "trim [] = []"
  by (simp add: trim_def trim_start_def)

lemma dropWhile_idem: "dropWhile P (dropWhile P xs) = dropWhile P xs"
  by (induction xs) auto

lemma dropWhile_rev_dropWhile:
  assumes "dropWhile P xs = xs"
  shows "dropWhile P (rev (dropWhile P (rev xs))) = rev (dropWhile P (rev xs))"
proof (cases "rev (dropWhile P (rev xs))")
  case (Cons y ys)
  have "xs = rev (dropWhile P (rev xs)) @ rev (takeWhile P (rev xs))"
    by (metis rev_append rev_rev_ident takeWhile_dropWhile_id)
  with Cons obtain zs where "xs = y # zs" by (metis append_Cons)
  with assms have "\<not> P y" by (metis dropWhile_eq_self_iff list.sel(1) list.simps(3))
  with Cons show ?thesis by simp
next
  case Nil
  then show ?thesis by (simp only: Nil dropWhile.simps)
qed

lemma trim_idem [simp]: "trim (trim s) = trim s"
proof -
  let ?t = "trim_start s"
  have "dropWhile is_whitespace ?t = ?t"
    by (simp add: trim_start_def dropWhile_idem)
  then have "trim_start (trim s) = trim s"
    unfolding trim_def trim_start_def [of "rev ?t"] trim_start_def [of "rev _"]
    by (rule dropWhile_rev_dropWhile)
  then show ?thesis
    by (simp add: trim_def trim_start_def dropWhile_idem)
qed

lemma set_trim_subset: "set (trim s) \<subseteq> set s"
  by (auto simp: trim_def trim_start_def dest!: set_dropWhileD)

lemma trim_no_whitespace:
  assumes "\<forall>c\<in>set s. \<not> is_whitespace c"
  shows "trim s = s"
proof -
  have "trim_start s = s" using assms by (cases s) (auto simp: trim_start_def)
  moreover have "trim_start (rev s) = rev s"
    using assms by (cases "rev s") (auto simp: trim_start_def dest: arg_cong [of _ _ set])
  ultimately show ?thesis by (simp add: trim_def)
qed

lemma to_ascii_lowercase_idem [simp]:
  "to_ascii_lowercase (to_ascii_lowercase s) = to_ascii_lowercase s"
  by (simp add: to_ascii_lowercase_def ascii_lower_def Let_def)

section \<open>Options and tables\<close>

definition or_else :: "'a option \<Rightarrow> 'a option \<Rightarrow> 'a option" where
  "or_else x y = (case x of None \<Rightarrow> y | Some _ \<Rightarrow> x)"

lemma or_else_simps [simp]: "or_else None y = y" "or_else (Some a) y = Some a"
  by (simp_all add: or_else_def)

definition filter_option :: "('a \<Rightarrow> bool) \<Rightarrow> 'a option \<Rightarrow> 'a option" where
  "filter_option P x = (case x of None \<Rightarrow> None | Some a \<Rightarrow> if P a then Some a else None)"

lemma filter_option_simps [simp]:
  "filter_option P None = None" "filter_option P (Some a) = (if P a then Some a else None)"
  by (simp_all add: filter_option_def)

definition opt_all :: "('a \<Rightarrow> bool) \<Rightarrow> 'a option \<Rightarrow> bool" where
  "opt_all P x = (case x of None \<Rightarrow> True | Some a \<Rightarrow> P a)"

definition opt_any :: "('a \<Rightarrow> bool) \<Rightarrow> 'a option \<Rightarrow> bool" where
  "opt_any P x = (case x of None \<Rightarrow> False | Some a \<Rightarrow> P a)"

lemma opt_all_simps [simp]: "opt_all P None" "opt_all P (Some a) = P a"
  by (simp_all add: opt_all_def)

lemma opt_any_simps [simp]: "\<not> opt_any P None" "opt_any P (Some a) = P a"
  by (simp_all add: opt_any_def)

text \<open>\<open>UPDATE\<close> and \<open>DELETE\<close> over a table, with the number of rows changed.\<close>

definition update_rows :: "('r \<Rightarrow> bool) \<Rightarrow> ('r \<Rightarrow> 'r) \<Rightarrow> 'r list \<Rightarrow> 'r list" where
  "update_rows P f rows = map (\<lambda>r. if P r then f r else r) rows"

definition delete_rows :: "('r \<Rightarrow> bool) \<Rightarrow> 'r list \<Rightarrow> 'r list" where
  "delete_rows P rows = filter (\<lambda>r. \<not> P r) rows"

definition count_rows :: "('r \<Rightarrow> bool) \<Rightarrow> 'r list \<Rightarrow> nat" where
  "count_rows P rows = length (filter P rows)"

definition exists_row :: "('r \<Rightarrow> bool) \<Rightarrow> 'r list \<Rightarrow> bool" where
  "exists_row P rows = list_ex P rows"

lemma length_update_rows [simp, sql_simps]: "length (update_rows P f rows) = length rows"
  by (simp add: update_rows_def)

lemma set_update_rows [sql_simps]:
  "set (update_rows P f rows) = (\<lambda>r. if P r then f r else r) ` set rows"
  by (auto simp: update_rows_def)

lemma set_delete_rows [sql_simps]: "set (delete_rows P rows) = {r \<in> set rows. \<not> P r}"
  by (simp add: delete_rows_def)

lemma exists_row_iff [sql_simps]: "exists_row P rows \<longleftrightarrow> (\<exists>r\<in>set rows. P r)"
  by (simp add: exists_row_def list_ex_iff)

lemma map_update_rows [sql_simps]:
  "(\<And>r. P r \<Longrightarrow> g (f r) = g r) \<Longrightarrow> map g (update_rows P f rows) = map g rows"
  by (simp add: update_rows_def)

lemma length_delete_rows_le: "length (delete_rows P rows) \<le> length rows"
  by (simp add: delete_rows_def)

lemma distinct_map_delete_rows: "distinct (map g rows) \<Longrightarrow> distinct (map g (delete_rows P rows))"
  by (simp add: delete_rows_def distinct_map_filter)

section \<open>Ordered maps\<close>

text \<open>A \<open>BTreeMap\<close> as the list of its entries in the order of the keys: \<open>insert\<close>, and a change of
  the value of one key through \<open>get_mut\<close>.\<close>

fun btree_insert :: "'k::linorder \<Rightarrow> 'v \<Rightarrow> ('k \<times> 'v) list \<Rightarrow> ('k \<times> 'v) list" where
  "btree_insert k v [] = [(k, v)]"
| "btree_insert k v ((k', v') # m) =
     (if k < k' then (k, v) # (k', v') # m
      else if k = k' then (k, v) # m
      else (k', v') # btree_insert k v m)"

definition btree_modify :: "'k \<Rightarrow> ('v \<Rightarrow> 'v) \<Rightarrow> ('k \<times> 'v) list \<Rightarrow> ('k \<times> 'v) list" where
  "btree_modify k f = map (\<lambda>(k', v). (k', if k' = k then f v else v))"

lemma map_of_btree_insert [simp]: "map_of (btree_insert k v m) = (map_of m)(k \<mapsto> v)"
  by (induction k v m rule: btree_insert.induct) (auto simp: fun_upd_twist)

lemma map_of_btree_modify [simp]:
  "map_of (btree_modify k f m) = (map_of m)(k := map_option f (map_of m k))"
  by (induction m) (auto simp: btree_modify_def)

lemma keys_btree_insert: "fst ` set (btree_insert k v m) = insert k (fst ` set m)"
  by (induction k v m rule: btree_insert.induct) auto

lemma set_btree_insert: "set (btree_insert k v m) \<subseteq> insert (k, v) (set m)"
  by (induction k v m rule: btree_insert.induct) auto

section \<open>Runs of a step relation\<close>

text \<open>An invariant that every step keeps holds along every run.\<close>

locale step_invariant =
  fixes step :: "'s \<Rightarrow> 's \<Rightarrow> bool" and inv :: "'s \<Rightarrow> bool"
  assumes step_keeps: "step s s' \<Longrightarrow> inv s \<Longrightarrow> inv s'"
begin

lemma run_keeps: "step\<^sup>*\<^sup>* s s' \<Longrightarrow> inv s \<Longrightarrow> inv s'"
  by (induction rule: rtranclp_induct) (auto intro: step_keeps)

end

text \<open>A detailed system whose steps are, through an abstraction, steps of its specification.\<close>

locale simulation = step_invariant +
  fixes spec :: "'a \<Rightarrow> 'a \<Rightarrow> bool" and abs :: "'s \<Rightarrow> 'a"
  assumes simulates: "step s s' \<Longrightarrow> inv s \<Longrightarrow> spec (abs s) (abs s')"
begin

lemma run_simulates:
  assumes "step\<^sup>*\<^sup>* s s'" and "inv s"
  shows "spec\<^sup>*\<^sup>* (abs s) (abs s')"
  using assms
proof (induction rule: rtranclp_induct)
  case (step y z)
  then have "spec (abs y) (abs z)" using run_keeps simulates by blast
  with step show ?case by (simp add: rtranclp.rtrancl_into_rtrancl)
qed simp

lemma abstract_invariant:
  assumes "step_invariant spec P" and "step\<^sup>*\<^sup>* s s'" and "inv s" and "P (abs s)"
  shows "P (abs s')"
  using step_invariant.run_keeps [OF assms(1) run_simulates [OF assms(2,3)] assms(4)] .

end

end
