(* ===== verification/Json.thy ===== *)
theory Json
  imports Prelude
begin

text \<open>
  The JSON values the core reads and stores (\<open>serde_json::Value\<close>, a dependency whose data
  type the sources pattern-match on), its accessors as the sources use them, and the error
  type of the core, \<open>ImError\<close> of \<open>crates/im-core/src/error.rs\<close>.  An object is the
  association list of its members, sorted by key and without repetition: the sources look
  members up, remove them and compare objects as maps, whatever the order of insertion; a float is its 64 bits, the two
  zeros (which compare equal) being one value.
\<close>

section \<open>Values\<close>

datatype json_number = PosInt "64 word" | NegInt int | Float "64 word"

datatype json =
    JNull
  | JBool bool
  | JNumber json_number
  | JString string
  | JArray "json list"
  | JObject "(string \<times> json) list"

fun json_get :: "string \<Rightarrow> json \<Rightarrow> json option" where
  "json_get k (JObject ms) = map_of ms k"
| "json_get k _ = None"

fun as_str :: "json \<Rightarrow> string option" where
  "as_str (JString s) = Some s"
| "as_str _ = None"

fun as_bool :: "json \<Rightarrow> bool option" where
  "as_bool (JBool b) = Some b"
| "as_bool _ = None"

fun as_u64 :: "json \<Rightarrow> nat option" where
  "as_u64 (JNumber (PosInt n)) = Some (unat n)"
| "as_u64 _ = None"

fun as_array :: "json \<Rightarrow> json list option" where
  "as_array (JArray vs) = Some vs"
| "as_array _ = None"

fun is_object :: "json \<Rightarrow> bool" where
  "is_object (JObject ms) = True"
| "is_object _ = False"

text \<open>\<open>Value::pointer\<close> with a path of object members.\<close>

fun json_pointer :: "string list \<Rightarrow> json \<Rightarrow> json option" where
  "json_pointer [] v = Some v"
| "json_pointer (k # ks) v = Option.bind (json_get k v) (json_pointer ks)"

definition json_get_str :: "string \<Rightarrow> json \<Rightarrow> string option" where
  "json_get_str k v = Option.bind (json_get k v) as_str"

lemma json_get_Some_is_object: "json_get k v = Some w \<Longrightarrow> is_object v"
  by (cases v) auto

lemma json_pointer_append:
  "json_pointer (ks @ ls) v = Option.bind (json_pointer ks v) (json_pointer ls)"
proof (induction ks arbitrary: v)
  case (Cons k ks)
  then show ?case by (cases "json_get k v") auto
qed simp

section \<open>Errors of the core\<close>

datatype DeviceRevokeOutcomeCategory =
  CancelledBeforeSubmit | RejectedBeforeCommit | OutcomeUnknown

datatype IdentityVaultFailure =
    VaultUnavailable | MetadataMissing | MetadataUnverified | WorkspaceMismatch
  | DeviceMismatch | RecordOpenFailed | VerificationFailed

datatype AttachmentTransferFailure =
  Network | Stalled | Incomplete | RangeRejected | Cancelled

datatype AttachmentPreparationStage = Session | History | Discovery | Ticket

datatype (plugins only: code) ImError =
    InvalidInput "string option" string
  | IdentityRequired
  | IdentityNotFound string
  | DefaultIdentityMissing
  | IdentityNotReady string "string list"
  | IdentityVault IdentityVaultFailure
  | AuthRequired
  | SessionExpired
  | PermissionDenied
  | LocalIdentityRecoveryRequired
  | PeerNotFound string
  | GroupNotFound string
  | CursorInvalid
  | CursorStale
  | InventoryIncomplete
  | InventoryTooLarge
  | DeviceRevokeOutcome DeviceRevokeOutcomeCategory
  | MessageNotFound string
  | TransportUnavailable string
  | AttachmentPreparation AttachmentPreparationStage bool ImError
  | AttachmentTransfer AttachmentTransferFailure "64 word" "64 word option" bool string
  | UnsupportedCapability string
  | LocalStateUnavailable string
  | LocalStateUpgradeRequired int int
  | LocalStateUpgradeInProgress
  | LocalStateUpgradeFailed string string
  | IdentityUnresolved string
  | IdentityBindingConflict string
  | ConversationAliasConflict string string string
  | MessageWireIdentityConflict string
  | CanonicalGroupIdentityMissing string
  | LocalProjectionUnavailable string
  | PathUnavailable string string
  | CredentialFileUnreadable string string
  | SkillOnboarding string string bool
  | Service "16 word option" "string option" string "json option"
  | Serialization string
  | Io string
  | Internal string

type_synonym 'a ImResult = "ImError + 'a"

definition invalid_input :: "string option \<Rightarrow> string \<Rightarrow> ImError" where
  "invalid_input field message = InvalidInput field message"

definition unsupported :: "string \<Rightarrow> ImError" where
  "unsupported capability = UnsupportedCapability capability"

text \<open>
  \<open>local_state/sync_inbox.rs\<close> \<open>error\<close> and \<open>local_state/sync_v2.rs\<close> \<open>sync_error\<close> build
  the same value: a service error with a code and no HTTP status.
\<close>

definition sync_error :: "string \<Rightarrow> string \<Rightarrow> ImError" where
  "sync_error code message = Service None (Some code) message None"

fun attachment_stage_as_str :: "AttachmentPreparationStage \<Rightarrow> string" where
  "attachment_stage_as_str Session = ''session''"
| "attachment_stage_as_str History = ''history''"
| "attachment_stage_as_str Discovery = ''discovery''"
| "attachment_stage_as_str Ticket = ''ticket''"

fun attachment_failure_code :: "AttachmentTransferFailure \<Rightarrow> string" where
  "attachment_failure_code Network = ''attachment_transfer_network''"
| "attachment_failure_code Stalled = ''attachment_transfer_stalled''"
| "attachment_failure_code Incomplete = ''attachment_transfer_incomplete''"
| "attachment_failure_code RangeRejected = ''attachment_transfer_range_rejected''"
| "attachment_failure_code Cancelled = ''attachment_transfer_cancelled''"

fun vault_failure_code :: "IdentityVaultFailure \<Rightarrow> string" where
  "vault_failure_code VaultUnavailable = ''identity_vault_unavailable''"
| "vault_failure_code MetadataMissing = ''identity_vault_metadata_missing''"
| "vault_failure_code MetadataUnverified = ''identity_vault_metadata_unverified''"
| "vault_failure_code WorkspaceMismatch = ''identity_vault_workspace_mismatch''"
| "vault_failure_code DeviceMismatch = ''identity_vault_device_mismatch''"
| "vault_failure_code RecordOpenFailed = ''identity_vault_record_open_failed''"
| "vault_failure_code VerificationFailed = ''identity_vault_verification_failed''"

text \<open>Every SDK surface tells failures apart by their code alone.\<close>

lemma attachment_failure_code_inj: "inj attachment_failure_code"
proof (rule injI)
  fix x y assume "attachment_failure_code x = attachment_failure_code y"
  then show "x = y" by (cases x; cases y) simp_all
qed

lemma vault_failure_code_inj: "inj vault_failure_code"
proof (rule injI)
  fix x y assume "vault_failure_code x = vault_failure_code y"
  then show "x = y" by (cases x; cases y) simp_all
qed

end
