(* ===== verification/Decimal.thy ===== *)
theory Decimal
  imports Json
begin

text \<open>
  Sequence numbers, epochs and generations travel and are stored as decimal strings, of any
  length.  \<open>local_state/sync_v2.rs\<close> validates, compares and subtracts them as strings
  (\<open>validate_decimal\<close>, \<open>validate_positive_decimal\<close>, \<open>compare_decimal\<close>,
  \<open>compare_stream_position\<close>, \<open>decimal_order\<close>, \<open>subtract_small_decimal\<close>), and
  \<open>local_state/sync_state.rs\<close> parses them to \<open>u64\<close> (\<open>parse_decimal_seq\<close>,
  \<open>normalize_decimal_seq\<close>, \<open>decimal_seq_gt\<close>).  The lemmas show that the string
  operations compute the operations on the numbers the strings denote.
\<close>

section \<open>Digits\<close>

definition is_ascii_digit :: "char \<Rightarrow> bool" where
  "is_ascii_digit c \<longleftrightarrow> 48 \<le> (of_char c :: nat) \<and> (of_char c :: nat) \<le> 57"

definition digit_val :: "char \<Rightarrow> nat" where
  "digit_val c = of_char c - 48"

definition digit_char :: "nat \<Rightarrow> char" where
  "digit_char d = char_of (48 + d)"

text \<open>The number a digit string denotes, most significant digit first.\<close>

definition dec_val :: "string \<Rightarrow> nat" where
  "dec_val s = foldl (\<lambda>acc c. acc * 10 + digit_val c) 0 s"

text \<open>\<open>u64::to_string\<close>.\<close>

fun show_nat :: "nat \<Rightarrow> string" where
  "show_nat n = (if n < 10 then [digit_char n] else show_nat (n div 10) @ [digit_char (n mod 10)])"

declare show_nat.simps [simp del]

section \<open>The operations of the code\<close>

definition validate_required :: "string \<Rightarrow> string \<Rightarrow> unit ImResult" where
  "validate_required field value =
     (if trim value = [] \<or> trim value \<noteq> value
      then Err (invalid_input (Some field) (field @ '' must be a non-empty canonical string''))
      else Ok ())"

definition canonical_decimal :: "string \<Rightarrow> bool" where
  "canonical_decimal value \<longleftrightarrow>
     \<not> (value = [] \<or> \<not> list_all is_ascii_digit value
        \<or> length value > 1 \<and> starts_with ''0'' value)"

definition validate_decimal :: "string \<Rightarrow> string \<Rightarrow> unit ImResult" where
  "validate_decimal field value =
     (if canonical_decimal value then Ok ()
      else Err (invalid_input (Some field)
             (field @ '' must be a canonical non-negative decimal string'')))"

definition validate_positive_decimal :: "string \<Rightarrow> string \<Rightarrow> unit ImResult" where
  "validate_positive_decimal field value =
     bind_result (validate_decimal field value) (\<lambda>_.
       if value = ''0''
       then Err (invalid_input (Some field)
              (field @ '' must be a canonical positive decimal string''))
       else Ok ())"

definition decimal_order :: "string \<Rightarrow> string \<Rightarrow> Ordering" where
  "decimal_order l r = then_with (cmp (length l) (length r)) (cmp l r)"

definition compare_decimal :: "string \<Rightarrow> string \<Rightarrow> Ordering ImResult" where
  "compare_decimal l r =
     bind_result (validate_decimal ''left_decimal'' l) (\<lambda>_.
     bind_result (validate_decimal ''right_decimal'' r) (\<lambda>_.
       Ok (then_with (cmp (length l) (length r)) (cmp l r))))"

definition compare_stream_position ::
  "string \<Rightarrow> string \<Rightarrow> string \<Rightarrow> string \<Rightarrow> Ordering ImResult" where
  "compare_stream_position left_epoch left_seq right_epoch right_seq =
     bind_result (compare_decimal left_epoch right_epoch) (\<lambda>epoch_order.
       if epoch_order = Equal then compare_decimal left_seq right_seq else Ok epoch_order)"

text \<open>
  The digit loop of \<open>subtract_small_decimal\<close>, over the digits from the least significant
  one: the subtrahend's digits run out into zeros, and a digit smaller than its subtrahend
  borrows ten.
\<close>

fun sub_digits :: "nat list \<Rightarrow> nat list \<Rightarrow> nat \<Rightarrow> nat list" where
  "sub_digits [] rest borrow = []"
| "sub_digits (digit # digits) rest borrow =
     (let subtrahend = (case rest of [] \<Rightarrow> 0 | d # _ \<Rightarrow> d) + borrow;
          rest' = (case rest of [] \<Rightarrow> [] | _ # ds \<Rightarrow> ds)
      in if digit < subtrahend
         then (digit + 10 - subtrahend) # sub_digits digits rest' 1
         else (digit - subtrahend) # sub_digits digits rest' 0)"

definition strip_zeros :: "nat list \<Rightarrow> nat list" where
  "strip_zeros digits =
     (case dropWhile (\<lambda>d. d = 0) digits of [] \<Rightarrow> drop (length digits - 1) digits | ds \<Rightarrow> ds)"

definition subtract_small_decimal :: "string \<Rightarrow> nat \<Rightarrow> string option ImResult" where
  "subtract_small_decimal value amount =
     bind_result (validate_decimal ''decimal'' value) (\<lambda>_.
     let amount = show_nat amount in
     bind_result (compare_decimal value amount) (\<lambda>ord.
       if ord \<noteq> Greater then Ok None
       else
         let digits = sub_digits (rev (map digit_val value)) (rev (map digit_val amount)) 0
         in Ok (Some (map digit_char (strip_zeros (rev digits))))))"

text \<open>\<open>str::parse::<u64>\<close> on a non-empty string of digits: it fails exactly on overflow.\<close>

definition parse_u64 :: "string \<Rightarrow> nat option" where
  "parse_u64 s = (if dec_val s \<le> u64_max then Some (dec_val s) else None)"

definition decimal_seq_error :: "string \<Rightarrow> ImError" where
  "decimal_seq_error value =
     invalid_input (Some ''event_seq'')
       (''sequence must be a non-negative decimal string: '' @ debug_str value)"

definition parse_decimal_seq :: "string \<Rightarrow> nat ImResult" where
  "parse_decimal_seq raw =
     (let value = trim raw in
      if value = [] then Err (decimal_seq_error value)
      else if length value > 1 \<and> starts_with ''0'' value then Err (decimal_seq_error value)
      else if \<not> list_all is_ascii_digit value then Err (decimal_seq_error value)
      else ok_or (decimal_seq_error value) (parse_u64 value))"

definition normalize_decimal_seq :: "string \<Rightarrow> string ImResult" where
  "normalize_decimal_seq value = map_ok show_nat (parse_decimal_seq value)"

definition decimal_seq_gt :: "string \<Rightarrow> string \<Rightarrow> bool ImResult" where
  "decimal_seq_gt l r =
     bind_result (parse_decimal_seq l) (\<lambda>a. bind_result (parse_decimal_seq r) (\<lambda>b. Ok (a > b)))"

section \<open>Digit strings and numbers\<close>

lemma digit_char_simps [simp]:
  assumes "d < 10"
  shows "digit_val (digit_char d) = d" "is_ascii_digit (digit_char d)"
  using assms by (simp_all add: digit_val_def digit_char_def is_ascii_digit_def)

lemma digit_char_val [simp]: "is_ascii_digit c \<Longrightarrow> digit_char (digit_val c) = c"
  by (simp add: digit_val_def digit_char_def is_ascii_digit_def)

lemma digit_val_lt [simp]: "is_ascii_digit c \<Longrightarrow> digit_val c < 10"
  by (auto simp: digit_val_def is_ascii_digit_def)

lemma digit_val_le [simp]: "is_ascii_digit c \<Longrightarrow> digit_val c \<le> 9"
  by (drule digit_val_lt) linarith

lemma less_char_digit:
  assumes "is_ascii_digit c" and "is_ascii_digit d"
  shows "c < d \<longleftrightarrow> digit_val c < digit_val d"
  using assms by (auto simp: less_char_def digit_val_def is_ascii_digit_def)

lemma digit_not_whitespace: "is_ascii_digit c \<Longrightarrow> \<not> is_whitespace c"
  by (auto simp: is_ascii_digit_def is_whitespace_def)

lemma digit_val_inj:
  "is_ascii_digit c \<Longrightarrow> is_ascii_digit d \<Longrightarrow> digit_val c = digit_val d \<longleftrightarrow> c = d"
  by (metis digit_char_val)

lemma dec_val_Nil [simp]: "dec_val [] = 0"
  by (simp add: dec_val_def)

lemma dec_val_snoc [simp]: "dec_val (s @ [c]) = dec_val s * 10 + digit_val c"
  by (simp add: dec_val_def)

lemma foldl_dec_val:
  "foldl (\<lambda>acc c. acc * 10 + digit_val c) a s = a * 10 ^ length s + dec_val s"
  by (induction s rule: rev_induct) (simp_all add: algebra_simps)

lemma dec_val_Cons [simp]: "dec_val (c # s) = digit_val c * 10 ^ length s + dec_val s"
  using foldl_dec_val [of "digit_val c" s] by (simp add: dec_val_def)

lemma dec_val_bound: "list_all is_ascii_digit s \<Longrightarrow> dec_val s < 10 ^ length s"
proof (induction s)
  case (Cons c s)
  then have "digit_val c \<le> 9" "dec_val s < 10 ^ length s"
    by auto
  then have "digit_val c * 10 ^ length s + dec_val s < 9 * 10 ^ length s + 10 ^ length s"
    by (meson add_le_less_mono mult_le_mono1)
  then show ?case by simp
qed simp

text \<open>On strings of one length, the order of the bytes is the order of the numbers.\<close>

lemma dec_val_lex:
  assumes "length s = length t" and "list_all is_ascii_digit s" and "list_all is_ascii_digit t"
  shows "(s < t \<longleftrightarrow> dec_val s < dec_val t) \<and> (s = t \<longleftrightarrow> dec_val s = dec_val t)"
  using assms
proof (induction s t rule: list_induct2)
  case (Cons c s d t)
  then have d: "is_ascii_digit c" "is_ascii_digit d"
    and b: "dec_val s < 10 ^ length t" "dec_val t < 10 ^ length t"
    using dec_val_bound [of s] dec_val_bound [of t] by auto
  consider "digit_val c < digit_val d" | "c = d" | "digit_val d < digit_val c"
    using digit_val_inj [OF d] by linarith
  then show ?case
  proof cases
    case 1
    then have "(digit_val c + 1) * 10 ^ length t \<le> digit_val d * 10 ^ length t"
      by (intro mult_le_mono1) simp
    with 1 b Cons.hyps show ?thesis by (auto simp: less_char_digit [OF d])
  next
    case 2
    with Cons show ?thesis by auto
  next
    case 3
    then have "(digit_val d + 1) * 10 ^ length t \<le> digit_val c * 10 ^ length t"
      by (intro mult_le_mono1) simp
    with 3 b Cons.hyps show ?thesis
      by (auto simp: less_char_digit [OF d])
  qed
qed simp


lemma canonical_decimal_digits: "canonical_decimal s \<Longrightarrow> list_all is_ascii_digit s"
  by (simp add: canonical_decimal_def)

lemma canonical_decimal_not_Nil: "canonical_decimal s \<Longrightarrow> s \<noteq> []"
  by (simp add: canonical_decimal_def)

lemma digit_val_eq_0: "is_ascii_digit c \<Longrightarrow> digit_val c = 0 \<longleftrightarrow> c = CHR ''0''"
  using digit_val_inj [of c "CHR ''0''"] by (simp add: digit_val_def is_ascii_digit_def)

lemma canonical_decimal_ge:
  assumes "canonical_decimal s" and "1 < length s"
  shows "10 ^ (length s - 1) \<le> dec_val s"
proof (cases s)
  case (Cons c t)
  with assms have "is_ascii_digit c" "c \<noteq> CHR ''0''"
    by (auto simp: canonical_decimal_def starts_with_def)
  then have "1 \<le> digit_val c"
    using digit_val_eq_0 [of c] by simp
  then have "1 * 10 ^ length t \<le> digit_val c * 10 ^ length t"
    by (rule mult_le_mono1)
  with Cons show ?thesis by (simp add: trans_le_add1)
qed (use assms in simp)

lemma canonical_shorter_less:
  assumes "canonical_decimal s" and "canonical_decimal t" and "length s < length t"
  shows "dec_val s < dec_val t"
proof -
  have "1 < length t"
    using assms canonical_decimal_not_Nil [of s] by (cases s) auto
  then have "10 ^ (length t - 1) \<le> dec_val t"
    using assms(2) by (rule canonical_decimal_ge [rotated])
  moreover have "dec_val s < 10 ^ length s"
    using assms(1) by (intro dec_val_bound canonical_decimal_digits)
  moreover have "(10::nat) ^ length s \<le> 10 ^ (length t - 1)"
    using assms(3) by (intro power_increasing) auto
  ultimately show ?thesis by linarith
qed

lemma decimal_order_correct:
  assumes "canonical_decimal s" and "canonical_decimal t"
  shows "decimal_order s t = cmp (dec_val s) (dec_val t)"
proof (cases "length s = length t")
  case True
  then show ?thesis
    using dec_val_lex [OF True] assms cmp_eqI [of s t "dec_val s" "dec_val t"]
    by (simp add: decimal_order_def canonical_decimal_digits cmp_def [of "length t"])
next
  case False
  then show ?thesis
    using canonical_shorter_less [OF assms] canonical_shorter_less [OF assms(2,1)]
    by (cases "length s < length t") (auto simp: decimal_order_def cmp_def)
qed

lemma validate_decimal_eq_Inr [simp]:
  "validate_decimal f s = Inr u \<longleftrightarrow> canonical_decimal s"
  by (simp add: validate_decimal_def)

lemma validate_positive_decimal_eq_Inr:
  "validate_positive_decimal f s = Inr u \<longleftrightarrow> canonical_decimal s \<and> s \<noteq> ''0''"
  by (auto simp: validate_positive_decimal_def result_simps)

lemma compare_decimal_eq:
  "canonical_decimal l \<Longrightarrow> canonical_decimal r \<Longrightarrow>
   compare_decimal l r = Inr (cmp (dec_val l) (dec_val r))"
  using decimal_order_correct [of l r]
  by (simp add: compare_decimal_def validate_decimal_def decimal_order_def)

lemma compare_decimal_eq_Inr:
  "compare_decimal l r = Inr ord \<longleftrightarrow>
     canonical_decimal l \<and> canonical_decimal r \<and> ord = cmp (dec_val l) (dec_val r)"
  using compare_decimal_eq [of l r]
  by (auto simp: compare_decimal_def validate_decimal_def split: if_splits)

section \<open>Printing and parsing\<close>

lemma show_nat_digits: "list_all is_ascii_digit (show_nat n)"
proof (induction n rule: show_nat.induct)
  case (1 n)
  then show ?case by (cases "n < 10") (simp_all add: show_nat.simps [of n])
qed

lemma show_nat_not_Nil [simp]: "show_nat n \<noteq> []"
  by (subst show_nat.simps) simp

lemma dec_val_show_nat [simp]: "dec_val (show_nat n) = n"
proof (induction n rule: show_nat.induct)
  case (1 n)
  then show ?case by (cases "n < 10") (simp_all add: show_nat.simps [of n])
qed

lemma hd_show_nat: "0 < n \<Longrightarrow> hd (show_nat n) \<noteq> CHR ''0''"
proof (induction n rule: show_nat.induct)
  case (1 n)
  show ?case
  proof (cases "n < 10")
    case True
    with "1.prems" show ?thesis
      using digit_val_eq_0 [of "digit_char n"] by (simp add: show_nat.simps [of n])
  next
    case False
    with "1.IH" have "hd (show_nat (n div 10)) \<noteq> CHR ''0''" by simp
    with False show ?thesis by (simp add: show_nat.simps [of n])
  qed
qed

lemma canonical_show_nat [simp]: "canonical_decimal (show_nat n)"
proof (cases "n = 0")
  case True
  then show ?thesis
    by (simp add: show_nat.simps [of 0] canonical_decimal_def)
next
  case False
  then have "\<not> starts_with ''0'' (show_nat n)"
    using hd_show_nat [of n] by (cases "show_nat n") (auto simp: starts_with_def)
  then show ?thesis
    by (simp add: canonical_decimal_def show_nat_digits)
qed

lemma dec_val_inj:
  assumes "canonical_decimal s" and "canonical_decimal t" and "dec_val s = dec_val t"
  shows "s = t"
proof -
  have "length s = length t"
    using canonical_shorter_less [OF assms(1,2)] canonical_shorter_less [OF assms(2,1)] assms(3)
    by (metis less_irrefl linorder_neqE_nat)
  then show ?thesis
    using dec_val_lex assms canonical_decimal_digits by blast
qed

lemma show_nat_dec_val [simp]: "canonical_decimal s \<Longrightarrow> show_nat (dec_val s) = s"
  by (rule dec_val_inj) simp_all

lemma canonical_decimal_trim [simp]: "canonical_decimal s \<Longrightarrow> trim s = s"
  using canonical_decimal_digits [of s]
  by (intro trim_no_whitespace) (simp add: list_all_iff digit_not_whitespace)

lemma parse_decimal_seq_eq_Inr:
  "parse_decimal_seq raw = Inr n \<longleftrightarrow>
     canonical_decimal (trim raw) \<and> dec_val (trim raw) = n \<and> n \<le> u64_max"
  by (auto simp: parse_decimal_seq_def parse_u64_def canonical_decimal_def Let_def)

lemma normalize_decimal_seq_eq_Inr:
  "normalize_decimal_seq raw = Inr s \<longleftrightarrow>
     canonical_decimal s \<and> trim raw = s \<and> dec_val s \<le> u64_max"
proof -
  have "normalize_decimal_seq raw = Inr s \<longleftrightarrow>
      (\<exists>n. parse_decimal_seq raw = Inr n \<and> show_nat n = s)"
    by (cases "parse_decimal_seq raw") (auto simp: normalize_decimal_seq_def)
  then show ?thesis by (auto simp: parse_decimal_seq_eq_Inr)
qed

section \<open>Subtraction\<close>

text \<open>The number denoted by a list of digits, least significant digit first.\<close>

fun lsd_val :: "nat list \<Rightarrow> nat" where
  "lsd_val [] = 0"
| "lsd_val (d # ds) = d + 10 * lsd_val ds"

lemma lsd_val_append: "lsd_val (xs @ ys) = lsd_val xs + 10 ^ length xs * lsd_val ys"
  by (induction xs) (auto simp: algebra_simps)

lemma lsd_val_rev_digits: "lsd_val (rev (map digit_val s)) = dec_val s"
  by (induction s) (auto simp: lsd_val_append)

lemma lsd_val_bound: "\<forall>d\<in>set ds. d < 10 \<Longrightarrow> lsd_val ds < 10 ^ length ds"
  by (induction ds) auto

lemma length_sub_digits [simp]: "length (sub_digits ds rs b) = length ds"
  by (induction ds rs b rule: sub_digits.induct) (auto simp: Let_def)

lemma sub_digits_digits:
  assumes "\<forall>d\<in>set ds. d < 10" and "\<forall>d\<in>set rs. d < 10" and "b \<le> 1"
  shows "\<forall>d\<in>set (sub_digits ds rs b). d < 10"
  using assms
proof (induction ds rs b rule: sub_digits.induct)
  case (2 d ds rs b)
  let ?r = "case rs of [] \<Rightarrow> 0 | d # _ \<Rightarrow> d"
  let ?rs = "case rs of [] \<Rightarrow> [] | _ # ds \<Rightarrow> ds"
  have rs: "\<forall>d\<in>set ?rs. d < 10" using "2.prems"(2) by (cases rs) auto
  show ?case
  proof (cases "d < ?r + b")
    case True
    with "2.IH"(1) [OF refl refl] rs "2.prems" have "\<forall>d\<in>set (sub_digits ds ?rs 1). d < 10" by simp
    with True "2.prems" show ?thesis by (simp add: Let_def)
  next
    case False
    with "2.IH"(2) [OF refl refl] rs "2.prems" have "\<forall>d\<in>set (sub_digits ds ?rs 0). d < 10" by simp
    with False "2.prems" show ?thesis by (simp add: Let_def less_imp_diff_less)
  qed
qed simp

lemma lsd_val_sub_digits:
  assumes "\<forall>d\<in>set ds. d < 10" and "\<forall>d\<in>set rs. d < 10" and "b \<le> 1"
    and "lsd_val rs + b \<le> lsd_val ds"
  shows "lsd_val (sub_digits ds rs b) + lsd_val rs + b = lsd_val ds"
  using assms
proof (induction ds rs b rule: sub_digits.induct)
  case (2 d ds rs b)
  let ?r = "case rs of [] \<Rightarrow> 0 | d # _ \<Rightarrow> d"
  let ?rs = "case rs of [] \<Rightarrow> [] | _ # ds \<Rightarrow> ds"
  have rs: "lsd_val rs = ?r + 10 * lsd_val ?rs" "?r < 10" "\<forall>d\<in>set ?rs. d < 10"
    using "2.prems"(2) by (auto split: list.splits)
  show ?case
  proof (cases "d < ?r + b")
    case True
    with rs "2.prems" have "lsd_val ?rs + 1 \<le> lsd_val ds" by auto
    with True "2.IH"(1) [OF refl refl] rs "2.prems"
    have "lsd_val (sub_digits ds ?rs 1) + lsd_val ?rs + 1 = lsd_val ds" by auto
    with True rs "2.prems" show ?thesis by (simp add: Let_def)
  next
    case False
    with rs "2.prems" have "lsd_val ?rs \<le> lsd_val ds" by auto
    with False "2.IH"(2) [OF refl refl] rs "2.prems"
    have "lsd_val (sub_digits ds ?rs 0) + lsd_val ?rs = lsd_val ds" by auto
    with False rs show ?thesis by (simp add: Let_def)
  qed
qed simp

lemma lsd_val_replicate_zero: "\<forall>d\<in>set ds. d = 0 \<Longrightarrow> lsd_val ds = 0"
  by (induction ds) auto

lemma strip_zeros_val: "lsd_val (rev (strip_zeros ds)) = lsd_val (rev ds)"
proof -
  have split: "takeWhile (\<lambda>d. d = 0) ds @ dropWhile (\<lambda>d. d = 0) ds = ds"
    by (rule takeWhile_dropWhile_id)
  have zeros: "lsd_val (rev (takeWhile (\<lambda>d. d = 0) ds)) = 0"
    by (rule lsd_val_replicate_zero, unfold set_rev, induction ds) auto
  have drop: "lsd_val (rev (dropWhile (\<lambda>d. d = 0) ds)) = lsd_val (rev ds)"
    using arg_cong [OF split, of "\<lambda>xs. lsd_val (rev xs)"]
    by (simp only: rev_append lsd_val_append zeros mult_0_right add_0_right)
  show ?thesis
  proof (cases "dropWhile (\<lambda>d. d = 0) ds")
    case Nil
    then have "\<forall>d\<in>set ds. d = 0" by (simp add: dropWhile_eq_Nil_conv)
    then have "lsd_val (rev ds) = 0" "lsd_val (rev (drop (length ds - 1) ds)) = 0"
      using in_set_dropD [of _ "length ds - 1" ds]
      by (simp_all add: lsd_val_replicate_zero)
    moreover have "strip_zeros ds = drop (length ds - 1) ds"
      unfolding strip_zeros_def Nil by simp
    ultimately show ?thesis by simp
  next
    case (Cons d es)
    have "strip_zeros ds = dropWhile (\<lambda>d. d = 0) ds"
      unfolding strip_zeros_def Cons by simp
    with drop show ?thesis by simp
  qed
qed

lemma strip_zeros_positive:
  assumes "lsd_val (rev ds) \<noteq> 0"
  shows "strip_zeros ds \<noteq> [] \<and> hd (strip_zeros ds) \<noteq> 0 \<and> set (strip_zeros ds) \<subseteq> set ds"
proof -
  have "\<exists>d\<in>set ds. d \<noteq> 0"
    using assms by (metis lsd_val_replicate_zero set_rev)
  then have "dropWhile (\<lambda>d. d = 0) ds \<noteq> []" by (simp add: dropWhile_eq_Nil_conv)
  moreover from this have "strip_zeros ds = dropWhile (\<lambda>d. d = 0) ds"
    unfolding strip_zeros_def by (auto split: list.split)
  ultimately show ?thesis
    using hd_dropWhile [of "\<lambda>d. d = 0" ds] set_dropWhileD [of _ "\<lambda>d. d = 0" ds] by auto
qed

lemma digit_string_canonical:
  assumes "ds \<noteq> []" and "hd ds \<noteq> 0" and "\<forall>d\<in>set ds. d < 10"
  shows "canonical_decimal (map digit_char ds)" and "dec_val (map digit_char ds) = lsd_val (rev ds)"
proof -
  have m: "map digit_val (map digit_char ds) = ds"
    using assms(3) by (simp add: map_idI)
  show "dec_val (map digit_char ds) = lsd_val (rev ds)"
    using lsd_val_rev_digits [of "map digit_char ds"] by (simp only: m)
  have "digit_char (hd ds) \<noteq> CHR ''0''"
    using assms digit_val_eq_0 [of "digit_char (hd ds)"] by (cases ds) auto
  then show "canonical_decimal (map digit_char ds)"
    using assms by (cases ds) (auto simp: canonical_decimal_def starts_with_def list_all_iff)
qed

lemma subtract_small_decimal_correct:
  assumes "canonical_decimal value"
  shows "subtract_small_decimal value amount =
    Inr (if dec_val value \<le> amount then None else Some (show_nat (dec_val value - amount)))"
proof (cases "dec_val value \<le> amount")
  case True
  with assms show ?thesis
    by (auto simp: subtract_small_decimal_def validate_decimal_def Let_def compare_decimal_eq)
next
  case False
  let ?v = "rev (map digit_val value)" and ?a = "rev (map digit_val (show_nat amount))"
  let ?r = "sub_digits ?v ?a 0"
  have dig: "\<forall>d\<in>set ?v. d < 10" "\<forall>d\<in>set ?a. d < 10"
    using assms show_nat_digits [of amount]
    by (auto simp: list_all_iff dest!: canonical_decimal_digits)
  have "lsd_val ?r + amount = dec_val value"
    using lsd_val_sub_digits [OF dig, of 0] False by (simp add: lsd_val_rev_digits)
  then have r: "lsd_val ?r = dec_val value - amount" by simp
  let ?s = "strip_zeros (rev ?r)"
  have s: "?s \<noteq> []" "hd ?s \<noteq> 0" "\<forall>d\<in>set ?s. d < 10"
    using strip_zeros_positive [of "rev ?r"] r False sub_digits_digits [OF dig, of 0] by auto
  have "canonical_decimal (map digit_char ?s)" "dec_val (map digit_char ?s) = dec_val value - amount"
    using digit_string_canonical [OF s] strip_zeros_val [of "rev ?r"] r by simp_all
  then have "map digit_char ?s = show_nat (dec_val value - amount)"
    by (metis show_nat_dec_val)
  with assms False show ?thesis
    by (auto simp: subtract_small_decimal_def validate_decimal_def Let_def compare_decimal_eq)
qed

section \<open>The text arithmetic is arithmetic\<close>

text \<open>
  C35. Positions of a stream are compared as text: the order computed from the lengths and the
  bytes of the epochs and the sequence numbers is the lexicographic order of the numbers they
  stand for, whatever their size.
\<close>

theorem compare_stream_position_is_numeric:
  "compare_stream_position (show_nat e) (show_nat s) (show_nat e') (show_nat s') =
     Ok (if e < e' \<or> e = e' \<and> s < s' then Less
         else if e = e' \<and> s = s' then Equal else Greater)"
  by (auto simp: compare_stream_position_def compare_decimal_eq cmp_def)

text \<open>
  C19. Subtracting a small number from a decimal text digit by digit, with the borrow carried and
  the leading zeros removed, gives the text of the difference, and reports that there is none when
  the result would not be positive.
\<close>

theorem subtract_small_decimal_is_subtraction:
  "subtract_small_decimal (show_nat n) k = Ok (if n \<le> k then None else Some (show_nat (n - k)))"
  by (simp add: subtract_small_decimal_correct)

text \<open>
  A sequence number is read from a text exactly when the trimmed text is the canonical decimal
  of a number that fits 64 bits, and writing the number gives that text back.
\<close>

lemma parse_decimal_seq_roundtrip:
  "(parse_decimal_seq raw = Ok n \<longleftrightarrow> trim raw = show_nat n \<and> n \<le> 2 ^ 64 - 1)
   \<and> (normalize_decimal_seq raw = Ok s \<longleftrightarrow> s = trim raw \<and> (\<exists>n. s = show_nat n \<and> n \<le> 2 ^ 64 - 1))"
proof
  show "parse_decimal_seq raw = Ok n \<longleftrightarrow> trim raw = show_nat n \<and> n \<le> 2 ^ 64 - 1"
    unfolding parse_decimal_seq_eq_Inr u64_max_def by (metis canonical_show_nat dec_val_show_nat show_nat_dec_val)
  show "normalize_decimal_seq raw = Ok s \<longleftrightarrow> s = trim raw \<and> (\<exists>n. s = show_nat n \<and> n \<le> 2 ^ 64 - 1)"
    unfolding normalize_decimal_seq_eq_Inr u64_max_def
    by (metis canonical_show_nat dec_val_show_nat show_nat_dec_val)
qed

end
