(* ===== verification/Sync_Coordinator.thy ===== *)
theory Sync_Coordinator
  imports Json "HOL-Library.Multiset"
begin

text \<open>
  The process-local message-sync coordinator,
  \<open>crates/im-core/src/internal/message_runtime/sync_coordinator.rs\<close>: callers that want the
  account synchronised share one running pass instead of starting their own.

  The mutex-protected state is the record \<open>MessageSyncCoordinatorState\<close>; every method
  that takes the lock is one function on it, which also returns what it sends on the one-shot
  channels.  A channel is named by a number, an executor (a boxed closure returning a future)
  is a value of the type parameter \<open>'x\<close>: the coordinator never calls it under the lock, so the
  result of its future is an input of the step that completes the run.  The interleavings of
  callers and of the spawned leader tasks are the step relation \<open>coord_step\<close>.
\<close>

section \<open>Data\<close>

record MessageSyncRequest =
  req_reason :: string
  req_limit :: "32 word option"

datatype MessageSyncStatus =
  Idle | Changed | RecoveryRequired | RetryableFailure | AuthRevoked | Blocked

record MessageReceiveOutcome =
  outcome_status :: MessageSyncStatus
  outcome_complete :: bool
  events_received :: "32 word"
  pages_fetched :: "32 word"
  messages_hydrated :: "32 word"
  duplicates_skipped :: "32 word"
  older_history_excluded :: bool
  outcome_error_code :: "string option"
  outcome_warnings :: "string list"

type_synonym sync_result = "MessageReceiveOutcome ImResult"
type_synonym run_id = "64 word"

datatype MessageSyncRequestKind = EnsureCurrent | DirtyAfterCurrent

record 'x PendingSyncRun =
  pending_request :: MessageSyncRequest
  pending_executor :: 'x

record SyncWaiter =
  target_run_id :: run_id
  waiter_sender :: nat

record 'x MessageSyncLeaderRun =
  leader_run_id :: run_id
  leader_request :: MessageSyncRequest
  leader_executor :: 'x

record 'x MessageSyncCoordinatorState =
  last_started_run_id :: run_id
  active_run_id :: "run_id option"
  pending_run :: "'x PendingSyncRun option"
  waiters :: "SyncWaiter list"

definition coordinator_default :: "'x MessageSyncCoordinatorState" where
  "coordinator_default =
     \<lparr>last_started_run_id = 0, active_run_id = None, pending_run = None, waiters = []\<rparr>"

section \<open>Helpers\<close>

definition next_run_id :: "run_id \<Rightarrow> run_id ImResult" where
  "next_run_id current =
     ok_or (Internal ''message sync coordinator run id exhausted'') (checked_add_u64 current 1)"

definition merge_limit :: "32 word option \<Rightarrow> 32 word option \<Rightarrow> 32 word option" where
  "merge_limit l r = (case (l, r) of (Some a, Some b) \<Rightarrow> Some (max a b) | _ \<Rightarrow> or_else l r)"

definition merge_pending_request ::
  "'x PendingSyncRun \<Rightarrow> MessageSyncRequest \<Rightarrow> 'x \<Rightarrow> 'x PendingSyncRun" where
  "merge_pending_request p request executor =
     \<lparr>pending_request =
        \<lparr>req_reason = req_reason request,
         req_limit = merge_limit (req_limit (pending_request p)) (req_limit request)\<rparr>,
      pending_executor = executor\<rparr>"

definition shared_result_succeeded :: "sync_result \<Rightarrow> bool" where
  "shared_result_succeeded result =
     (case result of Inl _ \<Rightarrow> False
      | Inr outcome \<Rightarrow> outcome_status outcome = Idle \<or> outcome_status outcome = Changed)"

type_synonym deliveries = "(nat \<times> sync_result) list"

definition publish_waiters_through ::
  "'x MessageSyncCoordinatorState \<Rightarrow> run_id \<Rightarrow> sync_result \<Rightarrow>
   'x MessageSyncCoordinatorState \<times> deliveries" where
  "publish_waiters_through s run_id result =
     (s\<lparr>waiters := filter (\<lambda>w. \<not> target_run_id w \<le> run_id) (waiters s)\<rparr>,
      map (\<lambda>w. (waiter_sender w, result)) (filter (\<lambda>w. target_run_id w \<le> run_id) (waiters s)))"

definition publish_all_waiters ::
  "'x MessageSyncCoordinatorState \<Rightarrow> sync_result \<Rightarrow>
   'x MessageSyncCoordinatorState \<times> deliveries" where
  "publish_all_waiters s result =
     (s\<lparr>waiters := []\<rparr>, map (\<lambda>w. (waiter_sender w, result)) (waiters s))"

definition fail_all_waiters ::
  "'x MessageSyncCoordinatorState \<Rightarrow> ImError \<Rightarrow>
   'x MessageSyncCoordinatorState \<times> deliveries" where
  "fail_all_waiters s error =
     publish_all_waiters (s\<lparr>pending_run := None, active_run_id := None\<rparr>) (Err error)"

section \<open>Operations under the lock\<close>

text \<open>
  \<open>register\<close>: join the active run, join or create the pending one, or become the leader of a
  new run.  On an error the state is left as it was.
\<close>

definition register ::
  "'x MessageSyncCoordinatorState \<Rightarrow> nat \<Rightarrow> MessageSyncRequest \<Rightarrow> MessageSyncRequestKind \<Rightarrow> 'x \<Rightarrow>
   ('x MessageSyncCoordinatorState \<times> 'x MessageSyncLeaderRun option) ImResult" where
  "register s channel request kind executor =
     bind_result
       (case active_run_id s of
          None \<Rightarrow>
            bind_result (next_run_id (last_started_run_id s)) (\<lambda>run_id.
              Ok (s\<lparr>last_started_run_id := run_id, active_run_id := Some run_id\<rparr>, run_id,
                  Some \<lparr>leader_run_id = run_id, leader_request = request,
                        leader_executor = executor\<rparr>))
        | Some active \<Rightarrow>
            (case kind of
               EnsureCurrent \<Rightarrow>
                 bind_result (if pending_run s \<noteq> None then next_run_id active else Ok active)
                   (\<lambda>target. Ok (s, target, None))
             | DirtyAfterCurrent \<Rightarrow>
                 bind_result (next_run_id active) (\<lambda>target.
                   Ok (case pending_run s of
                         Some p \<Rightarrow> s\<lparr>pending_run := Some (merge_pending_request p request executor)\<rparr>
                       | None \<Rightarrow> s\<lparr>pending_run := Some \<lparr>pending_request = request,
                                                  pending_executor = executor\<rparr>\<rparr>,
                       target, None))))
       (\<lambda>(s, target, leader).
          Ok (s\<lparr>waiters := waiters s @ [\<lparr>target_run_id = target, waiter_sender = channel\<rparr>]\<rparr>, leader))"

definition complete_run ::
  "'x MessageSyncCoordinatorState \<Rightarrow> run_id \<Rightarrow> sync_result \<Rightarrow>
   'x MessageSyncCoordinatorState \<times> deliveries \<times> 'x MessageSyncLeaderRun option" where
  "complete_run s run_id result =
     (if active_run_id s \<noteq> Some run_id then
        let (s, d) = fail_all_waiters s
              (Internal ''message sync coordinator active run changed unexpectedly'')
        in (s, d, None)
      else
        let (s, d) = publish_waiters_through s run_id result in
        if shared_result_succeeded result then
          (case pending_run s of
             Some p \<Rightarrow>
               (let s = s\<lparr>pending_run := None\<rparr> in
                case next_run_id run_id of
                  Inr next_id \<Rightarrow>
                    (s\<lparr>last_started_run_id := next_id, active_run_id := Some next_id\<rparr>, d,
                     Some \<lparr>leader_run_id = next_id, leader_request = pending_request p,
                           leader_executor = pending_executor p\<rparr>)
                | Inl error \<Rightarrow>
                    let (s, d') = fail_all_waiters s error in (s, d @ d', None))
           | None \<Rightarrow>
               (let s = s\<lparr>active_run_id := None\<rparr> in
                if waiters s \<noteq> [] then
                  let (s, d') = fail_all_waiters s
                        (Internal ''message sync coordinator left uncovered waiters'')
                  in (s, d @ d', None)
                else (s, d, None)))
        else
          let (s, d') = publish_all_waiters (s\<lparr>pending_run := None\<rparr>) result
          in (s\<lparr>active_run_id := None\<rparr>, d @ d', None))"

definition fail_unfinished_run ::
  "'x MessageSyncCoordinatorState \<Rightarrow> 'x MessageSyncCoordinatorState \<times> deliveries" where
  "fail_unfinished_run s =
     (if active_run_id s = None \<and> waiters s = [] then (s, [])
      else fail_all_waiters s
             (LocalStateUnavailable ''message sync coordinator task stopped before completion''))"

text \<open>
  The registry keeps a weak reference per owner.  \<open>live\<close> says which coordinators still have a
  strong reference; \<open>fresh\<close> is the one \<open>Arc::new\<close> would allocate.
\<close>

definition for_owner ::
  "(nat \<Rightarrow> bool) \<Rightarrow> nat \<Rightarrow> (string \<rightharpoonup> nat) \<Rightarrow> string \<Rightarrow> nat \<times> (string \<rightharpoonup> nat)" where
  "for_owner live fresh coordinators owner =
     (let kept = (\<lambda>k. filter_option live (coordinators k)) in
      case kept owner of
        Some c \<Rightarrow> (c, kept)
      | None \<Rightarrow> (fresh, kept(owner \<mapsto> fresh)))"

section \<open>Callers and leader tasks\<close>

text \<open>
  A delivery is tagged with the run whose completion sent it, \<open>None\<close> for the guard of an
  aborted task.  \<open>tasks\<close> holds the spawned \<open>run\<close> loops, each at its \<open>executor\<close> await point;
  \<open>opened\<close> the one-shot channels handed to callers whose registration succeeded, with the
  active run each saw.
\<close>

record 'x coord_sys =
  coord :: "'x MessageSyncCoordinatorState"
  tasks :: "'x MessageSyncLeaderRun list"
  next_sender :: nat
  opened :: "(nat \<times> MessageSyncRequestKind \<times> run_id option) list"
  delivered :: "(nat \<times> sync_result \<times> run_id option) list"

definition coord_init :: "'x coord_sys" where
  "coord_init =
     \<lparr>coord = coordinator_default, tasks = [], next_sender = 0, opened = [], delivered = []\<rparr>"

definition opt_list :: "'a option \<Rightarrow> 'a list" where
  "opt_list x = (case x of None \<Rightarrow> [] | Some a \<Rightarrow> [a])"

text \<open>\<open>execute\<close>: register, and spawn a task for the leader role if it was granted.\<close>

definition execute_call ::
  "MessageSyncRequest \<Rightarrow> MessageSyncRequestKind \<Rightarrow> 'x \<Rightarrow> 'x coord_sys \<Rightarrow> 'x coord_sys" where
  "execute_call request kind executor y =
     (case register (coord y) (next_sender y) request kind executor of
        Inl e \<Rightarrow> y\<lparr>next_sender := Suc (next_sender y)\<rparr>
      | Inr (s, leader) \<Rightarrow>
          y\<lparr>coord := s, tasks := tasks y @ opt_list leader,
            next_sender := Suc (next_sender y),
            opened := opened y @ [(next_sender y, kind, active_run_id (coord y))]\<rparr>)"

definition tag :: "run_id option \<Rightarrow> deliveries \<Rightarrow> (nat \<times> sync_result \<times> run_id option) list" where
  "tag r d = map (\<lambda>(n, res). (n, res, r)) d"

text \<open>One turn of the \<open>run\<close> loop of task \<open>i\<close>: its executor's future resolves to \<open>result\<close>.\<close>

definition run_turn :: "nat \<Rightarrow> sync_result \<Rightarrow> 'x coord_sys \<Rightarrow> 'x coord_sys" where
  "run_turn i result y =
     (let r = leader_run_id (tasks y ! i);
          (s, d, nxt) = complete_run (coord y) r result
      in y\<lparr>coord := s,
           tasks := take i (tasks y) @ opt_list nxt @ drop (Suc i) (tasks y),
           delivered := delivered y @ tag (Some r) d\<rparr>)"

text \<open>Task \<open>i\<close> is dropped at its await point; the armed guard runs.\<close>

definition drop_task :: "nat \<Rightarrow> 'x coord_sys \<Rightarrow> 'x coord_sys" where
  "drop_task i y =
     (let (s, d) = fail_unfinished_run (coord y)
      in y\<lparr>coord := s, tasks := take i (tasks y) @ drop (Suc i) (tasks y),
           delivered := delivered y @ tag None d\<rparr>)"

inductive coord_step :: "'x coord_sys \<Rightarrow> 'x coord_sys \<Rightarrow> bool" where
  step_execute: "coord_step y (execute_call request kind executor y)"
| step_turn: "i < length (tasks y) \<Longrightarrow> coord_step y (run_turn i result y)"
| step_drop: "i < length (tasks y) \<Longrightarrow> coord_step y (drop_task i y)"

inductive coord_reachable :: "'x coord_sys \<Rightarrow> bool" where
  reach_init: "coord_reachable coord_init"
| reach_step: "coord_reachable y \<Longrightarrow> coord_step y z \<Longrightarrow> coord_reachable z"

section \<open>The invariant of the shared state\<close>

text \<open>
  An idle coordinator has nothing pending and nobody waiting.  While run \<open>r\<close> is active it is
  the last one started, a pending run can be numbered, and a waiter waits for \<open>r\<close> or, when a
  run is pending, for the next one.
\<close>

definition waiter_covered :: "'x MessageSyncCoordinatorState \<Rightarrow> run_id \<Rightarrow> SyncWaiter \<Rightarrow> bool" where
  "waiter_covered s r w \<longleftrightarrow>
     target_run_id w \<le> r \<or> pending_run s \<noteq> None \<and> next_run_id r = Ok (target_run_id w)"

definition coord_state_inv :: "'x MessageSyncCoordinatorState \<Rightarrow> bool" where
  "coord_state_inv s \<longleftrightarrow>
     (case active_run_id s of
        None \<Rightarrow> pending_run s = None \<and> waiters s = []
      | Some r \<Rightarrow> last_started_run_id s = r
          \<and> (pending_run s \<noteq> None \<longrightarrow> (\<exists>n. next_run_id r = Ok n))
          \<and> (\<forall>w\<in>set (waiters s). waiter_covered s r w))"

lemma next_run_id_Inr: "next_run_id r = Inr n \<Longrightarrow> unat n = Suc (unat r) \<and> r < n"
  using checked_add_u64_Some [of r 1 n]
  by (simp add: next_run_id_def word_less_nat_alt)

lemma coord_state_inv_init [simp]: "coord_state_inv coordinator_default"
  by (simp add: coord_state_inv_def coordinator_default_def)

text \<open>What a successful registration did, by case.\<close>

lemma register_cases:
  assumes "register s c request kind executor = Inr (s', leader)"
  obtains (lead) r where "active_run_id s = None" "next_run_id (last_started_run_id s) = Inr r"
      "s' = s\<lparr>last_started_run_id := r, active_run_id := Some r,
             waiters := waiters s @ [\<lparr>target_run_id = r, waiter_sender = c\<rparr>]\<rparr>"
      "leader = Some \<lparr>leader_run_id = r, leader_request = request, leader_executor = executor\<rparr>"
  | (join) r where "active_run_id s = Some r" "kind = EnsureCurrent" "pending_run s = None"
      "s' = s\<lparr>waiters := waiters s @ [\<lparr>target_run_id = r, waiter_sender = c\<rparr>]\<rparr>" "leader = None"
  | (join_pending) r n where "active_run_id s = Some r" "kind = EnsureCurrent"
      "pending_run s \<noteq> None" "next_run_id r = Inr n"
      "s' = s\<lparr>waiters := waiters s @ [\<lparr>target_run_id = n, waiter_sender = c\<rparr>]\<rparr>" "leader = None"
  | (dirty) r n p where "active_run_id s = Some r" "kind = DirtyAfterCurrent"
      "next_run_id r = Inr n"
      "s' = s\<lparr>pending_run := Some p,
             waiters := waiters s @ [\<lparr>target_run_id = n, waiter_sender = c\<rparr>]\<rparr>" "leader = None"
proof (cases "active_run_id s")
  case None
  with assms that(1) show ?thesis
    by (auto simp: register_def result_simps)
next
  case (Some r)
  show ?thesis
  proof (cases kind)
    case EnsureCurrent
    with assms Some that(2,3) show ?thesis
      by (auto simp: register_def result_simps split: if_splits)
  next
    case DirtyAfterCurrent
    with assms Some that(4) show ?thesis
      by (cases "pending_run s") (auto simp: register_def result_simps)
  qed
qed

lemma register_inv:
  assumes "register s c request kind executor = Inr (s', leader)" and "coord_state_inv s"
  shows "coord_state_inv s'"
  using assms(1)
proof (cases rule: register_cases)
  case (lead r)
  with assms(2) show ?thesis by (simp add: coord_state_inv_def waiter_covered_def)
next
  case (join r)
  with assms(2) show ?thesis by (simp add: coord_state_inv_def waiter_covered_def)
next
  case (join_pending r n)
  with assms(2) show ?thesis by (simp add: coord_state_inv_def waiter_covered_def)
next
  case (dirty r n p)
  with assms(2) show ?thesis by (auto simp: coord_state_inv_def waiter_covered_def)
qed

text \<open>
  Under the invariant the active run completes in one of three ways: every waiter gets its
  result, or its success starts the pending run, for which the remaining waiters wait.
\<close>

lemma complete_run_active:
  assumes inv: "coord_state_inv s" and act: "active_run_id s = Some r"
  shows "complete_run s r result =
    (case pending_run s of
       Some p \<Rightarrow>
         if shared_result_succeeded result
         then (let n = projr (next_run_id r) in
               (s\<lparr>waiters := filter (\<lambda>w. \<not> target_run_id w \<le> r) (waiters s), pending_run := None,
                  last_started_run_id := n, active_run_id := Some n\<rparr>,
                map (\<lambda>w. (waiter_sender w, result))
                  (filter (\<lambda>w. target_run_id w \<le> r) (waiters s)),
                Some \<lparr>leader_run_id = n, leader_request = pending_request p,
                      leader_executor = pending_executor p\<rparr>))
         else (s\<lparr>waiters := [], pending_run := None, active_run_id := None\<rparr>,
               map (\<lambda>w. (waiter_sender w, result))
                 (filter (\<lambda>w. target_run_id w \<le> r) (waiters s)
                  @ filter (\<lambda>w. \<not> target_run_id w \<le> r) (waiters s)), None)
     | None \<Rightarrow> (s\<lparr>waiters := [], pending_run := None, active_run_id := None\<rparr>,
               map (\<lambda>w. (waiter_sender w, result)) (waiters s), None))"
proof (cases "pending_run s")
  case None
  with inv act have le: "\<forall>w\<in>set (waiters s). target_run_id w \<le> r"
    by (simp add: coord_state_inv_def waiter_covered_def)
  then have "filter (\<lambda>w. \<not> target_run_id w \<le> r) (waiters s) = []"
    "filter (\<lambda>w. target_run_id w \<le> r) (waiters s) = waiters s"
    by (simp_all add: filter_empty_conv)
  with None act show ?thesis
    by (simp add: complete_run_def publish_waiters_through_def publish_all_waiters_def)
next
  case (Some p)
  with inv act obtain n where "next_run_id r = Inr n"
    by (auto simp: coord_state_inv_def)
  with Some act show ?thesis
    by (simp add: complete_run_def publish_waiters_through_def publish_all_waiters_def Let_def)
qed

lemma complete_run_inv:
  assumes "coord_state_inv s" and "active_run_id s = Some r"
    and "complete_run s r result = (s', d, nxt)"
  shows "coord_state_inv s'"
proof (cases "pending_run s \<noteq> None \<and> shared_result_succeeded result")
  case True
  then obtain p where p: "pending_run s = Some p" by auto
  with assms(1,2) obtain n where n: "next_run_id r = Inr n"
    by (auto simp: coord_state_inv_def)
  from True p n assms show ?thesis
    by (auto simp: complete_run_active coord_state_inv_def waiter_covered_def)
next
  case False
  with assms show ?thesis
    by (auto simp: complete_run_active coord_state_inv_def split: option.splits)
qed

lemma fail_unfinished_run_inv:
  assumes "coord_state_inv s" and "fail_unfinished_run s = (s', d)"
  shows "coord_state_inv s' \<and> active_run_id s' = None \<and> waiters s' = []"
  using assms
  by (auto simp: fail_unfinished_run_def fail_all_waiters_def publish_all_waiters_def
      coord_state_inv_def split: if_splits)

section \<open>The invariant of callers and tasks\<close>

text \<open>
  At most one task runs, and it runs the active run.  Every channel handed out has its
  sender among the waiters or has been sent to, exactly once.  A caller that asked for a run
  after the current one is promised a later run.
\<close>

definition leader_inv :: "'x coord_sys \<Rightarrow> bool" where
  "leader_inv y \<longleftrightarrow>
     map leader_run_id (tasks y) = opt_list (active_run_id (coord y))"

definition channel_inv :: "'x coord_sys \<Rightarrow> bool" where
  "channel_inv y \<longleftrightarrow>
     mset (map waiter_sender (waiters (coord y)) @ map fst (delivered y)) = mset (map fst (opened y))
     \<and> distinct (map fst (opened y)) \<and> (\<forall>n\<in>fst ` set (opened y). n < next_sender y)"

definition promise :: "run_id \<Rightarrow> nat \<Rightarrow> 'x coord_sys \<Rightarrow> bool" where
  "promise r n y \<longleftrightarrow>
     (\<forall>w\<in>set (waiters (coord y)). waiter_sender w = n \<longrightarrow> r < target_run_id w)
     \<and> (\<forall>res tag. (n, res, tag) \<in> set (delivered y) \<longrightarrow> shared_result_succeeded res \<longrightarrow>
          (\<exists>q. tag = Some q \<and> r < q))"

definition promise_inv :: "'x coord_sys \<Rightarrow> bool" where
  "promise_inv y \<longleftrightarrow>
     (\<forall>n r. (n, DirtyAfterCurrent, Some r) \<in> set (opened y) \<longrightarrow> promise r n y)"

definition coord_inv :: "'x coord_sys \<Rightarrow> bool" where
  "coord_inv y \<longleftrightarrow>
     coord_state_inv (coord y) \<and> leader_inv y \<and> channel_inv y \<and> promise_inv y"

lemma opt_list_simps [simp]: "opt_list None = []" "opt_list (Some a) = [a]"
  by (simp_all add: opt_list_def)

lemma map_fst_tag [simp]: "map fst (tag r d) = map fst d"
  by (simp add: tag_def split_def)

lemma coord_inv_init [simp]: "coord_inv coord_init"
  by (simp add: coord_inv_def coord_init_def leader_inv_def channel_inv_def promise_inv_def
      coordinator_default_def coord_state_inv_def)

lemma mset_filter_partition:
  "mset (map f (filter P xs)) + mset (map f (filter (\<lambda>x. \<not> P x) xs)) = mset (map f xs)"
  by (induction xs) auto

lemma count_mset_list: "count (mset xs) x = count_list xs x"
  by (induction xs) auto

lemma complete_run_channels:
  assumes "coord_state_inv s" and "active_run_id s = Some r"
    and "complete_run s r result = (s', d, nxt)"
  shows "mset (map waiter_sender (waiters s')) + mset (map fst d) = mset (map waiter_sender (waiters s))"
    and "map leader_run_id (opt_list nxt) = opt_list (active_run_id s')"
    and "set (waiters s') \<subseteq> set (waiters s)"
    and "\<And>n res. (n, res) \<in> set d \<Longrightarrow>
           res = result \<and> (\<exists>w\<in>set (waiters s). waiter_sender w = n \<and>
             (shared_result_succeeded result \<longrightarrow> target_run_id w \<le> r))"
proof -
  note part = mset_filter_partition [of waiter_sender "\<lambda>w. target_run_id w \<le> r" "waiters s"]
  note eq = assms(3) [unfolded complete_run_active [OF assms(1,2)]]
  have "mset (map waiter_sender (waiters s')) + mset (map fst d) = mset (map waiter_sender (waiters s))
      \<and> map leader_run_id (opt_list nxt) = opt_list (active_run_id s')
      \<and> set (waiters s') \<subseteq> set (waiters s)
      \<and> (\<forall>(n, res) \<in> set d. res = result \<and> (\<exists>w\<in>set (waiters s). waiter_sender w = n \<and>
          (shared_result_succeeded result \<longrightarrow> target_run_id w \<le> r)))"
  proof (cases "pending_run s")
    case None
    with eq assms(1,2) show ?thesis
      by (auto simp: multiset.map_comp comp_def coord_state_inv_def waiter_covered_def)
  next
    case (Some p)
    with eq part show ?thesis
      by (cases "shared_result_succeeded result")
        (auto simp: multiset.map_comp comp_def Let_def add.commute)
  qed
  then show "mset (map waiter_sender (waiters s')) + mset (map fst d) = mset (map waiter_sender (waiters s))"
    and "map leader_run_id (opt_list nxt) = opt_list (active_run_id s')"
    and "set (waiters s') \<subseteq> set (waiters s)"
    and "\<And>n res. (n, res) \<in> set d \<Longrightarrow>
           res = result \<and> (\<exists>w\<in>set (waiters s). waiter_sender w = n \<and>
             (shared_result_succeeded result \<longrightarrow> target_run_id w \<le> r))"
    by blast+
qed

lemma fail_unfinished_run_channels:
  assumes "fail_unfinished_run s = (s', d)"
  shows "mset (map waiter_sender (waiters s')) + mset (map fst d) = mset (map waiter_sender (waiters s))"
    and "(n, res) \<in> set d \<Longrightarrow> \<not> shared_result_succeeded res"
  using assms
  by (auto simp: fail_unfinished_run_def fail_all_waiters_def publish_all_waiters_def multiset.map_comp
      comp_def shared_result_succeeded_def split: if_splits)

lemma register_sender:
  assumes "register s c request kind executor = Inr (s', leader)" and "coord_state_inv s"
  shows "\<exists>t. waiters s' = waiters s @ [\<lparr>target_run_id = t, waiter_sender = c\<rparr>]
      \<and> (\<forall>r. kind = DirtyAfterCurrent \<and> active_run_id s = Some r \<longrightarrow> r < t)"
    and "opt_list (active_run_id s) @ map leader_run_id (opt_list leader) = opt_list (active_run_id s')"
proof -
  have "(\<exists>t. waiters s' = waiters s @ [\<lparr>target_run_id = t, waiter_sender = c\<rparr>]
      \<and> (\<forall>r. kind = DirtyAfterCurrent \<and> active_run_id s = Some r \<longrightarrow> r < t))
      \<and> opt_list (active_run_id s) @ map leader_run_id (opt_list leader) = opt_list (active_run_id s')"
    using assms(1) by (cases rule: register_cases) (auto dest: next_run_id_Inr)
  then show "\<exists>t. waiters s' = waiters s @ [\<lparr>target_run_id = t, waiter_sender = c\<rparr>]
      \<and> (\<forall>r. kind = DirtyAfterCurrent \<and> active_run_id s = Some r \<longrightarrow> r < t)"
    and "opt_list (active_run_id s) @ map leader_run_id (opt_list leader) = opt_list (active_run_id s')"
    by blast+
qed

lemma channel_fresh:
  assumes "channel_inv y"
  shows "(next_sender y, res, q) \<notin> set (delivered y)"
    and "w \<in> set (waiters (coord y)) \<Longrightarrow> waiter_sender w \<noteq> next_sender y"
    and "(next_sender y, k, a) \<notin> set (opened y)"
proof -
  from assms have "set_mset (mset (map waiter_sender (waiters (coord y)) @ map fst (delivered y)))
      = set_mset (mset (map fst (opened y)))"
    by (simp only: channel_inv_def)
  then have eq: "waiter_sender ` set (waiters (coord y)) \<union> fst ` set (delivered y) = fst ` set (opened y)"
    by simp
  have lt: "n \<in> fst ` set (opened y) \<Longrightarrow> n < next_sender y" for n
    using assms by (auto simp: channel_inv_def)
  show "(next_sender y, res, q) \<notin> set (delivered y)"
    using eq lt [of "next_sender y"] by force
  show "(next_sender y, k, a) \<notin> set (opened y)"
    using lt [of "next_sender y"] by force
  show "w \<in> set (waiters (coord y)) \<Longrightarrow> waiter_sender w \<noteq> next_sender y"
    using eq lt [of "next_sender y"] by (metis UnI1 image_eqI less_irrefl)
qed

lemma channel_inv_deliver:
  assumes "channel_inv y"
    and "mset (map waiter_sender (waiters s)) + mset (map fst d)
      = mset (map waiter_sender (waiters (coord y)))"
  shows "channel_inv (y\<lparr>coord := s, tasks := ts, delivered := delivered y @ tag r d\<rparr>)"
proof -
  have "mset (map waiter_sender (waiters s) @ map fst (delivered y @ tag r d))
      = mset (map waiter_sender (waiters s)) + mset (map fst d) + mset (map fst (delivered y))"
    by simp
  with assms show ?thesis by (simp only: channel_inv_def) simp
qed

lemma execute_call_inv:
  assumes "coord_inv y"
  shows "coord_inv (execute_call request kind executor y)"
proof (cases "register (coord y) (next_sender y) request kind executor")
  case (Inl e)
  with assms show ?thesis
    by (auto simp: execute_call_def coord_inv_def leader_inv_def channel_inv_def promise_inv_def
        promise_def less_SucI)
next
  case (Inr sl)
  obtain s leader where sl: "sl = (s, leader)" by (cases sl)
  with Inr have reg: "register (coord y) (next_sender y) request kind executor = Inr (s, leader)"
    by simp
  from assms have inv: "coord_state_inv (coord y)" "leader_inv y" "channel_inv y" "promise_inv y"
    by (simp_all add: coord_inv_def)
  obtain t where t: "waiters s = waiters (coord y) @ [\<lparr>target_run_id = t, waiter_sender = next_sender y\<rparr>]"
    and later: "\<And>r. kind = DirtyAfterCurrent \<Longrightarrow> active_run_id (coord y) = Some r \<Longrightarrow> r < t"
    using register_sender(1) [OF reg inv(1)] by blast
  let ?z = "execute_call request kind executor y"
  have z: "?z = y\<lparr>coord := s, tasks := tasks y @ opt_list leader, next_sender := Suc (next_sender y),
      opened := opened y @ [(next_sender y, kind, active_run_id (coord y))]\<rparr>"
    by (simp add: execute_call_def reg)
  have "coord_state_inv (coord ?z)" using register_inv [OF reg inv(1)] by (simp add: z)
  moreover have "leader_inv ?z"
    using inv(2) register_sender(2) [OF reg inv(1)] by (simp add: leader_inv_def z)
  moreover have "channel_inv ?z"
    using inv(3) channel_fresh(3) [OF inv(3)] by (auto simp: channel_inv_def z t less_SucI)
  moreover have "promise_inv ?z"
    using inv(4) channel_fresh [OF inv(3)] later
    by (auto simp: promise_inv_def promise_def z t)
  ultimately show ?thesis by (simp add: coord_inv_def)
qed

lemma leader_inv_task:
  assumes "leader_inv y" and "i < length (tasks y)"
  shows "i = 0 \<and> (\<exists>t. tasks y = [t] \<and> active_run_id (coord y) = Some (leader_run_id t))"
  using assms by (cases "active_run_id (coord y)") (auto simp: leader_inv_def)

lemma run_turn_inv:
  assumes "coord_inv y" and "i < length (tasks y)"
  shows "coord_inv (run_turn i result y)"
proof -
  from assms have inv: "coord_state_inv (coord y)" "leader_inv y" "channel_inv y" "promise_inv y"
    by (simp_all add: coord_inv_def)
  from leader_inv_task [OF inv(2) assms(2)] obtain t where
    t: "i = 0" "tasks y = [t]" and act: "active_run_id (coord y) = Some (leader_run_id t)"
    by auto
  obtain s d nxt where run: "complete_run (coord y) (leader_run_id t) result = (s, d, nxt)"
    by (cases "complete_run (coord y) (leader_run_id t) result") auto
  note ch = complete_run_channels [OF inv(1) act run]
  let ?z = "run_turn i result y"
  have z: "?z = y\<lparr>coord := s, tasks := opt_list nxt,
      delivered := delivered y @ tag (Some (leader_run_id t)) d\<rparr>"
    by (simp add: run_turn_def t run)
  have "coord_state_inv (coord ?z)" using complete_run_inv [OF inv(1) act run] by (simp add: z)
  moreover have "leader_inv ?z" using ch(2) by (simp add: leader_inv_def z)
  moreover have "channel_inv ?z"
    using channel_inv_deliver [OF inv(3) ch(1)] by (simp add: z)
  moreover have "promise_inv ?z"
  proof -
    have "promise r n ?z" if "promise r n y" for r n
      using that ch(3,4) by (fastforce simp: promise_def z tag_def)
    then show ?thesis using inv(4) by (simp add: promise_inv_def z)
  qed
  ultimately show ?thesis by (simp add: coord_inv_def)
qed

lemma drop_task_inv:
  assumes "coord_inv y" and "i < length (tasks y)"
  shows "coord_inv (drop_task i y)"
proof -
  from assms have inv: "coord_state_inv (coord y)" "leader_inv y" "channel_inv y" "promise_inv y"
    by (simp_all add: coord_inv_def)
  from leader_inv_task [OF inv(2) assms(2)] obtain t where t: "i = 0" "tasks y = [t]"
    by auto
  obtain s d where run: "fail_unfinished_run (coord y) = (s, d)"
    by (cases "fail_unfinished_run (coord y)")
  note st = fail_unfinished_run_inv [OF inv(1) run]
  let ?z = "drop_task i y"
  have z: "?z = y\<lparr>coord := s, tasks := [], delivered := delivered y @ tag None d\<rparr>"
    by (simp add: drop_task_def t run)
  have "channel_inv ?z"
    using channel_inv_deliver [OF inv(3) fail_unfinished_run_channels(1) [OF run]] by (simp add: z)
  moreover have "promise_inv ?z"
  proof -
    have "promise r n ?z" if "promise r n y" for r n
      using that st fail_unfinished_run_channels(2) [OF run] by (fastforce simp: promise_def z tag_def)
    then show ?thesis using inv(4) by (simp add: promise_inv_def z)
  qed
  ultimately show ?thesis using st by (simp add: coord_inv_def leader_inv_def z)
qed

inductive_cases coord_stepE: "coord_step y z"

lemma coord_step_inv: "coord_step y z \<Longrightarrow> coord_inv y \<Longrightarrow> coord_inv z"
  by (auto elim!: coord_stepE intro: execute_call_inv run_turn_inv drop_task_inv)

lemma coord_reachable_inv: "coord_reachable y \<Longrightarrow> coord_inv y"
  by (induction rule: coord_reachable.induct) (auto intro: coord_step_inv)

section \<open>Properties\<close>

text \<open>Two callers, the second of which asks for a run after the current one.\<close>

definition demo_request :: MessageSyncRequest where
  "demo_request = \<lparr>req_reason = ''foreground'', req_limit = Some 50\<rparr>"

definition demo_one :: "unit coord_sys" where
  "demo_one = execute_call demo_request EnsureCurrent () coord_init"

definition demo_two :: "unit coord_sys" where
  "demo_two = execute_call demo_request DirtyAfterCurrent () demo_one"

definition demo_outcome :: MessageReceiveOutcome where
  "demo_outcome = \<lparr>outcome_status = Changed, outcome_complete = True, events_received = 1,
     pages_fetched = 1, messages_hydrated = 1, duplicates_skipped = 0,
     older_history_excluded = False, outcome_error_code = None, outcome_warnings = []\<rparr>"

lemma demo_reachable: "coord_reachable demo_one" "coord_reachable demo_two"
  unfolding demo_one_def demo_two_def
  by (rule reach_step [OF reach_init step_execute])
    (rule reach_step [OF reach_step [OF reach_init step_execute] step_execute])

lemmas demo_eval = demo_one_def demo_two_def demo_request_def demo_outcome_def execute_call_def
  register_def coord_init_def coordinator_default_def next_run_id_def checked_add_u64_def
  u64_max_def run_turn_def complete_run_def publish_waiters_through_def
  shared_result_succeeded_def tag_def Let_def

text \<open>
  C1. Single flight: whatever callers and tasks do, at most one sync pass runs, one runs
  exactly while a run is active, and it is the active run.
\<close>

theorem single_flight:
  assumes "coord_reachable y"
  shows "map leader_run_id (tasks y) =
    (case active_run_id (coord y) of None \<Rightarrow> [] | Some r \<Rightarrow> [r])"
  using coord_reachable_inv [OF assms]
  by (simp add: coord_inv_def leader_inv_def opt_list_def)

theorem single_flight_witness:
  "map leader_run_id (tasks demo_two) = [1] \<and> active_run_id (coord demo_two) = Some 1"
  using single_flight [OF demo_reachable(2)] by (simp add: demo_eval)

text \<open>
  C8. No caller is lost or answered twice: every channel handed out is either still waiting
  or has been sent exactly one result, and once no task runs every channel has its result.
\<close>

theorem answered_exactly_once:
  assumes "coord_reachable y" and "(n, kind, seen) \<in> set (opened y)"
  shows "count_list (map waiter_sender (waiters (coord y))) n
       + count_list (map fst (delivered y)) n = 1
    \<and> (tasks y = [] \<longrightarrow> count_list (map fst (delivered y)) n = 1)"
proof -
  have inv: "coord_state_inv (coord y)" "leader_inv y" "channel_inv y"
    using coord_reachable_inv [OF assms(1)] by (simp_all add: coord_inv_def)
  have "count_list (map waiter_sender (waiters (coord y))) n + count_list (map fst (delivered y)) n
      = count (mset (map waiter_sender (waiters (coord y)) @ map fst (delivered y))) n"
    by (simp only: mset_append count_union count_mset_list)
  also have "\<dots> = count (mset (map fst (opened y))) n"
    using inv(3) by (simp only: channel_inv_def)
  also have "\<dots> = 1"
    using inv(3) assms(2) by (force simp: channel_inv_def distinct_count_atmost_1)
  finally have one: "count_list (map waiter_sender (waiters (coord y))) n
      + count_list (map fst (delivered y)) n = 1" .
  have "waiters (coord y) = []" if "tasks y = []"
    using inv(1,2) that by (cases "active_run_id (coord y)") (auto simp: coord_state_inv_def leader_inv_def)
  with one show ?thesis by auto
qed

theorem answered_exactly_once_witness:
  "count_list (map waiter_sender (waiters (coord demo_two))) 1
     + count_list (map fst (delivered demo_two)) 1 = 1"
  using answered_exactly_once [OF demo_reachable(2), of 1 DirtyAfterCurrent "Some 1"]
  by (simp add: demo_eval)

text \<open>
  C11. A caller that reported a change while run \<open>r\<close> was active is only ever told of success
  by a run that started after \<open>r\<close>.
\<close>

theorem dirty_waits_for_later_run:
  assumes "coord_reachable y" and "(n, DirtyAfterCurrent, Some r) \<in> set (opened y)"
    and "(n, result, by_run) \<in> set (delivered y)" and "shared_result_succeeded result"
  shows "\<exists>q. by_run = Some q \<and> r < q"
proof -
  have "promise_inv y" using coord_reachable_inv [OF assms(1)] by (simp add: coord_inv_def)
  with assms(2-) show ?thesis by (auto simp: promise_inv_def promise_def)
qed

definition demo_done :: "unit coord_sys" where
  "demo_done = run_turn 0 (Ok demo_outcome) (run_turn 0 (Ok demo_outcome) demo_two)"

lemma demo_done_reachable: "coord_reachable demo_done"
  unfolding demo_done_def
  by (rule reach_step [OF reach_step [OF demo_reachable(2)]]; rule step_turn) (simp_all add: demo_eval)

theorem dirty_waits_for_later_run_witness:
  "(1, DirtyAfterCurrent, Some 1) \<in> set (opened demo_done)
   \<and> (1, Ok demo_outcome, Some 2) \<in> set (delivered demo_done)
   \<and> (\<exists>q. Some (2 :: run_id) = Some q \<and> (1 :: run_id) < q)"
proof -
  have a: "(1, DirtyAfterCurrent, Some 1) \<in> set (opened demo_done)"
    and b: "(1, Ok demo_outcome, Some 2) \<in> set (delivered demo_done)"
    and c: "shared_result_succeeded (Ok demo_outcome)"
    by (simp_all add: demo_done_def demo_eval word_le_nat_alt)
  show ?thesis using a b dirty_waits_for_later_run [OF demo_done_reachable a b c] by blast
qed

text \<open>
  Completing a run answers callers with that run's own result and nothing else: the
  \<open>active run changed\<close>, \<open>uncovered waiters\<close> and \<open>run id exhausted\<close> failures of
  \<open>complete_run\<close> are never sent in a reachable state.
\<close>

lemma completion_sends_own_result:
  assumes "coord_reachable y" and "i < length (tasks y)"
  shows "\<exists>ns. delivered (run_turn i result y) =
    delivered y @ map (\<lambda>n. (n, result, Some (leader_run_id (tasks y ! i)))) ns"
proof -
  have inv: "coord_state_inv (coord y)" "leader_inv y"
    using coord_reachable_inv [OF assms(1)] by (simp_all add: coord_inv_def)
  let ?r = "leader_run_id (tasks y ! i)"
  have act: "active_run_id (coord y) = Some ?r"
    using leader_inv_task [OF inv(2) assms(2)] by auto
  obtain s d nxt where run: "complete_run (coord y) ?r result = (s, d, nxt)"
    by (cases "complete_run (coord y) ?r result") auto
  have "\<forall>(n, res)\<in>set d. res = result"
    using complete_run_channels(4) [OF inv(1) act run] by blast
  then have "tag (Some ?r) d = map (\<lambda>n. (n, result, Some ?r)) (map fst d)"
    by (auto simp: tag_def comp_def)
  then show ?thesis
    by (intro exI [of _ "map fst d"]) (simp add: run_turn_def run)
qed

lemma completion_sends_own_result_example:
  "\<exists>ns. delivered (run_turn 0 (Ok demo_outcome) demo_two) =
     delivered demo_two @ map (\<lambda>n. (n, Ok demo_outcome, Some (leader_run_id (tasks demo_two ! 0)))) ns"
  by (rule completion_sends_own_result [OF demo_reachable(2)]) (simp add: demo_eval)

lemma run_turn_answers:
  assumes "coord_inv y" and "tasks y = [t]" and "w \<in> set (waiters (coord y))"
    and "pending_run (coord y) = None \<or> \<not> shared_result_succeeded result
      \<or> target_run_id w \<le> leader_run_id t"
  shows "waiter_sender w \<in> fst ` set (delivered (run_turn 0 result y))"
proof -
  have inv: "coord_state_inv (coord y)" and act: "active_run_id (coord y) = Some (leader_run_id t)"
    using assms(1) leader_inv_task [of y 0] assms(2) by (auto simp: coord_inv_def)
  obtain s d nxt where run: "complete_run (coord y) (leader_run_id t) result = (s, d, nxt)"
    by (cases "complete_run (coord y) (leader_run_id t) result") auto
  have "waiter_sender w \<in> set (map fst d)"
    using run assms(3,4) unfolding complete_run_active [OF inv act]
    by (cases "target_run_id w \<le> leader_run_id t")
      (auto simp: image_Un image_image Let_def split: option.splits if_splits)
  then have "waiter_sender w \<in> set (map fst (delivered (run_turn 0 result y)))"
    by (simp only: run_turn_def assms(2) run Let_def) (simp add: run Let_def)
  then show ?thesis by simp
qed

text \<open>
  C21. Progress: a waiting caller is answered when the running pass completes, or else that
  completion starts a second pass whose completion answers it.
\<close>

theorem waiter_answered_within_two_runs:
  assumes "coord_reachable y" and "w \<in> set (waiters (coord y))"
  shows "waiter_sender w \<in> fst ` set (delivered (run_turn 0 result1 y))
    \<or> tasks (run_turn 0 result1 y) \<noteq> []
      \<and> waiter_sender w \<in> fst ` set (delivered (run_turn 0 result2 (run_turn 0 result1 y)))"
proof -
  have inv: "coord_inv y" using coord_reachable_inv [OF assms(1)] .
  then obtain r where r: "active_run_id (coord y) = Some r"
    using assms(2) by (cases "active_run_id (coord y)") (auto simp: coord_inv_def coord_state_inv_def)
  then obtain t where t: "tasks y = [t]" "leader_run_id t = r"
    using inv by (auto simp: coord_inv_def leader_inv_def)
  let ?y = "run_turn 0 result1 y"
  show ?thesis
  proof (cases "waiter_sender w \<in> fst ` set (delivered ?y)")
    case False
    with run_turn_answers [OF inv t(1) assms(2), of result1] obtain p where
      p: "pending_run (coord y) = Some p" "shared_result_succeeded result1" "\<not> target_run_id w \<le> r"
      by (cases "pending_run (coord y)") (auto simp: t(2))
    obtain n where "next_run_id r = Inr n"
      using inv p r by (auto simp: coord_inv_def coord_state_inv_def)
    then have "pending_run (coord ?y) = None" "w \<in> set (waiters (coord ?y))" "\<exists>u. tasks ?y = [u]"
      using inv p r t assms(2) by (simp_all add: run_turn_def complete_run_active coord_inv_def)
    moreover have "coord_inv ?y" using run_turn_inv [OF inv, of 0 result1] t by simp
    ultimately show ?thesis using run_turn_answers [of ?y _ w result2] by auto
  qed simp
qed

theorem waiter_answered_within_two_runs_witness:
  "\<exists>w\<in>set (waiters (coord demo_two)). waiter_sender w = 1
     \<and> (waiter_sender w \<in> fst ` set (delivered (run_turn 0 (Ok demo_outcome) demo_two))
        \<or> tasks (run_turn 0 (Ok demo_outcome) demo_two) \<noteq> []
          \<and> waiter_sender w \<in> fst ` set (delivered (run_turn 0 (Ok demo_outcome)
              (run_turn 0 (Ok demo_outcome) demo_two))))"
proof -
  let ?w = "\<lparr>target_run_id = 2, waiter_sender = 1\<rparr>"
  have "?w \<in> set (waiters (coord demo_two))" by (simp add: demo_eval)
  with waiter_answered_within_two_runs [OF demo_reachable(2) this] show ?thesis
    by (intro bexI [of _ ?w]) simp_all
qed

end
