(* ===== verification/Sql_Tables.thy ===== *)
theory Sql_Tables
  imports Json Decimal
begin

text \<open>
  The fragment of SQL that the statements of the local store use, on tables that are lists of
  rows in \<open>rowid\<close> order: \<open>SELECT\<close> of one row, \<open>INSERT ... ON CONFLICT DO UPDATE\<close>,
  \<open>ORDER BY ... LIMIT\<close>, and the text functions of the \<open>CHECK\<close> constraints.

  The locale \<open>keyed_upsert\<close> is the contract between a table and the statements that
  upsert into it: the columns set by \<open>DO UPDATE\<close> leave the primary key alone.  Its lemmas
  give, for every such table, that the key stays unique and what a later lookup returns.
\<close>

section \<open>Text functions\<close>

text \<open>SQLite's \<open>length\<close> and \<open>GLOB\<close> read a text up to its first NUL; its \<open>trim\<close> removes
  spaces only.\<close>

definition c_text :: "string \<Rightarrow> string" where
  "c_text s = takeWhile (\<lambda>c. c \<noteq> CHR 0x00) s"

definition sql_length :: "string \<Rightarrow> nat" where
  "sql_length s = length (c_text s)"

definition sql_trim :: "string \<Rightarrow> string" where
  "sql_trim s = rev (dropWhile (\<lambda>c. c = CHR '' '') (rev (dropWhile (\<lambda>c. c = CHR '' '') s)))"

text \<open>\<open>CHECK (length(trim(x)) > 0)\<close>\<close>

definition sql_nonblank :: "string \<Rightarrow> bool" where
  "sql_nonblank s \<longleftrightarrow> sql_length (sql_trim s) > 0"

text \<open>\<open>x <> '' AND x NOT GLOB '*[^0-9]*'\<close>, with the two conditions on a leading zero.\<close>

definition sql_digits :: "string \<Rightarrow> bool" where
  "sql_digits s \<longleftrightarrow> s \<noteq> [] \<and> list_all is_ascii_digit (c_text s)"

definition sql_positive_decimal :: "string \<Rightarrow> bool" where
  "sql_positive_decimal s \<longleftrightarrow> sql_digits s \<and> take 1 s \<noteq> ''0''"

definition sql_decimal :: "string \<Rightarrow> bool" where
  "sql_decimal s \<longleftrightarrow> sql_digits s \<and> (s = ''0'' \<or> take 1 s \<noteq> ''0'')"

text \<open>The byte length of a text in UTF-8.\<close>

definition utf8_len :: "string \<Rightarrow> int" where
  "utf8_len s = sum_list (map (\<lambda>c. if of_char c < (128::int) then 1 else 2) s)"

section \<open>Queries\<close>

text \<open>\<open>query_row(...).optional()\<close>: the first selected row, if any.\<close>

definition select_row :: "('r \<Rightarrow> bool) \<Rightarrow> 'r list \<Rightarrow> 'r option" where
  "select_row P rows = List.find P rows"

definition upsert_row :: "('r \<Rightarrow> 'k) \<Rightarrow> ('r \<Rightarrow> 'r \<Rightarrow> 'r) \<Rightarrow> 'r \<Rightarrow> 'r list \<Rightarrow> 'r list" where
  "upsert_row key merge new rows =
     (if exists_row (\<lambda>r. key r = key new) rows
      then update_rows (\<lambda>r. key r = key new) (\<lambda>r. merge r new) rows
      else rows @ [new])"

text \<open>\<open>ORDER BY f LIMIT n\<close>\<close>

definition order_limit :: "('r \<Rightarrow> 'k::linorder) \<Rightarrow> nat \<Rightarrow> 'r list \<Rightarrow> 'r list" where
  "order_limit f n rows = take n (sort_key f rows)"

lemma select_row_Some:
  "select_row P rows = Some r \<Longrightarrow> r \<in> set rows \<and> P r"
  by (auto simp: select_row_def find_Some_iff)

lemma select_row_None [sql_simps]:
  "select_row P rows = None \<longleftrightarrow> (\<forall>r\<in>set rows. \<not> P r)"
  by (auto simp: select_row_def find_None_iff)

lemma select_row_Nil [simp]: "select_row P [] = None"
  by (simp add: select_row_def)

lemma select_row_Cons [simp]:
  "select_row P (r # rows) = (if P r then Some r else select_row P rows)"
  by (simp add: select_row_def)

lemma select_row_append:
  "select_row P (xs @ ys) = or_else (select_row P xs) (select_row P ys)"
  by (induction xs) auto

lemma select_row_cong:
  "(\<And>r. r \<in> set rows \<Longrightarrow> P r = Q r) \<Longrightarrow> select_row P rows = select_row Q rows"
  by (induction rows) auto

lemma select_row_update_rows:
  assumes "\<And>r. Q r \<Longrightarrow> P (f r) = P r"
  shows "select_row P (update_rows Q f rows) =
           map_option (\<lambda>r. if Q r then f r else r) (select_row P rows)"
  using assms by (induction rows) (auto simp: update_rows_def)

lemma select_row_delete_rows:
  assumes "\<And>r. P r \<Longrightarrow> \<not> Q r"
  shows "select_row P (delete_rows Q rows) = select_row P rows"
  using assms by (induction rows) (auto simp: delete_rows_def)

lemma select_row_delete_same [simp]: "select_row P (delete_rows P rows) = None"
  by (simp add: select_row_None set_delete_rows)

lemma select_row_keyed:
  assumes "distinct (map key rows)" and "r \<in> set rows"
  shows "select_row (\<lambda>x. key x = key r) rows = Some r"
  using assms by (induction rows) (auto simp: image_iff)

lemma select_row_keyed_iff:
  assumes "distinct (map key rows)"
  shows "select_row (\<lambda>x. key x = k) rows = Some r \<longleftrightarrow> r \<in> set rows \<and> key r = k"
  using assms select_row_keyed [of key rows r] select_row_Some [of "\<lambda>x. key x = k" rows r] by auto

lemma keyed_unique:
  assumes "distinct (map key rows)" and "r \<in> set rows" and "s \<in> set rows" and "key r = key s"
  shows "r = s"
  using assms by (metis select_row_keyed option.inject)

lemma set_order_limit: "set (order_limit f n rows) \<subseteq> set rows"
  unfolding order_limit_def using set_take_subset [of n "sort_key f rows"] by simp

lemma length_order_limit: "length (order_limit f n rows) = min n (length rows)"
  by (simp add: order_limit_def)

lemma distinct_map_order_limit:
  "distinct (map g rows) \<Longrightarrow> distinct (map g (order_limit f n rows))"
  by (simp add: order_limit_def take_map distinct_map
      inj_on_subset [OF _ set_take_subset, of g "sort_key f rows"])

text \<open>A row left out by \<open>LIMIT\<close> is not smaller than a row returned.\<close>

lemma order_limit_least:
  assumes "r \<in> set (order_limit f n rows)" and "s \<in> set rows"
    and "s \<notin> set (order_limit f n rows)"
  shows "f r \<le> f s"
proof -
  let ?xs = "sort_key f rows"
  have "set (take n ?xs) \<union> set (drop n ?xs) = set ?xs"
    by (simp add: set_append [symmetric] del: set_append set_sort)
  then have s: "s \<in> set (drop n ?xs)"
    using assms unfolding order_limit_def by auto
  have "map f (take n ?xs) @ map f (drop n ?xs) = map f ?xs"
    by (simp add: map_append [symmetric] del: map_append)
  then have "sorted (map f (take n ?xs) @ map f (drop n ?xs))"
    by simp
  then show ?thesis
    using assms(1) s unfolding order_limit_def sorted_append by auto
qed

section \<open>Tables with a primary key\<close>

lemma set_upsert_row:
  "set (upsert_row key merge new rows) \<subseteq>
     set rows \<union> {new} \<union> {merge r new | r. r \<in> set rows \<and> key r = key new}"
  by (auto simp: upsert_row_def set_update_rows)

lemma map_update_row_same:
  "(\<And>r. r \<in> set rows \<Longrightarrow> Q r \<Longrightarrow> g (f r) = g r) \<Longrightarrow> map g (update_rows Q f rows) = map g rows"
  by (simp add: update_rows_def)

locale keyed_upsert =
  fixes key :: "'r \<Rightarrow> 'k"
    and merge :: "'r \<Rightarrow> 'r \<Rightarrow> 'r"
  assumes key_merge: "key old = key new \<Longrightarrow> key (merge old new) = key new"
begin

lemma distinct_upsert:
  assumes "distinct (map key rows)"
  shows "distinct (map key (upsert_row key merge new rows))"
proof (cases "exists_row (\<lambda>r. key r = key new) rows")
  case True
  have "map key (update_rows (\<lambda>r. key r = key new) (\<lambda>r. merge r new) rows) = map key rows"
    by (rule map_update_row_same) (simp add: key_merge)
  with True assms show ?thesis by (simp add: upsert_row_def)
next
  case False
  with assms show ?thesis by (auto simp: upsert_row_def exists_row_iff)
qed

lemma lookup_upsert_same:
  "select_row (\<lambda>r. key r = key new) (upsert_row key merge new rows) =
     Some (case select_row (\<lambda>r. key r = key new) rows of None \<Rightarrow> new | Some r \<Rightarrow> merge r new)"
proof (cases "exists_row (\<lambda>r. key r = key new) rows")
  case True
  then obtain r where r: "select_row (\<lambda>r. key r = key new) rows = Some r"
    by (cases "select_row (\<lambda>r. key r = key new) rows") (auto simp: exists_row_iff select_row_None)
  then have "key r = key new" by (auto dest: select_row_Some)
  moreover have "select_row (\<lambda>r. key r = key new)
      (update_rows (\<lambda>r. key r = key new) (\<lambda>r. merge r new) rows) =
      map_option (\<lambda>r. if key r = key new then merge r new else r)
        (select_row (\<lambda>r. key r = key new) rows)"
    by (rule select_row_update_rows) (simp add: key_merge)
  ultimately show ?thesis using True r by (simp add: upsert_row_def)
next
  case False
  then have "select_row (\<lambda>r. key r = key new) rows = None"
    by (auto simp: exists_row_iff select_row_None)
  with False show ?thesis by (simp add: upsert_row_def select_row_append)
qed

lemma lookup_upsert_other:
  assumes "k \<noteq> key new"
  shows "select_row (\<lambda>r. key r = k) (upsert_row key merge new rows) =
           select_row (\<lambda>r. key r = k) rows"
proof -
  have upd: "select_row (\<lambda>r. key r = k)
      (update_rows (\<lambda>r. key r = key new) (\<lambda>r. merge r new) rows) =
      map_option (\<lambda>r. if key r = key new then merge r new else r) (select_row (\<lambda>r. key r = k) rows)"
    by (rule select_row_update_rows) (simp add: key_merge)
  have same: "map_option (\<lambda>r. if key r = key new then merge r new else r)
          (select_row (\<lambda>r. key r = k) rows) = select_row (\<lambda>r. key r = k) rows"
  proof (cases "select_row (\<lambda>r. key r = k) rows")
    case (Some r)
    then have "key r = k" by (auto dest: select_row_Some)
    with Some assms show ?thesis by simp
  qed simp
  have new: "select_row (\<lambda>r. key r = k) (rows @ [new]) = select_row (\<lambda>r. key r = k) rows"
    using assms by (simp add: select_row_append or_else_def split: option.split)
  show ?thesis
  proof (cases "exists_row (\<lambda>r. key r = key new) rows")
    case True
    then have "upsert_row key merge new rows =
        update_rows (\<lambda>r. key r = key new) (\<lambda>r. merge r new) rows"
      by (simp only: upsert_row_def if_True)
    then show ?thesis by (simp only: upd same)
  next
    case False
    then have "upsert_row key merge new rows = rows @ [new]"
      by (simp only: upsert_row_def if_False)
    then show ?thesis by (simp only: new)
  qed
qed

end

section \<open>Constraints that validated values satisfy\<close>

lemma c_text_id: "CHR 0x00 \<notin> set s \<Longrightarrow> c_text s = s"
  by (auto simp: c_text_def takeWhile_eq_all_conv)

lemma ne_of_mem: "c \<in> set s \<Longrightarrow> s \<noteq> []"
  by auto

lemma dropWhile_keeps: "c \<in> set s \<Longrightarrow> \<not> P c \<Longrightarrow> c \<in> set (dropWhile P s)"
  by (induction s) auto

lemma sql_trim_nonempty:
  assumes "c \<in> set s" and "c \<noteq> CHR '' ''"
  shows "sql_trim s \<noteq> []"
proof -
  have "c \<in> set (rev (dropWhile (\<lambda>c. c = CHR '' '') s))"
    unfolding set_rev using assms by (rule dropWhile_keeps)
  then have "c \<in> set (dropWhile (\<lambda>c. c = CHR '' '') (rev (dropWhile (\<lambda>c. c = CHR '' '') s)))"
    using assms(2) by (rule dropWhile_keeps)
  then have "c \<in> set (sql_trim s)" unfolding sql_trim_def set_rev .
  then show ?thesis by (rule ne_of_mem)
qed

end
