(* ===== verification/Sync_Tables.thy ===== *)
theory Sync_Tables
  imports Sql_Tables
begin

text \<open>
  The tables of the sync store (\<open>local_state/sync_v2.rs\<close>, the DDL of \<open>SYNC_V2_SCHEMA_SQL\<close>,
  \<open>SYNC_INSTALLATION_SCHEMA_SQL\<close> and \<open>SYNC_V1A_RELIABILITY_SCHEMA_SQL\<close>, and the lease
  table of \<open>local_state/sync_inbox.rs\<close>), their row types and their constraints.  A row that
  the code reads into a struct has the struct's name.  A lane column restricted by a
  \<open>CHECK\<close> to the two secure lanes is the lane itself, a status column the status.

  \<open>externs\<close> collects what the code calls outside the sources: the JSON encoder and the
  parser of \<open>serde_json\<close> with the texts of their errors, the canonical encoder, SHA-256, the calendar of \<open>chrono\<close>, and the JSON
  functions and casts of SQLite.
\<close>

section \<open>Functions outside the sources\<close>

datatype sql_value = SqlNull | SqlInt int | SqlReal "64 word" | SqlText string

record externs =
  x_json_to_string :: "json \<Rightarrow> string option"
  x_json_error :: "json \<Rightarrow> string"
  x_json_from_str :: "string \<Rightarrow> json option"
  x_parse_error :: "string \<Rightarrow> string"
  x_canonicalize :: "json \<Rightarrow> string option"
  x_sha256 :: "string \<Rightarrow> nat list"
  x_rfc3339 :: "int \<Rightarrow> string option"
  x_json_object :: "string \<Rightarrow> bool"
  x_json_valid :: "string \<Rightarrow> bool"
  x_json_extract :: "string \<Rightarrow> string list \<Rightarrow> sql_value"
  x_as_text :: "sql_value \<Rightarrow> string"
  x_cast_integer :: "sql_value \<Rightarrow> int"
  x_some_of :: "nat \<Rightarrow> string list \<Rightarrow> string list"

text \<open>The result of SQLite when a statement violates a constraint.\<close>

definition local_state_unavailable :: "string \<Rightarrow> ImError" where
  "local_state_unavailable detail = LocalStateUnavailable detail"

definition constraint_failed :: ImError where
  "constraint_failed = local_state_unavailable ''constraint failed''"

section \<open>Accounts, cursors and runs\<close>

datatype SyncLaneV3 = P5Device | P6Group

fun lane_as_str :: "SyncLaneV3 \<Rightarrow> string" where
  "lane_as_str P5Device = ''p5_device''"
| "lane_as_str P6Group = ''p6_group''"

record IdentityAccountBinding =
  bd_owner_identity_id :: string
  bd_account_id :: string
  bd_handle_scope :: "string option"
  bd_current_did :: string
  bd_protocol_device_id :: string
  bd_identity_generation :: string
  bd_device_auth_generation :: string
  bd_created_at :: int
  bd_updated_at :: int

record MessageSyncState =
  ss_owner_identity_id :: string
  ss_account_id :: string
  ss_protocol_device_id :: string
  ss_device_auth_generation :: string
  ss_stream_epoch :: string
  ss_scan_seq :: string
  ss_bootstrap_state :: string
  ss_last_server_time :: "string option"
  ss_last_success_at :: "int option"
  ss_last_error_code :: "string option"
  ss_metadata_json :: "string option"
  ss_updated_at :: int

record LaneSyncState =
  ls_owner_identity_id :: string
  ls_lane :: SyncLaneV3
  ls_stream_epoch :: string
  ls_scan_seq :: string
  ls_committed_seq :: string

record MessageSyncRunState =
  rn_owner_identity_id :: string
  rn_sync_pending :: bool
  rn_run_generation :: int
  rn_next_retry_at :: "int option"
  rn_last_result_json :: "string option"
  rn_updated_at :: int

record installation_row =
  is_owner_identity_id :: string
  is_client_instance_id :: string
  is_created_at :: int

record capability_row =
  cp_owner_identity_id :: string
  cp_negotiated_device_auth_generation :: string
  cp_client_instance_id :: "string option"
  cp_negotiated_capabilities_json :: "string option"

record P5DidCutover =
  co_owner_identity_id :: string
  co_old_did :: string
  co_new_did :: string
  co_cutover_at :: int
  co_drain_deadline :: int
  co_status :: string

record cutover_row = P5DidCutover +
  co_updated_at :: int

record RecoveryState =
  rc_owner_identity_id :: string
  rc_mode :: string
  rc_requested_from_epoch :: string
  rc_requested_from_seq :: string
  rc_recovery_id_hash :: "string option"
  rc_snapshot_scan_seq :: "string option"
  rc_status :: string
  rc_retry_count :: int
  rc_last_error_code :: "string option"
  rc_started_at :: int
  rc_updated_at :: int

section \<open>Receipts\<close>

record AppliedEventReceipt =
  ae_owner_identity_id :: string
  ae_event_id :: string
  ae_stream_epoch :: string
  ae_event_seq :: string
  ae_applied_at :: int

record applied_row = AppliedEventReceipt +
  ae_payload_hash :: "string option"

record SyncLaneEventReceipt =
  la_owner_identity_id :: string
  la_lane :: SyncLaneV3
  la_event_id :: string
  la_stream_epoch :: string
  la_event_seq :: string
  la_group_did :: "string option"
  la_group_event_seq :: "string option"
  la_applied_at :: int

record lane_applied_row = SyncLaneEventReceipt +
  la_payload_hash :: "string option"

section \<open>The inbox and the domain outcomes\<close>

record inbox_row =
  ib_input_id :: string
  ib_owner_identity_id :: string
  ib_lane :: string
  ib_lane_epoch :: string
  ib_position :: string
  ib_event_id :: string
  ib_event_type :: string
  ib_raw_payload_json :: string
  ib_payload_bytes :: int
  ib_account_id_snapshot :: string
  ib_device_id_snapshot :: string
  ib_auth_generation_snapshot :: string
  ib_client_instance_id_snapshot :: string
  ib_group_did :: "string option"
  ib_logical_event_seq :: "string option"
  ib_received_at :: string
  ib_source_created_at :: "string option"
  ib_source_expires_at :: "string option"
  ib_closed_at :: "int option"
  ib_created_at :: int
  ib_processing_scope :: string
  ib_attempt_count :: int
  ib_attempt_token :: "string option"
  ib_attempt_deadline :: "int option"
  ib_last_attempt_at :: "int option"
  ib_next_attempt_at :: "int option"
  ib_processing_error_code :: "string option"

record lease_row =
  le_attempt_token :: string
  le_deadline :: int

datatype SyncLaneDomainStatus =
    Pending | Processing | Applied | Terminal
  | RejoinRequired | RepairRequired | UpgradeRequired | ActionRequired

fun domain_status_as_str :: "SyncLaneDomainStatus \<Rightarrow> string" where
  "domain_status_as_str Pending = ''pending''"
| "domain_status_as_str Processing = ''processing''"
| "domain_status_as_str Applied = ''applied''"
| "domain_status_as_str Terminal = ''terminal''"
| "domain_status_as_str RejoinRequired = ''rejoin_required''"
| "domain_status_as_str RepairRequired = ''repair_required''"
| "domain_status_as_str UpgradeRequired = ''upgrade_required''"
| "domain_status_as_str ActionRequired = ''action_required''"

definition is_closed :: "SyncLaneDomainStatus \<Rightarrow> bool" where
  "is_closed s \<longleftrightarrow> \<not> (s = Pending \<or> s = Processing)"

text \<open>A row of \<open>sync_p5_input_outcomes\<close> (its scope column is \<open>peer_scope\<close>) or of
  \<open>sync_p6_input_outcomes\<close> (its scope column is \<open>group_did\<close>).\<close>

record outcome_row =
  oc_input_id :: string
  oc_owner_identity_id :: string
  oc_scope :: string
  oc_status :: SyncLaneDomainStatus
  oc_retryable :: bool
  oc_attempt_count :: int
  oc_next_retry_at :: "int option"
  oc_operation_ref :: "string option"
  oc_last_error_code :: "string option"
  oc_updated_at :: int

record transport_row =
  ts_owner_identity_id :: string
  ts_lane :: SyncLaneV3
  ts_last_transport_error :: "string option"
  ts_updated_at :: int

record P6LaneBlocker =
  bl_owner_identity_id :: string
  bl_event_id :: string
  bl_stream_epoch :: string
  bl_event_seq :: string
  bl_event_type :: string
  bl_group_did :: string
  bl_group_event_seq :: "string option"
  bl_payload_json :: string
  bl_attempt_count :: int
  bl_last_error_code :: string
  bl_created_at :: int
  bl_updated_at :: int

record repair_row =
  rp_owner_identity_id :: string
  rp_event_id :: string
  rp_reason :: string
  rp_updated_at :: int

record LocalMutationRecord =
  mu_owner_identity_id :: string
  mu_mutation_id :: string
  mu_operation_id :: string
  mu_mutation_type :: string
  mu_aggregate_id :: string
  mu_payload_json :: string
  mu_status :: string
  mu_attempt_count :: int
  mu_retry_at :: "int option"
  mu_in_flight_since :: "int option"
  mu_last_error_code :: "string option"
  mu_created_at :: int
  mu_updated_at :: int

text \<open>The columns of \<open>messages\<close> that the sync statements read.\<close>

record message_row =
  ms_owner_identity_id :: string
  ms_owner_did :: string
  ms_msg_id :: string
  ms_sender_did :: "string option"
  ms_group_did :: "string option"
  ms_direction :: int
  ms_server_seq :: "int option"
  ms_is_e2ee :: "int option"
  ms_metadata :: "string option"
  ms_thread_id :: string
  ms_conversation_id :: string
  ms_wire_thread_kind :: string
  ms_hydration_state :: string
  ms_stored_at :: string

record ThreadReadStateRecord =
  rs_owner_identity_id :: string
  rs_owner_did :: string
  rs_thread_scope :: string
  rs_thread_id :: string
  rs_conversation_id :: string
  rs_read_watermark_message_id :: "string option"
  rs_read_watermark_seq :: "string option"
  rs_read_watermark_at :: "string option"
  rs_pending_remote_ack :: bool
  rs_remote_ack_at :: "string option"
  rs_remote_state_version :: "string option"
  rs_updated_at :: string

section \<open>The store\<close>

record sync_db =
  t_bindings :: "IdentityAccountBinding list"
  t_installations :: "installation_row list"
  t_sync_states :: "MessageSyncState list"
  t_runs :: "MessageSyncRunState list"
  t_lane_states :: "LaneSyncState list"
  t_capabilities :: "capability_row list"
  t_cutovers :: "cutover_row list"
  t_recoveries :: "RecoveryState list"
  t_applied :: "applied_row list"
  t_lane_applied :: "lane_applied_row list"
  t_inbox :: "inbox_row list"
  t_leases :: "lease_row list"
  t_p5_outcomes :: "outcome_row list"
  t_p6_outcomes :: "outcome_row list"
  t_transport :: "transport_row list"
  t_blockers :: "P6LaneBlocker list"
  t_repairs :: "repair_row list"
  t_outbox :: "LocalMutationRecord list"
  t_messages :: "message_row list"
  t_read_states :: "ThreadReadStateRecord list"

definition empty_db :: sync_db where
  "empty_db = \<lparr>t_bindings = [], t_installations = [], t_sync_states = [], t_runs = [],
     t_lane_states = [], t_capabilities = [], t_cutovers = [], t_recoveries = [],
     t_applied = [], t_lane_applied = [], t_inbox = [], t_leases = [],
     t_p5_outcomes = [], t_p6_outcomes = [], t_transport = [], t_blockers = [],
     t_repairs = [], t_outbox = [], t_messages = [], t_read_states = []\<rparr>"

end
