(* ===== verification/Sync_Account.thy ===== *)
theory Sync_Account
  imports Sync_Tables
begin

text \<open>
  The account side of \<open>local_state/sync_v2.rs\<close>: the binding of a local identity to an account
  device, the cutovers of a replaced DID, the receive cursor of the ordinary stream with its
  bootstrap fences, the generations of sync runs and the recovery state.

  A function that runs its statements in a transaction, or whose only statement is its last,
  returns the new store or an error, the store then being unchanged.  The upserts are
  interpretations of \<open>keyed_upsert\<close>; a binding, a cursor and a run have one row per owner.
\<close>

named_theorems account_defs \<open>definitions of the account operations\<close>

section \<open>Account bindings\<close>

definition binding_conflict :: "string \<Rightarrow> ImError" where
  "binding_conflict detail = IdentityBindingConflict detail"

definition load_identity_account_binding :: "sync_db \<Rightarrow> string \<Rightarrow> IdentityAccountBinding option" where
  "load_identity_account_binding db owner =
     select_row (\<lambda>b. bd_owner_identity_id b = owner) (t_bindings db)"

definition validate_binding :: "IdentityAccountBinding \<Rightarrow> unit ImResult" where
  "validate_binding b =
     bind_result (validate_required ''owner_identity_id'' (bd_owner_identity_id b)) (\<lambda>_.
     bind_result (validate_required ''account_id'' (bd_account_id b)) (\<lambda>_.
     bind_result (validate_required ''current_did'' (bd_current_did b)) (\<lambda>_.
     bind_result (validate_required ''protocol_device_id'' (bd_protocol_device_id b)) (\<lambda>_.
     bind_result (validate_positive_decimal ''identity_generation'' (bd_identity_generation b)) (\<lambda>_.
     bind_result (validate_positive_decimal ''device_auth_generation'' (bd_device_auth_generation b)) (\<lambda>_.
       case bd_handle_scope b of
         None \<Rightarrow> Ok ()
       | Some scope \<Rightarrow> validate_required ''handle_scope'' scope))))))"

text \<open>The constraints of \<open>identity_account_bindings\<close> on a row.\<close>

definition binding_checks :: "IdentityAccountBinding \<Rightarrow> bool" where
  "binding_checks b \<longleftrightarrow>
     sql_nonblank (bd_owner_identity_id b) \<and> sql_nonblank (bd_account_id b)
   \<and> sql_nonblank (bd_current_did b) \<and> sql_nonblank (bd_protocol_device_id b)
   \<and> sql_positive_decimal (bd_identity_generation b)
   \<and> sql_positive_decimal (bd_device_auth_generation b)"

definition binding_merge ::
  "IdentityAccountBinding \<Rightarrow> IdentityAccountBinding \<Rightarrow> IdentityAccountBinding" where
  "binding_merge old new = old
     \<lparr>bd_handle_scope := bd_handle_scope new,
      bd_current_did := bd_current_did new,
      bd_identity_generation := bd_identity_generation new,
      bd_device_auth_generation := bd_device_auth_generation new,
      bd_updated_at := bd_updated_at new\<rparr>"

text \<open>The checks against the binding already stored for the owner.\<close>

definition check_rebinding ::
  "IdentityAccountBinding \<Rightarrow> IdentityAccountBinding \<Rightarrow> unit ImResult" where
  "check_rebinding old b =
     (if bd_account_id old \<noteq> bd_account_id b then
        Err (binding_conflict ''owner identity is already bound to a different account'')
      else if bd_protocol_device_id old \<noteq> bd_protocol_device_id b then
        Err (binding_conflict ''owner identity is already bound to a different protocol device'')
      else
        bind_result (compare_decimal (bd_identity_generation b) (bd_identity_generation old)) (\<lambda>ord.
          if ord = Less then
            Err (binding_conflict ''identity generation cannot move backwards'')
          else if ord = Equal \<and> bd_current_did old \<noteq> bd_current_did b then
            Err (binding_conflict ''current DID cannot change without a newer identity generation'')
          else
            bind_result (compare_decimal (bd_device_auth_generation b) (bd_device_auth_generation old))
              (\<lambda>ord'.
                if ord' = Less then
                  Err (binding_conflict ''device authorization generation cannot move backwards'')
                else Ok ())))"

section \<open>DID cutovers\<close>

definition SYNC_LANE_CLOSED_RETENTION_SECONDS :: int where
  "SYNC_LANE_CLOSED_RETENTION_SECONDS = 7 * 24 * 60 * 60"

definition cutover_key :: "cutover_row \<Rightarrow> string \<times> string \<times> string" where
  "cutover_key c = (co_owner_identity_id c, co_old_did c, co_new_did c)"

definition cutover_merge :: "cutover_row \<Rightarrow> cutover_row \<Rightarrow> cutover_row" where
  "cutover_merge old new =
     old\<lparr>co_drain_deadline := co_drain_deadline new, co_updated_at := co_updated_at new\<rparr>"

definition register_p5_did_cutover :: "sync_db \<Rightarrow> P5DidCutover \<Rightarrow> sync_db ImResult" where
  "register_p5_did_cutover db c =
     bind_result (validate_required ''owner_identity_id'' (co_owner_identity_id c)) (\<lambda>_.
     bind_result (validate_required ''old_did'' (co_old_did c)) (\<lambda>_.
     bind_result (validate_required ''new_did'' (co_new_did c)) (\<lambda>_.
       if co_old_did c = co_new_did c \<or> co_status c \<noteq> ''draining''
          \<or> co_drain_deadline c < co_cutover_at c then
         Err (sync_error ''P5_CUTOVER_INVALID'' ''P5 DID cutover must be a bounded old-to-new drain'')
       else
         bind_result (ok_or (binding_conflict ''P5 DID cutover requires an active binding'')
             (load_identity_account_binding db (co_owner_identity_id c))) (\<lambda>binding.
           if bd_current_did binding \<noteq> co_new_did c then
             Err (binding_conflict
               ''P5 DID cutover successor is not the current authoritative DID'')
           else
             Ok (db\<lparr>t_cutovers := upsert_row cutover_key cutover_merge
                   \<lparr>co_owner_identity_id = co_owner_identity_id c, co_old_did = co_old_did c,
                    co_new_did = co_new_did c, co_cutover_at = co_cutover_at c,
                    co_drain_deadline = co_drain_deadline c, co_status = ''draining'',
                    co_updated_at = co_cutover_at c\<rparr> (t_cutovers db)\<rparr>)))))"

definition load_p5_did_cutover :: "sync_db \<Rightarrow> string \<Rightarrow> string \<Rightarrow> P5DidCutover option" where
  "load_p5_did_cutover db owner old_did =
     map_option P5DidCutover.truncate
       (select_row (\<lambda>c. co_owner_identity_id c = owner \<and> co_old_did c = old_did) (t_cutovers db))"

definition complete_p5_did_cutover_if_drained ::
  "externs \<Rightarrow> sync_db \<Rightarrow> string \<Rightarrow> string \<Rightarrow> int \<Rightarrow> sync_db \<times> bool" where
  "complete_p5_did_cutover_if_drained x db owner old_did now =
     (if exists_row (\<lambda>i. ib_owner_identity_id i = owner \<and> ib_lane i = ''p5_device''
           \<and> ib_closed_at i = None
           \<and> x_json_extract x (ib_raw_payload_json i) [''meta'', ''target'', ''did''] = SqlText old_did)
         (t_inbox db)
      then (db, False)
      else let P = (\<lambda>c. co_owner_identity_id c = owner \<and> co_old_did c = old_did
                       \<and> co_status c = ''draining'')
           in (db\<lparr>t_cutovers := update_rows P (\<lambda>c. c\<lparr>co_status := ''drained'', co_updated_at := now\<rparr>)
                                  (t_cutovers db)\<rparr>,
               count_rows P (t_cutovers db) = 1))"

definition upsert_identity_account_binding ::
  "sync_db \<Rightarrow> IdentityAccountBinding \<Rightarrow> sync_db ImResult" where
  "upsert_identity_account_binding db b =
     bind_result (validate_binding b) (\<lambda>_.
     bind_result
       (case load_identity_account_binding db (bd_owner_identity_id b) of
          None \<Rightarrow> Ok None
        | Some old \<Rightarrow> bind_result (check_rebinding old b) (\<lambda>_. Ok (Some (bd_current_did old))))
       (\<lambda>previous_current_did.
     bind_result
       (case select_row (\<lambda>r. bd_account_id r = bd_account_id b
                \<and> bd_protocol_device_id r = bd_protocol_device_id b) (t_bindings db) of
          None \<Rightarrow> Ok ()
        | Some r \<Rightarrow>
            require (binding_conflict ''account device is already bound to a different local owner'')
              (bd_owner_identity_id r = bd_owner_identity_id b))
       (\<lambda>_.
     bind_result (require constraint_failed (binding_checks b)) (\<lambda>_.
       let db' = db\<lparr>t_bindings :=
             upsert_row bd_owner_identity_id binding_merge b (t_bindings db)\<rparr>
       in case filter_option (\<lambda>old. old \<noteq> bd_current_did b) previous_current_did of
            None \<Rightarrow> Ok db'
          | Some old_did \<Rightarrow>
              register_p5_did_cutover db'
                \<lparr>co_owner_identity_id = bd_owner_identity_id b, co_old_did = old_did,
                 co_new_did = bd_current_did b, co_cutover_at = bd_updated_at b,
                 co_drain_deadline =
                   saturating_add (bd_updated_at b) SYNC_LANE_CLOSED_RETENTION_SECONDS,
                 co_status = ''draining''\<rparr>))))"

interpretation binding_table: keyed_upsert bd_owner_identity_id binding_merge
  by unfold_locales (simp add: binding_merge_def)

interpretation cutover_table: keyed_upsert cutover_key cutover_merge
  by unfold_locales (simp add: cutover_merge_def cutover_key_def)

section \<open>The receive cursor\<close>

datatype MessageSyncBootstrapReason =
  MissingState | DeviceAuthGenerationChanged | StreamEpochChanged

record MessageSyncBootstrapFence =
  fe_owner_identity_id :: string
  fe_account_id :: string
  fe_protocol_device_id :: string
  fe_active_device_auth_generation :: string
  fe_stored_device_auth_generation :: "string option"
  fe_stored_stream_epoch :: "string option"
  fe_requested_stream_epoch :: "string option"
  fe_reason :: MessageSyncBootstrapReason

datatype MessageSyncStateAccess =
    Ready MessageSyncState
  | BootstrapRequired MessageSyncBootstrapFence

definition message_sync_bootstrap_fence ::
  "IdentityAccountBinding \<Rightarrow> MessageSyncState option \<Rightarrow> string option
     \<Rightarrow> MessageSyncBootstrapReason \<Rightarrow> MessageSyncBootstrapFence" where
  "message_sync_bootstrap_fence binding stored requested reason =
     \<lparr>fe_owner_identity_id = bd_owner_identity_id binding,
      fe_account_id = bd_account_id binding,
      fe_protocol_device_id = bd_protocol_device_id binding,
      fe_active_device_auth_generation = bd_device_auth_generation binding,
      fe_stored_device_auth_generation = map_option ss_device_auth_generation stored,
      fe_stored_stream_epoch = map_option ss_stream_epoch stored,
      fe_requested_stream_epoch = requested,
      fe_reason = reason\<rparr>"

definition validate_message_sync_state :: "MessageSyncState \<Rightarrow> unit ImResult" where
  "validate_message_sync_state s =
     bind_result (validate_required ''owner_identity_id'' (ss_owner_identity_id s)) (\<lambda>_.
     bind_result (validate_required ''account_id'' (ss_account_id s)) (\<lambda>_.
     bind_result (validate_required ''protocol_device_id'' (ss_protocol_device_id s)) (\<lambda>_.
     bind_result (validate_positive_decimal ''device_auth_generation'' (ss_device_auth_generation s)) (\<lambda>_.
     bind_result (validate_positive_decimal ''stream_epoch'' (ss_stream_epoch s)) (\<lambda>_.
     bind_result (validate_decimal ''scan_seq'' (ss_scan_seq s)) (\<lambda>_.
       require (invalid_input (Some ''bootstrap_state'') ''bootstrap_state is not supported'')
         (ss_bootstrap_state s \<in>
            {''uninitialized'', ''tail_bootstrapped'', ''active'', ''recovering'', ''blocked''})))))))"

definition load_message_sync_state_row :: "sync_db \<Rightarrow> string \<Rightarrow> MessageSyncState option" where
  "load_message_sync_state_row db owner =
     select_row (\<lambda>s. ss_owner_identity_id s = owner) (t_sync_states db)"

definition load_message_sync_state :: "sync_db \<Rightarrow> string \<Rightarrow> MessageSyncStateAccess ImResult" where
  "load_message_sync_state db owner =
     bind_result (ok_or (binding_conflict ''message sync state requires an active account binding'')
         (load_identity_account_binding db owner)) (\<lambda>binding.
       case load_message_sync_state_row db owner of
         None \<Rightarrow>
           Ok (BootstrapRequired (message_sync_bootstrap_fence binding None None MissingState))
       | Some state \<Rightarrow>
           if ss_account_id state \<noteq> bd_account_id binding
              \<or> ss_protocol_device_id state \<noteq> bd_protocol_device_id binding then
             Err (binding_conflict ''stored message sync state belongs to a different account device'')
           else if ss_device_auth_generation state \<noteq> bd_device_auth_generation binding then
             Ok (BootstrapRequired
               (message_sync_bootstrap_fence binding (Some state) None DeviceAuthGenerationChanged))
           else Ok (Ready state))"

text \<open>The constraints of \<open>message_sync_state\<close>, with the unique account device and the
  reference to the binding.\<close>

definition sync_state_ok :: "sync_db \<Rightarrow> MessageSyncState \<Rightarrow> bool" where
  "sync_state_ok db s \<longleftrightarrow>
     sql_nonblank (ss_owner_identity_id s) \<and> sql_nonblank (ss_account_id s)
   \<and> sql_nonblank (ss_protocol_device_id s)
   \<and> sql_positive_decimal (ss_device_auth_generation s)
   \<and> sql_positive_decimal (ss_stream_epoch s)
   \<and> sql_decimal (ss_scan_seq s)
   \<and> ss_bootstrap_state s \<in>
        {''uninitialized'', ''tail_bootstrapped'', ''active'', ''recovering'', ''blocked''}
   \<and> \<not> exists_row (\<lambda>r. ss_owner_identity_id r \<noteq> ss_owner_identity_id s
          \<and> ss_account_id r = ss_account_id s
          \<and> ss_protocol_device_id r = ss_protocol_device_id s) (t_sync_states db)
   \<and> exists_row (\<lambda>b. bd_owner_identity_id b = ss_owner_identity_id s) (t_bindings db)"

definition sync_state_merge :: "MessageSyncState \<Rightarrow> MessageSyncState \<Rightarrow> MessageSyncState" where
  "sync_state_merge old new = new\<lparr>ss_owner_identity_id := ss_owner_identity_id old\<rparr>"

definition upsert_bootstrap_state :: "sync_db \<Rightarrow> MessageSyncState \<Rightarrow> sync_db ImResult" where
  "upsert_bootstrap_state db s =
     (if sync_state_ok db s
      then Ok (db\<lparr>t_sync_states :=
             upsert_row ss_owner_identity_id sync_state_merge s (t_sync_states db)\<rparr>)
      else Err constraint_failed)"

definition complete_active_recovery :: "sync_db \<Rightarrow> MessageSyncState \<Rightarrow> sync_db" where
  "complete_active_recovery db s =
     db\<lparr>t_recoveries := update_rows
       (\<lambda>r. rc_owner_identity_id r = ss_owner_identity_id s
          \<and> rc_status r \<in> {''recovering'', ''downloading'', ''applying'', ''retryable''})
       (\<lambda>r. r\<lparr>rc_status := ''completed'', rc_snapshot_scan_seq := Some (ss_scan_seq s),
              rc_last_error_code := None, rc_updated_at := ss_updated_at s\<rparr>)
       (t_recoveries db)\<rparr>"

definition bootstrap_message_sync_state :: "sync_db \<Rightarrow> MessageSyncState \<Rightarrow> sync_db ImResult" where
  "bootstrap_message_sync_state db s =
     bind_result (validate_message_sync_state s) (\<lambda>_.
     bind_result (ok_or (binding_conflict ''message sync state requires an active account binding'')
         (load_identity_account_binding db (ss_owner_identity_id s))) (\<lambda>binding.
       if bd_account_id binding \<noteq> ss_account_id s
          \<or> bd_protocol_device_id binding \<noteq> ss_protocol_device_id s
          \<or> bd_device_auth_generation binding \<noteq> ss_device_auth_generation s then
         Err (binding_conflict ''message sync state does not match the active account binding'')
       else
         bind_result (upsert_bootstrap_state db s) (\<lambda>db'.
           Ok (complete_active_recovery db' s))))"

text \<open>The \<open>WHERE\<close> and \<open>SET\<close> clauses of the update in \<open>advance_message_sync_state\<close>.\<close>

definition cursor_matches :: "MessageSyncState \<Rightarrow> MessageSyncState \<Rightarrow> bool" where
  "cursor_matches next s \<longleftrightarrow>
     ss_owner_identity_id s = ss_owner_identity_id next
   \<and> ss_account_id s = ss_account_id next
   \<and> ss_protocol_device_id s = ss_protocol_device_id next
   \<and> ss_device_auth_generation s = ss_device_auth_generation next
   \<and> ss_stream_epoch s = ss_stream_epoch next"

definition advance_cursor :: "MessageSyncState \<Rightarrow> MessageSyncState \<Rightarrow> MessageSyncState" where
  "advance_cursor next s = s
     \<lparr>ss_scan_seq := ss_scan_seq next,
      ss_bootstrap_state := ss_bootstrap_state next,
      ss_last_server_time := ss_last_server_time next,
      ss_last_success_at := ss_last_success_at next,
      ss_last_error_code := ss_last_error_code next,
      ss_metadata_json := ss_metadata_json next,
      ss_updated_at := ss_updated_at next\<rparr>"

text \<open>The rest of \<open>advance_message_sync_state\<close> once the stored cursor is ready.\<close>

definition advance_from ::
  "sync_db \<Rightarrow> MessageSyncState \<Rightarrow> IdentityAccountBinding \<Rightarrow> MessageSyncState
     \<Rightarrow> (sync_db \<times> MessageSyncStateAccess) ImResult" where
  "advance_from db next binding current =
     (if bd_device_auth_generation binding \<noteq> ss_device_auth_generation next then
        Err (binding_conflict
          ''message sync advance uses a non-active device authorization generation'')
      else if ss_stream_epoch current \<noteq> ss_stream_epoch next then
        Ok (db, BootstrapRequired (message_sync_bootstrap_fence binding (Some current)
          (Some (ss_stream_epoch next)) StreamEpochChanged))
      else
        bind_result (compare_decimal (ss_scan_seq next) (ss_scan_seq current)) (\<lambda>ord.
          if ord = Less then
            Err (binding_conflict ''message sync scan sequence cannot move backwards'')
          else if count_rows (cursor_matches next) (t_sync_states db) \<noteq> 1 then
            Err (binding_conflict ''message sync cursor changed while it was being advanced'')
          else
            Ok (db\<lparr>t_sync_states := update_rows (cursor_matches next) (advance_cursor next)
                  (t_sync_states db)\<rparr>, Ready next)))"

definition advance_message_sync_state ::
  "sync_db \<Rightarrow> MessageSyncState \<Rightarrow> (sync_db \<times> MessageSyncStateAccess) ImResult" where
  "advance_message_sync_state db next =
     bind_result (validate_message_sync_state next) (\<lambda>_.
     bind_result (ok_or (binding_conflict ''message sync state requires an active account binding'')
         (load_identity_account_binding db (ss_owner_identity_id next))) (\<lambda>binding.
       if bd_account_id binding \<noteq> ss_account_id next
          \<or> bd_protocol_device_id binding \<noteq> ss_protocol_device_id next then
         Err (binding_conflict ''message sync advance targets a different account device'')
       else
         bind_result (load_message_sync_state db (ss_owner_identity_id next)) (\<lambda>access.
           case access of
             Ready current \<Rightarrow> advance_from db next binding current
           | BootstrapRequired fence \<Rightarrow> Ok (db, BootstrapRequired fence))))"

section \<open>Sync runs\<close>

definition validate_expected_run_generation :: "int option \<Rightarrow> unit ImResult" where
  "validate_expected_run_generation expected =
     require (invalid_input (Some ''expected_run_generation'')
         ''expected sync run generation must be positive'')
       (\<not> opt_any (\<lambda>g. g \<le> 0) expected)"

definition current_run_generation :: "sync_db \<Rightarrow> string \<Rightarrow> int option" where
  "current_run_generation db owner =
     map_option rn_run_generation (select_row (\<lambda>r. rn_owner_identity_id r = owner) (t_runs db))"

definition require_message_sync_run_generation ::
  "sync_db \<Rightarrow> string \<Rightarrow> int option \<Rightarrow> unit ImResult" where
  "require_message_sync_run_generation db owner expected =
     (case expected of
        None \<Rightarrow> Ok ()
      | Some g \<Rightarrow>
          require (sync_error ''SYNC_RUN_SUPERSEDED''
              ''a newer sync run superseded this apply transaction'')
            (current_run_generation db owner = Some g))"

definition run_merge :: "MessageSyncRunState \<Rightarrow> MessageSyncRunState \<Rightarrow> MessageSyncRunState" where
  "run_merge old new = old\<lparr>rn_sync_pending := True, rn_run_generation := rn_run_generation new,
     rn_next_retry_at := None, rn_last_result_json := None, rn_updated_at := rn_updated_at new\<rparr>"

definition begin_message_sync_run ::
  "sync_db \<Rightarrow> string \<Rightarrow> int \<Rightarrow> (sync_db \<times> MessageSyncRunState) ImResult" where
  "begin_message_sync_run db owner now =
     bind_result (validate_required ''owner_identity_id'' owner) (\<lambda>_.
       if load_identity_account_binding db owner = None then
         Err (binding_conflict ''message sync run requires an active account binding'')
       else
         let current = (case current_run_generation db owner of None \<Rightarrow> 0 | Some g \<Rightarrow> g) in
         if current \<ge> i64_max then
           Err (sync_error ''SYNC_RUN_GENERATION_EXHAUSTED'' ''sync run generation overflow'')
         else
           let run = \<lparr>rn_owner_identity_id = owner, rn_sync_pending = True,
                 rn_run_generation = current + 1, rn_next_retry_at = None,
                 rn_last_result_json = None, rn_updated_at = now\<rparr>
           in if rn_run_generation run \<le> 0 then Err constraint_failed
              else Ok (db\<lparr>t_runs := upsert_row rn_owner_identity_id run_merge run (t_runs db)\<rparr>, run))"

definition finish_message_sync_run ::
  "sync_db \<Rightarrow> MessageSyncRunState \<Rightarrow> (sync_db \<times> bool) ImResult" where
  "finish_message_sync_run db state =
     bind_result (validate_required ''owner_identity_id'' (rn_owner_identity_id state)) (\<lambda>_.
       if rn_run_generation state \<le> 0 then
         Err (invalid_input (Some ''run_generation'') ''sync run generation must be positive'')
       else
         let P = (\<lambda>r. rn_owner_identity_id r = rn_owner_identity_id state
                    \<and> rn_run_generation r = rn_run_generation state)
         in Ok (db\<lparr>t_runs := update_rows P
                  (\<lambda>r. r\<lparr>rn_sync_pending := rn_sync_pending state,
                         rn_next_retry_at := rn_next_retry_at state,
                         rn_last_result_json := rn_last_result_json state,
                         rn_updated_at := rn_updated_at state\<rparr>) (t_runs db)\<rparr>,
                count_rows P (t_runs db) = 1))"

definition load_message_sync_run_state ::
  "sync_db \<Rightarrow> string \<Rightarrow> MessageSyncRunState option ImResult" where
  "load_message_sync_run_state db owner =
     bind_result (validate_required ''owner_identity_id'' owner) (\<lambda>_.
       Ok (select_row (\<lambda>r. rn_owner_identity_id r = owner) (t_runs db)))"

interpretation sync_state_table: keyed_upsert ss_owner_identity_id sync_state_merge
  by unfold_locales (simp add: sync_state_merge_def)

interpretation run_table: keyed_upsert rn_owner_identity_id run_merge
  by unfold_locales (simp add: run_merge_def)

section \<open>Bindings only move forward\<close>

definition binding_valid :: "IdentityAccountBinding \<Rightarrow> bool" where
  "binding_valid b \<longleftrightarrow> validate_binding b = Ok () \<and> binding_checks b"

text \<open>What every later binding of an owner keeps of an earlier one.\<close>

definition binding_advances :: "IdentityAccountBinding \<Rightarrow> IdentityAccountBinding \<Rightarrow> bool" where
  "binding_advances old new \<longleftrightarrow>
     bd_owner_identity_id new = bd_owner_identity_id old
   \<and> bd_account_id new = bd_account_id old
   \<and> bd_protocol_device_id new = bd_protocol_device_id old
   \<and> bd_created_at new = bd_created_at old
   \<and> dec_val (bd_identity_generation old) \<le> dec_val (bd_identity_generation new)
   \<and> dec_val (bd_device_auth_generation old) \<le> dec_val (bd_device_auth_generation new)
   \<and> (bd_current_did new = bd_current_did old
       \<or> dec_val (bd_identity_generation old) < dec_val (bd_identity_generation new))"

lemma binding_advances_refl [simp]: "binding_advances b b"
  by (simp add: binding_advances_def)

lemma binding_advances_trans:
  "binding_advances a b \<Longrightarrow> binding_advances b c \<Longrightarrow> binding_advances a c"
  unfolding binding_advances_def by (metis le_less_trans less_le_trans order_trans)

lemma check_rebinding_eq_Inr:
  "check_rebinding old b = Inr u \<longleftrightarrow>
     bd_account_id old = bd_account_id b \<and> bd_protocol_device_id old = bd_protocol_device_id b
   \<and> canonical_decimal (bd_identity_generation b) \<and> canonical_decimal (bd_identity_generation old)
   \<and> canonical_decimal (bd_device_auth_generation b) \<and> canonical_decimal (bd_device_auth_generation old)
   \<and> dec_val (bd_identity_generation old) \<le> dec_val (bd_identity_generation b)
   \<and> dec_val (bd_device_auth_generation old) \<le> dec_val (bd_device_auth_generation b)
   \<and> (bd_current_did old = bd_current_did b
       \<or> dec_val (bd_identity_generation old) < dec_val (bd_identity_generation b))"
  by (auto simp: check_rebinding_def result_simps compare_decimal_eq_Inr cmp_eq_iff not_less le_less
      split: if_splits)

text \<open>A successful upsert: the checks that held, and the store it leaves.\<close>

lemma register_cutover_ok:
  assumes "register_p5_did_cutover db c = Inr db'"
  shows "db' = db\<lparr>t_cutovers := upsert_row cutover_key cutover_merge
      \<lparr>co_owner_identity_id = co_owner_identity_id c, co_old_did = co_old_did c,
       co_new_did = co_new_did c, co_cutover_at = co_cutover_at c,
       co_drain_deadline = co_drain_deadline c, co_status = ''draining'',
       co_updated_at = co_cutover_at c\<rparr> (t_cutovers db)\<rparr>"
  using assms by (auto simp: register_p5_did_cutover_def result_simps split: if_splits)

lemma upsert_binding_ok:
  assumes "upsert_identity_account_binding db b = Inr db'"
  shows "binding_valid b"
    and "t_bindings db' = upsert_row bd_owner_identity_id binding_merge b (t_bindings db)"
    and "load_identity_account_binding db (bd_owner_identity_id b) = Some old \<Longrightarrow>
           check_rebinding old b = Inr ()"
    and "r \<in> set (t_bindings db) \<Longrightarrow> bd_account_id r = bd_account_id b \<Longrightarrow>
           bd_protocol_device_id r = bd_protocol_device_id b \<Longrightarrow>
           \<exists>r'\<in>set (t_bindings db). bd_account_id r' = bd_account_id b
             \<and> bd_protocol_device_id r' = bd_protocol_device_id b
             \<and> bd_owner_identity_id r' = bd_owner_identity_id b"
proof -
  note up = assms [unfolded upsert_identity_account_binding_def Let_def]
  show "binding_valid b"
    using up by (auto simp: result_simps binding_valid_def)
  show "t_bindings db' = upsert_row bd_owner_identity_id binding_merge b (t_bindings db)"
    using up by (auto simp: result_simps filter_option_def dest!: register_cutover_ok
        split: option.splits if_splits)
  show "check_rebinding old b = Inr ()"
    if "load_identity_account_binding db (bd_owner_identity_id b) = Some old"
    using up that by (auto simp: result_simps)
  show "\<exists>r'\<in>set (t_bindings db). bd_account_id r' = bd_account_id b
             \<and> bd_protocol_device_id r' = bd_protocol_device_id b
             \<and> bd_owner_identity_id r' = bd_owner_identity_id b"
    if "r \<in> set (t_bindings db)" "bd_account_id r = bd_account_id b"
      "bd_protocol_device_id r = bd_protocol_device_id b"
    using up that by (auto simp: result_simps select_row_None dest!: select_row_Some
        split: option.splits)
qed

lemma load_binding_owner:
  "load_identity_account_binding db o' = Some b \<Longrightarrow> b \<in> set (t_bindings db) \<and> bd_owner_identity_id b = o'"
  unfolding load_identity_account_binding_def by (rule select_row_Some)

lemma upsert_binding_load:
  assumes "upsert_identity_account_binding db b = Inr db'"
  shows "load_identity_account_binding db' o' =
    (if o' = bd_owner_identity_id b
     then Some (case load_identity_account_binding db o' of None \<Rightarrow> b | Some old \<Rightarrow> binding_merge old b)
     else load_identity_account_binding db o')"
  unfolding load_identity_account_binding_def upsert_binding_ok(2) [OF assms]
  by (simp add: binding_table.lookup_upsert_same binding_table.lookup_upsert_other)

lemma upsert_binding_advances:
  assumes "upsert_identity_account_binding db b = Inr db'"
    and "load_identity_account_binding db o' = Some old"
  shows "\<exists>new. load_identity_account_binding db' o' = Some new \<and> binding_advances old new"
proof (cases "o' = bd_owner_identity_id b")
  case True
  with assms have "check_rebinding old b = Inr ()"
    using upsert_binding_ok(3) by metis
  then have "binding_advances old (binding_merge old b)"
    by (auto simp: check_rebinding_eq_Inr binding_advances_def binding_merge_def)
  with True assms show ?thesis by (simp add: upsert_binding_load)
next
  case False
  with assms show ?thesis by (simp add: upsert_binding_load)
qed

text \<open>Requests in any order, the failed ones leaving the store as it is.\<close>

definition try_upsert :: "IdentityAccountBinding \<Rightarrow> sync_db \<Rightarrow> sync_db" where
  "try_upsert b db = (case upsert_identity_account_binding db b of Inl _ \<Rightarrow> db | Inr db' \<Rightarrow> db')"

definition bindings_wf :: "sync_db \<Rightarrow> bool" where
  "bindings_wf db \<longleftrightarrow>
     distinct (map bd_owner_identity_id (t_bindings db))
   \<and> distinct (map (\<lambda>b. (bd_account_id b, bd_protocol_device_id b)) (t_bindings db))
   \<and> (\<forall>b\<in>set (t_bindings db). binding_valid b)"

lemma binding_merge_valid:
  "binding_valid old \<Longrightarrow> binding_valid new \<Longrightarrow> bd_owner_identity_id old = bd_owner_identity_id new \<Longrightarrow>
     binding_valid (binding_merge old new)"
  by (auto simp: binding_valid_def validate_binding_def binding_merge_def binding_checks_def
      result_simps)

lemma upsert_binding_wf:
  assumes up: "upsert_identity_account_binding db b = Inr db'" and wf: "bindings_wf db"
  shows "bindings_wf db'"
proof -
  let ?rows = "t_bindings db" and ?pair = "\<lambda>b. (bd_account_id b, bd_protocol_device_id b)"
  have rows: "t_bindings db' = upsert_row bd_owner_identity_id binding_merge b ?rows"
    by (rule upsert_binding_ok(2) [OF up])
  have owners: "distinct (map bd_owner_identity_id (t_bindings db'))"
    using wf by (simp add: rows bindings_wf_def binding_table.distinct_upsert)
  have pairs: "distinct (map ?pair (t_bindings db'))"
  proof (cases "exists_row (\<lambda>r. bd_owner_identity_id r = bd_owner_identity_id b) ?rows")
    case True
    have "map ?pair (update_rows (\<lambda>r. bd_owner_identity_id r = bd_owner_identity_id b)
            (\<lambda>r. binding_merge r b) ?rows) = map ?pair ?rows"
      by (rule map_update_row_same) (simp add: binding_merge_def)
    with True wf show ?thesis by (simp add: rows upsert_row_def bindings_wf_def)
  next
    case False
    then have "?pair b \<notin> ?pair ` set ?rows"
      using upsert_binding_ok(4) [OF up] unfolding exists_row_iff image_iff prod.inject by metis
    with False wf show ?thesis by (simp add: rows upsert_row_def bindings_wf_def)
  qed
  have "\<forall>r\<in>set (t_bindings db'). binding_valid r"
  proof
    fix r assume "r \<in> set (t_bindings db')"
    then consider "r \<in> set ?rows" | "r = b"
      | q where "q \<in> set ?rows" "bd_owner_identity_id q = bd_owner_identity_id b" "r = binding_merge q b"
      using set_upsert_row [of bd_owner_identity_id binding_merge b ?rows] unfolding rows by blast
    then show "binding_valid r"
      using wf upsert_binding_ok(1) [OF up] by cases (auto simp: bindings_wf_def binding_merge_valid)
  qed
  with owners pairs show ?thesis by (simp add: bindings_wf_def)
qed

lemma try_upsert_wf: "bindings_wf db \<Longrightarrow> bindings_wf (try_upsert b db)"
  by (simp add: try_upsert_def upsert_binding_wf split: sum.split)

lemma fold_try_upsert_wf: "bindings_wf db \<Longrightarrow> bindings_wf (fold try_upsert bs db)"
  by (induction bs arbitrary: db) (simp_all add: try_upsert_wf)

lemma fold_try_upsert_advances:
  assumes "load_identity_account_binding db o' = Some old"
  shows "\<exists>new. load_identity_account_binding (fold try_upsert bs db) o' = Some new
               \<and> binding_advances old new"
  using assms
proof (induction bs arbitrary: db old)
  case (Cons b bs)
  have "\<exists>mid. load_identity_account_binding (try_upsert b db) o' = Some mid
             \<and> binding_advances old mid"
    using Cons.prems by (auto simp: try_upsert_def upsert_binding_advances split: sum.split)
  with Cons.IH show ?case using binding_advances_trans by fastforce
qed simp

text \<open>
  C18. Whatever sequence of bindings is requested, the binding stored for a local identity keeps
  its account, its protocol device and its creation time; its two generations never decrease,
  and its DID changes only together with a strictly newer identity generation.
\<close>

theorem binding_only_advances:
  assumes "load_identity_account_binding db o' = Some old"
  shows "\<exists>new. load_identity_account_binding (fold try_upsert bs db) o' = Some new
    \<and> bd_account_id new = bd_account_id old
    \<and> bd_protocol_device_id new = bd_protocol_device_id old
    \<and> bd_created_at new = bd_created_at old
    \<and> dec_val (bd_identity_generation old) \<le> dec_val (bd_identity_generation new)
    \<and> dec_val (bd_device_auth_generation old) \<le> dec_val (bd_device_auth_generation new)
    \<and> (bd_current_did new \<noteq> bd_current_did old \<longrightarrow>
         dec_val (bd_identity_generation old) < dec_val (bd_identity_generation new))"
  using fold_try_upsert_advances [OF assms, of bs] unfolding binding_advances_def by metis

text \<open>
  C22. Starting from an empty store, no sequence of binding requests gives a local identity two
  bindings or lets two local identities own the same device of an account, and every stored
  binding is one the validation accepts.
\<close>

theorem account_device_has_one_owner:
  assumes "b \<in> set (t_bindings (fold try_upsert bs empty_db))"
    and "c \<in> set (t_bindings (fold try_upsert bs empty_db))"
  shows "validate_binding b = Ok ()
    \<and> (bd_owner_identity_id b = bd_owner_identity_id c \<longleftrightarrow> b = c)
    \<and> (bd_account_id b = bd_account_id c \<and> bd_protocol_device_id b = bd_protocol_device_id c
        \<longleftrightarrow> b = c)"
proof -
  have wf: "bindings_wf (fold try_upsert bs empty_db)"
    by (rule fold_try_upsert_wf) (simp add: bindings_wf_def empty_db_def)
  have "validate_binding b = Ok ()"
    using wf assms by (auto simp: bindings_wf_def binding_valid_def)
  moreover have "bd_owner_identity_id b = bd_owner_identity_id c \<longleftrightarrow> b = c"
    using wf assms keyed_unique [of bd_owner_identity_id] by (auto simp: bindings_wf_def)
  moreover have "bd_account_id b = bd_account_id c \<and> bd_protocol_device_id b = bd_protocol_device_id c
           \<longleftrightarrow> b = c"
    using wf assms keyed_unique [of "\<lambda>b. (bd_account_id b, bd_protocol_device_id b)"]
    by (auto simp: bindings_wf_def)
  ultimately show ?thesis by simp
qed

text \<open>Concrete bindings and stores for the witnesses.\<close>

definition sample_binding :: "string \<Rightarrow> string \<Rightarrow> IdentityAccountBinding" where
  "sample_binding did gen =
     \<lparr>bd_owner_identity_id = ''owner'', bd_account_id = ''acct'', bd_handle_scope = None,
      bd_current_did = did, bd_protocol_device_id = ''dev'', bd_identity_generation = gen,
      bd_device_auth_generation = ''1'', bd_created_at = 10, bd_updated_at = 10\<rparr>"

definition sample_db :: sync_db where
  "sample_db = try_upsert (sample_binding ''did:a'' ''9'') empty_db"

lemma sample_db_eq: "sample_db = empty_db\<lparr>t_bindings := [sample_binding ''did:a'' ''9'']\<rparr>"
  by code_simp

theorem binding_only_advances_witness:
  "\<exists>new. load_identity_account_binding
       (fold try_upsert [sample_binding ''did:b'' ''9'', sample_binding ''did:b'' ''10'',
          sample_binding ''did:a'' ''9''] sample_db) ''owner'' = Some new
     \<and> bd_current_did new = ''did:b'' \<and> 9 < dec_val (bd_identity_generation new)"
proof -
  let ?bs = "[sample_binding ''did:b'' ''9'', sample_binding ''did:b'' ''10'',
              sample_binding ''did:a'' ''9'']"
  have old: "load_identity_account_binding sample_db ''owner'' = Some (sample_binding ''did:a'' ''9'')"
    by code_simp
  have new: "load_identity_account_binding (fold try_upsert ?bs sample_db) ''owner'' =
      Some (sample_binding ''did:b'' ''10'')"
    by code_simp
  have "dec_val ''9'' = 9" by code_simp
  then show ?thesis
    using binding_only_advances [OF old, of ?bs] unfolding new by (simp add: sample_binding_def)
qed

theorem account_device_has_one_owner_witness:
  "validate_binding (sample_binding ''did:b'' ''10'') = Ok ()
   \<and> sample_binding ''did:b'' ''10'' \<in> set (t_bindings (fold try_upsert
       [sample_binding ''did:a'' ''9'', sample_binding ''did:b'' ''10'',
        (sample_binding ''did:c'' ''11'')\<lparr>bd_owner_identity_id := ''other''\<rparr>] empty_db))"
proof -
  let ?bs = "[sample_binding ''did:a'' ''9'', sample_binding ''did:b'' ''10'',
        (sample_binding ''did:c'' ''11'')\<lparr>bd_owner_identity_id := ''other''\<rparr>]"
  have "t_bindings (fold try_upsert ?bs empty_db) = [sample_binding ''did:b'' ''10'']"
    by code_simp
  then have mem: "sample_binding ''did:b'' ''10'' \<in> set (t_bindings (fold try_upsert ?bs empty_db))"
    by simp
  from account_device_has_one_owner [OF mem mem] mem show ?thesis by simp
qed

section \<open>The cursor moves forward or is fenced\<close>

lemma update_rows_none: "(\<And>r. r \<in> set rows \<Longrightarrow> \<not> P r) \<Longrightarrow> update_rows P f rows = rows"
  by (simp add: update_rows_def map_idI)

lemma load_message_sync_state_eq_Ready:
  "load_message_sync_state db o' = Inr (Ready s) \<longleftrightarrow>
     (\<exists>b. load_identity_account_binding db o' = Some b \<and> load_message_sync_state_row db o' = Some s
        \<and> ss_account_id s = bd_account_id b \<and> ss_protocol_device_id s = bd_protocol_device_id b
        \<and> ss_device_auth_generation s = bd_device_auth_generation b)"
  by (auto simp: load_message_sync_state_def result_simps split: option.splits if_splits)

lemma advance_cursor_self: "cursor_matches next s \<Longrightarrow> advance_cursor next s = next"
  by (simp add: cursor_matches_def advance_cursor_def)

lemma advance_from_ok:
  assumes "advance_from db next b cur = Inr (db', access)"
  shows "(\<exists>fence. access = BootstrapRequired fence \<and> db' = db) \<or>
    access = Ready next \<and> bd_device_auth_generation b = ss_device_auth_generation next
    \<and> ss_stream_epoch cur = ss_stream_epoch next
    \<and> canonical_decimal (ss_scan_seq cur) \<and> canonical_decimal (ss_scan_seq next)
    \<and> dec_val (ss_scan_seq cur) \<le> dec_val (ss_scan_seq next)
    \<and> db' = db\<lparr>t_sync_states := update_rows (cursor_matches next) (advance_cursor next)
                (t_sync_states db)\<rparr>"
proof (cases "ss_stream_epoch cur = ss_stream_epoch next")
  case True
  obtain ord where ord: "compare_decimal (ss_scan_seq next) (ss_scan_seq cur) = Inr ord"
    using assms True by (auto simp: advance_from_def bind_result_eq_Inr split: if_split_asm)
  with assms True have "ord \<noteq> Less" and res: "access = Ready next"
    "bd_device_auth_generation b = ss_device_auth_generation next"
    "db' = db\<lparr>t_sync_states := update_rows (cursor_matches next) (advance_cursor next)
                (t_sync_states db)\<rparr>"
    by (simp_all add: advance_from_def split: if_split_asm)
  with ord have "canonical_decimal (ss_scan_seq cur) \<and> canonical_decimal (ss_scan_seq next)
      \<and> dec_val (ss_scan_seq cur) \<le> dec_val (ss_scan_seq next)"
    by (auto simp: compare_decimal_eq_Inr not_less)
  with res True show ?thesis by blast
next
  case False
  with assms show ?thesis
    by (fastforce simp: advance_from_def split: if_split_asm)
qed

lemma advance_ok:
  assumes "advance_message_sync_state db next = Inr (db', access)"
  shows "(\<exists>fence. access = BootstrapRequired fence \<and> db' = db) \<or>
    access = Ready next \<and>
    (\<exists>cur. load_message_sync_state db (ss_owner_identity_id next) = Inr (Ready cur)
       \<and> cursor_matches next cur \<and> canonical_decimal (ss_scan_seq cur)
       \<and> canonical_decimal (ss_scan_seq next)
       \<and> dec_val (ss_scan_seq cur) \<le> dec_val (ss_scan_seq next)
       \<and> db' = db\<lparr>t_sync_states := update_rows (cursor_matches next) (advance_cursor next)
                   (t_sync_states db)\<rparr>)"
proof -
  let ?o = "ss_owner_identity_id next"
  obtain b a where b: "load_identity_account_binding db ?o = Some b"
      "bd_account_id b = ss_account_id next" "bd_protocol_device_id b = ss_protocol_device_id next"
    and a: "load_message_sync_state db ?o = Inr a"
    using assms by (auto simp: advance_message_sync_state_def result_simps split: if_splits)
  show ?thesis
  proof (cases a)
    case (Ready cur)
    with a b have "load_message_sync_state_row db ?o = Some cur"
      "ss_account_id cur = ss_account_id next" "ss_protocol_device_id cur = ss_protocol_device_id next"
      "ss_device_auth_generation cur = bd_device_auth_generation b"
      by (auto simp: load_message_sync_state_eq_Ready)
    moreover from this(1) have "ss_owner_identity_id cur = ?o"
      unfolding load_message_sync_state_row_def by (auto dest: select_row_Some)
    moreover have "advance_from db next b cur = Inr (db', access)"
      using assms a b Ready by (auto simp: advance_message_sync_state_def result_simps)
    ultimately show ?thesis
      using a Ready by (auto dest!: advance_from_ok simp: cursor_matches_def)
  next
    case (BootstrapRequired fence)
    with assms a b show ?thesis by (auto simp: advance_message_sync_state_def result_simps)
  qed
qed

lemma advance_load_row:
  "load_message_sync_state_row
     (db\<lparr>t_sync_states := update_rows (cursor_matches next) (advance_cursor next) (t_sync_states db)\<rparr>) o'
   = map_option (\<lambda>s. if cursor_matches next s then next else s) (load_message_sync_state_row db o')"
proof -
  have "select_row (\<lambda>s. ss_owner_identity_id s = o')
      (update_rows (cursor_matches next) (advance_cursor next) (t_sync_states db)) =
    map_option (\<lambda>s. if cursor_matches next s then advance_cursor next s else s)
      (select_row (\<lambda>s. ss_owner_identity_id s = o') (t_sync_states db))"
    by (rule select_row_update_rows) (simp add: advance_cursor_def)
  moreover have "(\<lambda>s. if cursor_matches next s then advance_cursor next s else s) =
      (\<lambda>s. if cursor_matches next s then next else s)"
    by (auto simp: advance_cursor_self)
  ultimately show ?thesis
    by (simp add: load_message_sync_state_row_def)
qed

text \<open>What an advance that is not fenced leaves in the store.\<close>

lemma advance_effect:
  assumes "advance_message_sync_state db next = Inr (db', Ready s)"
  shows "s = next" and "load_message_sync_state db' (ss_owner_identity_id next) = Inr (Ready next)"
    and "\<exists>cur. load_message_sync_state db (ss_owner_identity_id next) = Inr (Ready cur)
             \<and> ss_stream_epoch cur = ss_stream_epoch next
             \<and> ss_device_auth_generation cur = ss_device_auth_generation next
             \<and> dec_val (ss_scan_seq cur) \<le> dec_val (ss_scan_seq next)"
    and "o' \<noteq> ss_owner_identity_id next \<Longrightarrow>
           load_message_sync_state_row db' o' = load_message_sync_state_row db o'"
    and "\<exists>rows. db' = db\<lparr>t_sync_states := rows\<rparr>"
proof -
  obtain cur where s: "s = next"
    and cur: "load_message_sync_state db (ss_owner_identity_id next) = Inr (Ready cur)"
    and m: "cursor_matches next cur"
    and le: "dec_val (ss_scan_seq cur) \<le> dec_val (ss_scan_seq next)"
    and db': "db' = db\<lparr>t_sync_states := update_rows (cursor_matches next) (advance_cursor next)
                   (t_sync_states db)\<rparr>"
    using advance_ok [OF assms] by auto
  have same: "load_identity_account_binding db' o' = load_identity_account_binding db o'" for o'
    by (simp add: db' load_identity_account_binding_def)
  show "s = next" by (rule s)
  show "\<exists>rows. db' = db\<lparr>t_sync_states := rows\<rparr>" using db' by blast
  show "load_message_sync_state db' (ss_owner_identity_id next) = Inr (Ready next)"
  proof -
    obtain b where "load_identity_account_binding db (ss_owner_identity_id next) = Some b"
      "load_message_sync_state_row db (ss_owner_identity_id next) = Some cur"
      "ss_account_id cur = bd_account_id b" "ss_protocol_device_id cur = bd_protocol_device_id b"
      "ss_device_auth_generation cur = bd_device_auth_generation b"
      using cur by (auto simp: load_message_sync_state_eq_Ready)
    with m show ?thesis
      unfolding load_message_sync_state_eq_Ready same unfolding db' advance_load_row
      by (simp add: cursor_matches_def)
  qed
  show "load_message_sync_state_row db' o' = load_message_sync_state_row db o'"
    if "o' \<noteq> ss_owner_identity_id next"
  proof (cases "load_message_sync_state_row db o'")
    case (Some s)
    then have "ss_owner_identity_id s = o'"
      by (auto simp: load_message_sync_state_row_def dest: select_row_Some)
    with that Some show ?thesis unfolding db' advance_load_row by (simp add: cursor_matches_def)
  qed (simp add: db' advance_load_row)
  from m have "ss_stream_epoch cur = ss_stream_epoch next"
    "ss_device_auth_generation cur = ss_device_auth_generation next"
    by (simp_all add: cursor_matches_def)
  with cur le show "\<exists>cur. load_message_sync_state db (ss_owner_identity_id next) = Inr (Ready cur)
             \<and> ss_stream_epoch cur = ss_stream_epoch next
             \<and> ss_device_auth_generation cur = ss_device_auth_generation next
             \<and> dec_val (ss_scan_seq cur) \<le> dec_val (ss_scan_seq next)" by blast
qed

text \<open>
  C23. Advancing the receive cursor either stores exactly the requested state, in the same stream
  epoch and device generation and at a position not before the stored one, or asks for a
  bootstrap and changes nothing; the cursors of other identities are untouched either way.
\<close>

theorem advance_is_forward_or_fenced:
  assumes "advance_message_sync_state db next = Ok (db', access)"
  shows "(case access of
      BootstrapRequired fence \<Rightarrow> db' = db
    | Ready s \<Rightarrow> s = next \<and> load_message_sync_state db' (ss_owner_identity_id next) = Ok (Ready next)
        \<and> (\<exists>cur. load_message_sync_state db (ss_owner_identity_id next) = Ok (Ready cur)
             \<and> ss_stream_epoch cur = ss_stream_epoch next
             \<and> ss_device_auth_generation cur = ss_device_auth_generation next
             \<and> dec_val (ss_scan_seq cur) \<le> dec_val (ss_scan_seq next)))
    \<and> (\<forall>o'. o' \<noteq> ss_owner_identity_id next \<longrightarrow>
         load_message_sync_state_row db' o' = load_message_sync_state_row db o')"
proof (cases access)
  case (Ready s)
  with assms have "advance_message_sync_state db next = Inr (db', Ready s)" by simp
  from advance_effect [OF this] Ready show ?thesis by simp
next
  case (BootstrapRequired fence)
  with advance_ok [OF assms] show ?thesis by simp
qed

definition sample_state :: "string \<Rightarrow> MessageSyncState" where
  "sample_state seq =
     \<lparr>ss_owner_identity_id = ''owner'', ss_account_id = ''acct'', ss_protocol_device_id = ''dev'',
      ss_device_auth_generation = ''1'', ss_stream_epoch = ''3'', ss_scan_seq = seq,
      ss_bootstrap_state = ''active'', ss_last_server_time = None, ss_last_success_at = None,
      ss_last_error_code = None, ss_metadata_json = None, ss_updated_at = 20\<rparr>"

definition sample_cursor_db :: sync_db where
  "sample_cursor_db = sample_db\<lparr>t_sync_states := [sample_state ''9'']\<rparr>"

lemma sample_cursor_db_bootstrap:
  "bootstrap_message_sync_state sample_db (sample_state ''9'') = Ok sample_cursor_db"
  by code_simp

theorem advance_is_forward_or_fenced_witness:
  "\<exists>db'. advance_message_sync_state sample_cursor_db (sample_state ''10'') =
          Ok (db', Ready (sample_state ''10''))
     \<and> load_message_sync_state db' ''owner'' = Ok (Ready (sample_state ''10''))"
proof -
  have adv: "advance_message_sync_state sample_cursor_db (sample_state ''10'') =
      Ok (sample_cursor_db\<lparr>t_sync_states := [sample_state ''10'']\<rparr>, Ready (sample_state ''10''))"
    by code_simp
  have "ss_owner_identity_id (sample_state ''10'') = ''owner''" by (simp add: sample_state_def)
  with adv advance_is_forward_or_fenced [OF adv] show ?thesis by auto
qed

section \<open>A newer run supersedes an older one\<close>

lemma begin_run_ok:
  assumes "begin_message_sync_run db owner now = Inr (db', run)"
  shows "db' = db\<lparr>t_runs := upsert_row rn_owner_identity_id run_merge run (t_runs db)\<rparr>"
    and "rn_owner_identity_id run = owner"
    and "rn_run_generation run =
           (case current_run_generation db owner of None \<Rightarrow> 0 | Some g \<Rightarrow> g) + 1"
  using assms by (auto simp: begin_message_sync_run_def Let_def result_simps split: if_split_asm)

lemma begin_run_generation:
  assumes "begin_message_sync_run db owner now = Inr (db', run)"
  shows "current_run_generation db' o' =
    (if o' = owner then Some (rn_run_generation run) else current_run_generation db o')"
proof (cases "o' = owner")
  case True
  have "select_row (\<lambda>r. rn_owner_identity_id r = rn_owner_identity_id run) (t_runs db') =
      Some (case select_row (\<lambda>r. rn_owner_identity_id r = rn_owner_identity_id run) (t_runs db) of
        None \<Rightarrow> run | Some r \<Rightarrow> run_merge r run)"
    unfolding begin_run_ok(1) [OF assms] by (simp add: run_table.lookup_upsert_same)
  with True show ?thesis
    unfolding begin_run_ok(2) [OF assms]
    by (simp add: current_run_generation_def run_merge_def split: option.split)
next
  case False
  with begin_run_ok [OF assms] show ?thesis
    by (simp add: current_run_generation_def run_table.lookup_upsert_other)
qed

text \<open>
  C24. A run begun after another one of the same identity has a strictly larger generation; from
  then on the older run can commit nothing: the generation check of its apply transaction fails
  with \<open>SYNC_RUN_SUPERSEDED\<close>, and finishing it reports that it is no longer current and leaves
  the store as it is.
\<close>

theorem newer_run_supersedes:
  assumes "distinct (map rn_owner_identity_id (t_runs db))"
    and "current_run_generation db owner = Some g"
    and "begin_message_sync_run db owner now = Ok (db', run)"
  shows "g < rn_run_generation run
    \<and> require_message_sync_run_generation db' owner (Some (rn_run_generation run)) = Ok ()
    \<and> require_message_sync_run_generation db' owner (Some g) =
        Err (sync_error ''SYNC_RUN_SUPERSEDED'' ''a newer sync run superseded this apply transaction'')
    \<and> (\<forall>old. rn_owner_identity_id old = owner \<and> rn_run_generation old = g \<and> 0 < g
           \<and> validate_required ''owner_identity_id'' owner = Ok ()
         \<longrightarrow> finish_message_sync_run db' old = Ok (db', False))"
proof -
  have gen: "rn_run_generation run = g + 1"
    using begin_run_ok(3) [OF assms(3)] assms(2) by simp
  have cur: "current_run_generation db' owner = Some (g + 1)"
    using begin_run_generation [OF assms(3), of owner] gen by simp
  have keys: "distinct (map rn_owner_identity_id (t_runs db'))"
    unfolding begin_run_ok(1) [OF assms(3)] using assms(1) by (simp add: run_table.distinct_upsert)
  have stale: "\<not> (rn_owner_identity_id r = owner \<and> rn_run_generation r = g)"
    if "r \<in> set (t_runs db')" for r
    using select_row_keyed [OF keys that] cur by (auto simp: current_run_generation_def)
  have "finish_message_sync_run db' old = Ok (db', False)"
    if "rn_owner_identity_id old = owner" "rn_run_generation old = g" "0 < g"
      "validate_required ''owner_identity_id'' owner = Ok ()" for old
  proof -
    have "update_rows (\<lambda>r. rn_owner_identity_id r = owner \<and> rn_run_generation r = g) f (t_runs db')
        = t_runs db'" for f
      by (rule update_rows_none) (use stale in blast)
    moreover have "count_rows (\<lambda>r. rn_owner_identity_id r = owner \<and> rn_run_generation r = g)
        (t_runs db') = 0"
      unfolding count_rows_def using stale by (simp add: filter_empty_conv)
    ultimately show ?thesis
      using that by (simp add: finish_message_sync_run_def)
  qed
  with gen cur show ?thesis
    by (auto simp: require_message_sync_run_generation_def)
qed

theorem newer_run_supersedes_witness:
  "\<exists>db1 run1 db2 run2.
     begin_message_sync_run sample_db ''owner'' 5 = Ok (db1, run1)
   \<and> begin_message_sync_run db1 ''owner'' 6 = Ok (db2, run2)
   \<and> rn_run_generation run1 < rn_run_generation run2
   \<and> finish_message_sync_run db2 run1 = Ok (db2, False)"
proof -
  let ?run = "\<lambda>g t. \<lparr>rn_owner_identity_id = ''owner'', rn_sync_pending = True, rn_run_generation = g,
      rn_next_retry_at = None, rn_last_result_json = None, rn_updated_at = t\<rparr>"
  let ?db1 = "sample_db\<lparr>t_runs := [?run 1 5]\<rparr>" and ?db2 = "sample_db\<lparr>t_runs := [?run 2 6]\<rparr>"
  have one: "begin_message_sync_run sample_db ''owner'' 5 = Ok (?db1, ?run 1 5)" by code_simp
  have two: "begin_message_sync_run ?db1 ''owner'' 6 = Ok (?db2, ?run 2 6)" by code_simp
  have keys: "distinct (map rn_owner_identity_id (t_runs ?db1))" by simp
  have gen: "current_run_generation ?db1 ''owner'' = Some 1" by code_simp
  have req: "validate_required ''owner_identity_id'' ''owner'' = Ok ()" by code_simp
  from newer_run_supersedes [OF keys gen two] req
  have "finish_message_sync_run ?db2 (?run 1 5) = Ok (?db2, False)" "(1::int) < 2" by simp_all
  with one two show ?thesis
    by (intro exI [of _ ?db1] exI [of _ "?run 1 5"] exI [of _ ?db2] exI [of _ "?run 2 6"]) simp
qed

section \<open>A replaced DID is drained\<close>

lemma validate_required_eq_Inr:
  "validate_required f s = Inr u \<longleftrightarrow> trim s \<noteq> [] \<and> trim s = s"
  by (auto simp: validate_required_def)

lemma validate_binding_fields:
  "validate_binding b = Inr u \<Longrightarrow>
     (trim (bd_owner_identity_id b) \<noteq> [] \<and> trim (bd_owner_identity_id b) = bd_owner_identity_id b)
   \<and> (trim (bd_current_did b) \<noteq> [] \<and> trim (bd_current_did b) = bd_current_did b)"
  by (auto simp: validate_binding_def result_simps validate_required_eq_Inr)

definition new_cutover :: "IdentityAccountBinding \<Rightarrow> string \<Rightarrow> cutover_row" where
  "new_cutover b old_did =
     \<lparr>co_owner_identity_id = bd_owner_identity_id b, co_old_did = old_did,
      co_new_did = bd_current_did b, co_cutover_at = bd_updated_at b,
      co_drain_deadline = saturating_add (bd_updated_at b) SYNC_LANE_CLOSED_RETENTION_SECONDS,
      co_status = ''draining'', co_updated_at = bd_updated_at b\<rparr>"

lemma register_new_cutover:
  assumes b: "validate_binding b = Ok ()" and old: "validate_required ''old_did'' old_did = Ok ()"
    and ne: "old_did \<noteq> bd_current_did b" and i64: "i64_range (bd_updated_at b)"
    and cur: "load_identity_account_binding db (bd_owner_identity_id b) = Some c"
      "bd_current_did c = bd_current_did b"
  shows "register_p5_did_cutover db
      \<lparr>co_owner_identity_id = bd_owner_identity_id b, co_old_did = old_did,
       co_new_did = bd_current_did b, co_cutover_at = bd_updated_at b,
       co_drain_deadline = saturating_add (bd_updated_at b) SYNC_LANE_CLOSED_RETENTION_SECONDS,
       co_status = ''draining''\<rparr>
    = Ok (db\<lparr>t_cutovers := upsert_row cutover_key cutover_merge (new_cutover b old_did)
              (t_cutovers db)\<rparr>)"
proof -
  have "bd_updated_at b \<le> saturating_add (bd_updated_at b) SYNC_LANE_CLOSED_RETENTION_SECONDS"
    using i64 by (auto simp: saturating_add_def i64_clip_def i64_range_def
        SYNC_LANE_CLOSED_RETENTION_SECONDS_def)
  moreover have "validate_required f (bd_owner_identity_id b) = Ok ()"
    "validate_required f (bd_current_did b) = Ok ()" for f
    using validate_binding_fields [OF b] by (auto simp: validate_required_eq_Inr)
  ultimately show ?thesis
    using old ne cur by (simp add: register_p5_did_cutover_def new_cutover_def)
qed

text \<open>
  Recording a binding that carries a new DID is never left half done: once the checks on the
  request pass, the binding is stored together with a cutover from the old DID to the new one
  that is due seven days after the change, and for a pair of DIDs not seen before it is draining.
\<close>

lemma did_change_opens_cutover:
  assumes wf: "bindings_wf db" and i64: "i64_range (bd_updated_at b)"
    and valid: "validate_binding b = Ok ()" "binding_checks b"
    and old: "load_identity_account_binding db (bd_owner_identity_id b) = Some old"
    and re: "check_rebinding old b = Ok ()" and ne: "bd_current_did old \<noteq> bd_current_did b"
  shows "\<exists>db' c. upsert_identity_account_binding db b = Ok db'
    \<and> load_identity_account_binding db' (bd_owner_identity_id b) = Some (binding_merge old b)
    \<and> select_row (\<lambda>c. cutover_key c = (bd_owner_identity_id b, bd_current_did old, bd_current_did b))
        (t_cutovers db') = Some c
    \<and> co_drain_deadline c = saturating_add (bd_updated_at b) (7 * 24 * 60 * 60)
    \<and> (\<not> exists_row (\<lambda>c. cutover_key c =
            (bd_owner_identity_id b, bd_current_did old, bd_current_did b)) (t_cutovers db)
         \<longrightarrow> co_status c = ''draining'')"
proof -
  let ?o = "bd_owner_identity_id b" and ?did = "bd_current_did old"
  let ?db1 = "db\<lparr>t_bindings := upsert_row bd_owner_identity_id binding_merge b (t_bindings db)\<rparr>"
  let ?db2 = "?db1\<lparr>t_cutovers := upsert_row cutover_key cutover_merge (new_cutover b ?did)
      (t_cutovers db)\<rparr>"
  have mem: "old \<in> set (t_bindings db)" "bd_owner_identity_id old = ?o"
    using load_binding_owner [OF old] by auto
  have pair: "bd_account_id old = bd_account_id b" "bd_protocol_device_id old = bd_protocol_device_id b"
    using re by (simp_all add: check_rebinding_eq_Inr)
  have "select_row (\<lambda>r. (bd_account_id r, bd_protocol_device_id r) =
        (bd_account_id old, bd_protocol_device_id old)) (t_bindings db) = Some old"
    using wf mem unfolding bindings_wf_def by (intro select_row_keyed) auto
  then have dev: "select_row (\<lambda>r. bd_account_id r = bd_account_id b
        \<and> bd_protocol_device_id r = bd_protocol_device_id b) (t_bindings db) = Some old"
    using pair by simp
  have load: "load_identity_account_binding ?db1 ?o = Some (binding_merge old b)"
    using old by (simp add: load_identity_account_binding_def binding_table.lookup_upsert_same)
  have reg: "register_p5_did_cutover ?db1
      \<lparr>co_owner_identity_id = ?o, co_old_did = ?did, co_new_did = bd_current_did b,
       co_cutover_at = bd_updated_at b,
       co_drain_deadline = saturating_add (bd_updated_at b) SYNC_LANE_CLOSED_RETENTION_SECONDS,
       co_status = ''draining''\<rparr> = Ok ?db2"
  proof -
    have "validate_required ''old_did'' ?did = Ok ()"
      using wf mem validate_binding_fields [of old]
      by (auto simp: bindings_wf_def binding_valid_def validate_required_eq_Inr)
    from register_new_cutover [OF valid(1) this ne i64 load] show ?thesis
      by (simp add: binding_merge_def)
  qed
  have up: "upsert_identity_account_binding db b = Ok ?db2"
    using valid old re ne dev mem reg by (simp add: upsert_identity_account_binding_def)
  have key: "cutover_key (new_cutover b ?did) = (?o, ?did, bd_current_did b)"
    by (simp add: cutover_key_def new_cutover_def)
  have "select_row (\<lambda>c. cutover_key c = (?o, ?did, bd_current_did b)) (t_cutovers ?db2) =
      Some (case select_row (\<lambda>c. cutover_key c = (?o, ?did, bd_current_did b)) (t_cutovers db) of
        None \<Rightarrow> new_cutover b ?did | Some c \<Rightarrow> cutover_merge c (new_cutover b ?did))"
    using cutover_table.lookup_upsert_same [of "new_cutover b ?did" "t_cutovers db"]
    unfolding key by simp
  then show ?thesis
    using up load
    by (auto simp: load_identity_account_binding_def cutover_merge_def new_cutover_def
        SYNC_LANE_CLOSED_RETENTION_SECONDS_def exists_row_iff dest: select_row_Some
        split: option.split)
qed

lemma did_change_opens_cutover_example:
  "\<exists>db' c. upsert_identity_account_binding sample_db (sample_binding ''did:b'' ''10'') = Ok db'
     \<and> select_row (\<lambda>c. cutover_key c = (''owner'', ''did:a'', ''did:b'')) (t_cutovers db') = Some c
     \<and> co_drain_deadline c = 604810 \<and> co_status c = ''draining''"
proof -
  let ?old = "sample_binding ''did:a'' ''9''" and ?b = "sample_binding ''did:b'' ''10''"
  have "bindings_wf sample_db" by code_simp
  moreover have "i64_range (bd_updated_at ?b)" by code_simp
  moreover have "validate_binding ?b = Ok ()" "binding_checks ?b" by code_simp+
  moreover have "load_identity_account_binding sample_db (bd_owner_identity_id ?b) = Some ?old"
    by code_simp
  moreover have "check_rebinding ?old ?b = Ok ()" "bd_current_did ?old \<noteq> bd_current_did ?b"
    by code_simp+
  ultimately have "\<exists>db' c. upsert_identity_account_binding sample_db ?b = Ok db'
    \<and> select_row (\<lambda>c. cutover_key c = (bd_owner_identity_id ?b, bd_current_did ?old, bd_current_did ?b))
        (t_cutovers db') = Some c
    \<and> co_drain_deadline c = saturating_add (bd_updated_at ?b) (7 * 24 * 60 * 60)
    \<and> (\<not> exists_row (\<lambda>c. cutover_key c =
            (bd_owner_identity_id ?b, bd_current_did ?old, bd_current_did ?b)) (t_cutovers sample_db)
         \<longrightarrow> co_status c = ''draining'')"
    using did_change_opens_cutover [of sample_db ?b ?old] by blast
  moreover have "saturating_add 10 (7 * 24 * 60 * 60) = 604810" by code_simp
  ultimately show ?thesis
    by (auto simp: sample_binding_def sample_db_eq empty_db_def exists_row_def)
qed

text \<open>
  C25. A cutover that was drained is not opened again when the same DID is replaced by the same
  successor a second time: the row keeps the status \<open>drained\<close> although its deadline moves.
\<close>

theorem repeated_cutover_stays_drained:
  assumes "upsert_identity_account_binding db b = Ok db'"
    and "load_identity_account_binding db (bd_owner_identity_id b) = Some old"
    and "bd_current_did old \<noteq> bd_current_did b"
    and "select_row (\<lambda>c. cutover_key c = (bd_owner_identity_id b, bd_current_did old, bd_current_did b))
           (t_cutovers db) = Some c" and "co_status c = ''drained''"
  shows "\<exists>c'. select_row (\<lambda>c. cutover_key c =
             (bd_owner_identity_id b, bd_current_did old, bd_current_did b)) (t_cutovers db') = Some c'
    \<and> co_status c' = ''drained''
    \<and> co_drain_deadline c' = saturating_add (bd_updated_at b) (7 * 24 * 60 * 60)"
proof -
  let ?n = "new_cutover b (bd_current_did old)"
  have key: "cutover_key ?n = (bd_owner_identity_id b, bd_current_did old, bd_current_did b)"
    by (simp add: cutover_key_def new_cutover_def)
  have "t_cutovers db' = upsert_row cutover_key cutover_merge ?n (t_cutovers db)"
    using assms(1-3)
    by (auto simp: upsert_identity_account_binding_def result_simps new_cutover_def
        dest!: register_cutover_ok)
  then show ?thesis
    using assms(4,5) cutover_table.lookup_upsert_same [of ?n "t_cutovers db"] unfolding key
    by (simp add: cutover_merge_def new_cutover_def SYNC_LANE_CLOSED_RETENTION_SECONDS_def)
qed

definition sample_recutover_db :: sync_db where
  "sample_recutover_db = sample_db\<lparr>t_cutovers :=
     [\<lparr>co_owner_identity_id = ''owner'', co_old_did = ''did:a'', co_new_did = ''did:b'',
       co_cutover_at = 0, co_drain_deadline = 5, co_status = ''drained'', co_updated_at = 6\<rparr>]\<rparr>"

theorem repeated_cutover_stays_drained_witness:
  "\<exists>db' c'. upsert_identity_account_binding sample_recutover_db (sample_binding ''did:b'' ''10'') = Ok db'
     \<and> select_row (\<lambda>c. cutover_key c = (''owner'', ''did:a'', ''did:b'')) (t_cutovers db') = Some c'
     \<and> co_status c' = ''drained'' \<and> co_drain_deadline c' = 604810"
proof -
  let ?old = "sample_binding ''did:a'' ''9''" and ?b = "sample_binding ''did:b'' ''10''"
  have b: "bd_owner_identity_id ?b = ''owner''" "bd_current_did ?b = ''did:b''"
    "bd_current_did ?old = ''did:a''" "bd_updated_at ?b = 10" by (simp_all add: sample_binding_def)
  have "result_ok (upsert_identity_account_binding sample_recutover_db ?b) \<noteq> None" by code_simp
  then obtain db' where up: "upsert_identity_account_binding sample_recutover_db ?b = Ok db'"
    by (cases "upsert_identity_account_binding sample_recutover_db ?b") auto
  have old: "load_identity_account_binding sample_recutover_db (bd_owner_identity_id ?b) = Some ?old"
    by code_simp
  have ne: "bd_current_did ?old \<noteq> bd_current_did ?b" by code_simp
  obtain c where c: "select_row (\<lambda>c. cutover_key c =
      (bd_owner_identity_id ?b, bd_current_did ?old, bd_current_did ?b))
      (t_cutovers sample_recutover_db) = Some c" "co_status c = ''drained''"
    by (simp add: b sample_recutover_db_def cutover_key_def)
  have "saturating_add 10 (7 * 24 * 60 * 60) = 604810" by code_simp
  with up repeated_cutover_stays_drained [OF up old ne c] show ?thesis by (auto simp: b)
qed

end
