(* ===== verification/Sync_Inbox.thy ===== *)
theory Sync_Inbox
  imports Sync_Account
begin

text \<open>
  The durable receive queue, \<open>local_state/sync_inbox.rs\<close>: receiving a page of ordinary events
  together with the cursor, claiming inputs under leases, failing, parking, renewing and
  completing a claim, and the retention and capacity limits.

  An operation that runs in a transaction returns the committed store, or an error; where the
  code leaves a transaction without committing it (\<open>claim_inputs\<close> and
  \<open>reserve_processing_slot\<close> at the limit) the store returned is the one it was given.  The
  ids drawn by \<open>generate_operation_id\<close> are an argument.  Deleting an input deletes its domain
  outcome (\<open>ON DELETE CASCADE\<close>).
\<close>

section \<open>Data\<close>

definition MAX_INBOX_RECORDS :: int where "MAX_INBOX_RECORDS = 16384"
definition RETENTION_SECONDS :: int where "RETENTION_SECONDS = 48 * 60 * 60"
definition CLAIM_SECONDS :: int where "CLAIM_SECONDS = 60"
definition MAX_ACTIVE_INPUTS :: nat where "MAX_ACTIVE_INPUTS = 8"
definition SYNC_CLEANUP_BATCH_SIZE :: nat where "SYNC_CLEANUP_BATCH_SIZE = 256"

record InboxEvent =
  ev_event_id :: string
  ev_position :: string
  ev_event_type :: string
  ev_payload :: json
  ev_processing_scope :: string
  ev_group_did :: "string option"

record OrdinaryReceiveBatch =
  rb_binding :: IdentityAccountBinding
  rb_client_instance_id :: string
  rb_expected_run_generation :: "int option"
  rb_stream_epoch :: string
  rb_expected_scan_seq :: string
  rb_next_scan_seq :: string
  rb_server_time :: string
  rb_events :: "InboxEvent list"

record RemovedInput =
  rm_input_id :: string
  rm_owner_identity_id :: string
  rm_event_id :: string

record ReceiveOutcome =
  ro_received :: nat
  ro_duplicates :: nat
  ro_removed :: "RemovedInput list"

record ProcessingSummary =
  ps_pending :: nat
  ps_active :: nat
  ps_blocked :: nat
  ps_next_retry_at :: "int option"
  ps_error_code :: "string option"

record InputClaim =
  cl_input_id :: string
  cl_owner_identity_id :: string
  cl_owner_did :: string
  cl_account_id :: string
  cl_device_id :: string
  cl_auth_generation :: string
  cl_lane :: string
  cl_lane_epoch :: string
  cl_position :: string
  cl_event_id :: string
  cl_event_type :: string
  cl_payload :: json
  cl_group_did :: "string option"
  cl_logical_event_seq :: "string option"
  cl_received_at :: string
  cl_source_created_at :: "string option"
  cl_source_expires_at :: "string option"
  cl_token :: string
  cl_attempt_count :: int

record SyncLaneInboxRecord =
  li_input_id :: string
  li_owner_identity_id :: string
  li_lane :: SyncLaneV3
  li_lane_epoch :: string
  li_position :: string
  li_event_id :: string
  li_event_type :: string
  li_raw_payload :: json
  li_group_did :: "string option"
  li_received_at :: string
  li_source_created_at :: "string option"
  li_source_expires_at :: "string option"

definition inbox_error :: "string \<Rightarrow> string \<Rightarrow> ImError" where
  "inbox_error code detail = Service None (Some code) detail None"

definition secure_input :: "InputClaim \<Rightarrow> SyncLaneInboxRecord ImResult" where
  "secure_input c =
     bind_result
       (if cl_lane c = ''p5_device'' then Ok P5Device
        else if cl_lane c = ''p6_group'' then Ok P6Group
        else Err (inbox_error ''SYNC_INPUT_TYPE_INVALID'' ''ordinary input is not a secure lane''))
       (\<lambda>lane. Ok
         \<lparr>li_input_id = cl_input_id c, li_owner_identity_id = cl_owner_identity_id c,
          li_lane = lane, li_lane_epoch = cl_lane_epoch c, li_position = cl_position c,
          li_event_id = cl_event_id c, li_event_type = cl_event_type c,
          li_raw_payload = cl_payload c, li_group_did = cl_group_did c,
          li_received_at = cl_received_at c, li_source_created_at = cl_source_created_at c,
          li_source_expires_at = cl_source_expires_at c\<rparr>)"

section \<open>The event envelope\<close>

record SyncEventV2 =
  en_event_id :: string
  en_stream_epoch :: string
  en_event_seq :: string
  en_event_type :: string
  en_schema_version :: nat
  en_ignore_safe :: bool
  en_account_id :: string
  en_recipient_device_id :: "string option"
  en_origin_did :: "string option"
  en_origin_device_id :: "string option"
  en_aggregate_kind :: string
  en_aggregate_id :: string
  en_state_version :: "string option"
  en_thread_key :: "string option"
  en_occurred_at :: string
  en_payload :: json
  en_source :: "json option"

text \<open>The deserialisers that \<open>serde\<close> derives: a missing field is an error except for an
  \<open>Option\<close>, for which it and \<open>null\<close> are \<open>None\<close>; a struct may also be the array of its
  fields in order.\<close>

definition de_string :: "json option \<Rightarrow> string option" where
  "de_string v = Option.bind v as_str"

fun de_opt_string :: "json option \<Rightarrow> string option option" where
  "de_opt_string None = Some None"
| "de_opt_string (Some JNull) = Some None"
| "de_opt_string (Some (JString s)) = Some (Some s)"
| "de_opt_string (Some _) = None"

definition de_u32 :: "json option \<Rightarrow> nat option" where
  "de_u32 v = filter_option (\<lambda>n. int n < 2 ^ 32) (Option.bind v as_u64)"

definition de_bool :: "json option \<Rightarrow> bool option" where
  "de_bool v = Option.bind v as_bool"

definition de_opt_value :: "json option \<Rightarrow> json option" where
  "de_opt_value v = filter_option (\<lambda>w. w \<noteq> JNull) v"

definition sync_event_fields :: "string list" where
  "sync_event_fields =
     [''event_id'', ''stream_epoch'', ''event_seq'', ''event_type'', ''schema_version'',
      ''ignore_safe'', ''account_id'', ''recipient_device_id'', ''origin_did'',
      ''origin_device_id'', ''aggregate_kind'', ''aggregate_id'', ''state_version'',
      ''thread_key'', ''occurred_at'', ''payload'', ''source'']"

definition field_index :: "string \<Rightarrow> nat" where
  "field_index k = length (takeWhile (\<lambda>f. f \<noteq> k) sync_event_fields)"

definition decode_fields :: "(string \<Rightarrow> json option) \<Rightarrow> SyncEventV2 option" where
  "decode_fields get =
     Option.bind (de_string (get ''event_id'')) (\<lambda>event_id.
     Option.bind (de_string (get ''stream_epoch'')) (\<lambda>stream_epoch.
     Option.bind (de_string (get ''event_seq'')) (\<lambda>event_seq.
     Option.bind (de_string (get ''event_type'')) (\<lambda>event_type.
     Option.bind (de_u32 (get ''schema_version'')) (\<lambda>schema_version.
     Option.bind (de_bool (get ''ignore_safe'')) (\<lambda>ignore_safe.
     Option.bind (de_string (get ''account_id'')) (\<lambda>account_id.
     Option.bind (de_opt_string (get ''recipient_device_id'')) (\<lambda>recipient_device_id.
     Option.bind (de_opt_string (get ''origin_did'')) (\<lambda>origin_did.
     Option.bind (de_opt_string (get ''origin_device_id'')) (\<lambda>origin_device_id.
     Option.bind (de_string (get ''aggregate_kind'')) (\<lambda>aggregate_kind.
     Option.bind (de_string (get ''aggregate_id'')) (\<lambda>aggregate_id.
     Option.bind (de_opt_string (get ''state_version'')) (\<lambda>state_version.
     Option.bind (de_opt_string (get ''thread_key'')) (\<lambda>thread_key.
     Option.bind (de_string (get ''occurred_at'')) (\<lambda>occurred_at.
     Option.bind (get ''payload'') (\<lambda>payload.
       Some \<lparr>en_event_id = event_id, en_stream_epoch = stream_epoch, en_event_seq = event_seq,
             en_event_type = event_type, en_schema_version = schema_version,
             en_ignore_safe = ignore_safe, en_account_id = account_id,
             en_recipient_device_id = recipient_device_id, en_origin_did = origin_did,
             en_origin_device_id = origin_device_id, en_aggregate_kind = aggregate_kind,
             en_aggregate_id = aggregate_id, en_state_version = state_version,
             en_thread_key = thread_key, en_occurred_at = occurred_at, en_payload = payload,
             en_source = de_opt_value (get ''source'')\<rparr>))))))))))))))))"

fun decode_sync_event :: "json \<Rightarrow> SyncEventV2 option" where
  "decode_sync_event (JObject ms) = decode_fields (map_of ms)"
| "decode_sync_event (JArray vs) =
     (if length vs = length sync_event_fields
      then decode_fields (\<lambda>k. Some (vs ! field_index k)) else None)"
| "decode_sync_event _ = None"

section \<open>Rows of the inbox\<close>

text \<open>The constraints of \<open>sync_lane_inbox\<close>: those on the row, then the unique columns and the
  reference to the binding.\<close>

definition inbox_checks :: "externs \<Rightarrow> inbox_row \<Rightarrow> bool" where
  "inbox_checks x r \<longleftrightarrow>
     0 \<le> ib_attempt_count r
   \<and> (ib_attempt_token r = None) = (ib_attempt_deadline r = None)
   \<and> ib_lane r \<in> {''ordinary'', ''baseline'', ''p5_device'', ''p6_group''}
   \<and> sql_nonblank (ib_event_type r)
   \<and> x_json_object x (ib_raw_payload_json r)
   \<and> 0 < ib_payload_bytes r
   \<and> ib_payload_bytes r \<le> (if ib_lane r = ''baseline'' then 67108864 else 16777216)
   \<and> sql_nonblank (ib_input_id r) \<and> sql_nonblank (ib_event_id r)
   \<and> sql_nonblank (ib_received_at r)
   \<and> sql_positive_decimal (ib_lane_epoch r) \<and> sql_positive_decimal (ib_position r)
   \<and> (ib_lane r \<in> {''ordinary'', ''baseline''}
      \<or> ib_lane r = ''p5_device'' \<and> ib_event_type r = ''p5.delivery.created'' \<and> ib_group_did r = None
      \<or> ib_lane r = ''p6_group'' \<and> ib_event_type r \<in> {''p6.delivery.created'', ''p6.control.notice''}
         \<and> opt_any sql_nonblank (ib_group_did r))"

definition inbox_unique :: "inbox_row list \<Rightarrow> inbox_row \<Rightarrow> bool" where
  "inbox_unique rows r \<longleftrightarrow>
     \<not> exists_row (\<lambda>q. ib_input_id q = ib_input_id r
        \<or> ib_owner_identity_id q = ib_owner_identity_id r \<and> ib_lane q = ib_lane r
          \<and> ib_lane_epoch q = ib_lane_epoch r
          \<and> (ib_event_id q = ib_event_id r \<or> ib_position q = ib_position r)) rows"

definition inbox_insert :: "externs \<Rightarrow> inbox_row \<Rightarrow> sync_db \<Rightarrow> sync_db ImResult" where
  "inbox_insert x r db =
     (if inbox_checks x r \<and> inbox_unique (t_inbox db) r
         \<and> exists_row (\<lambda>b. bd_owner_identity_id b = ib_owner_identity_id r) (t_bindings db)
      then Ok (db\<lparr>t_inbox := t_inbox db @ [r]\<rparr>)
      else Err constraint_failed)"

text \<open>\<open>DELETE FROM sync_lane_inbox\<close>, with the outcomes that reference the deleted rows.\<close>

definition inbox_delete :: "(inbox_row \<Rightarrow> bool) \<Rightarrow> sync_db \<Rightarrow> sync_db" where
  "inbox_delete P db =
     (let gone = map ib_input_id (filter P (t_inbox db)) in
      db\<lparr>t_inbox := delete_rows P (t_inbox db),
         t_p5_outcomes := delete_rows (\<lambda>o'. oc_input_id o' \<in> set gone) (t_p5_outcomes db),
         t_p6_outcomes := delete_rows (\<lambda>o'. oc_input_id o' \<in> set gone) (t_p6_outcomes db)\<rparr>)"

section \<open>Retention and capacity\<close>

definition removed_input :: "inbox_row \<Rightarrow> RemovedInput" where
  "removed_input r = \<lparr>rm_input_id = ib_input_id r, rm_owner_identity_id = ib_owner_identity_id r,
     rm_event_id = ib_event_id r\<rparr>"

definition oldest_inputs :: "sync_db \<Rightarrow> int option \<Rightarrow> nat \<Rightarrow> inbox_row list" where
  "oldest_inputs db cutoff limit =
     order_limit (\<lambda>r. (ib_created_at r, ib_input_id r)) limit
       (filter (\<lambda>r. opt_all (\<lambda>c. ib_created_at r \<le> c) cutoff) (t_inbox db))"

definition delete_removed :: "RemovedInput \<Rightarrow> sync_db \<Rightarrow> sync_db" where
  "delete_removed item = inbox_delete (\<lambda>r. ib_input_id r = rm_input_id item
     \<and> ib_owner_identity_id r = rm_owner_identity_id item)"

definition delete_oldest :: "sync_db \<Rightarrow> int option \<Rightarrow> nat \<Rightarrow> sync_db \<times> RemovedInput list" where
  "delete_oldest db cutoff limit =
     (let removed = map removed_input (oldest_inputs db cutoff limit)
      in (fold delete_removed removed db, removed))"

definition purge_expired ::
  "sync_db \<Rightarrow> int \<Rightarrow> nat \<Rightarrow> (sync_db \<times> RemovedInput list) ImResult" where
  "purge_expired db now limit =
     (if limit = 0 \<or> limit > 4096 then
        Err (invalid_input (Some ''limit'') ''inbox cleanup limit must be between 1 and 4096'')
      else Ok (delete_oldest db (Some (saturating_sub now RETENTION_SECONDS)) limit))"

definition make_room_with_limit ::
  "sync_db \<Rightarrow> nat \<Rightarrow> int \<Rightarrow> int \<Rightarrow> (sync_db \<times> RemovedInput list) ImResult" where
  "make_room_with_limit db additional now max_records =
     (let too_large = inbox_error ''SYNC_INBOX_BATCH_TOO_LARGE'' ''receive batch exceeds inbox capacity''
      in if int additional > i64_max then Err too_large
         else if int additional > max_records \<or> max_records \<le> 0 then Err too_large
         else
           let (db1, removed) = delete_oldest db (Some (saturating_sub now RETENTION_SECONDS))
                 SYNC_CLEANUP_BATCH_SIZE;
               excess = max 0 (saturating_sub
                 (saturating_add (int (length (t_inbox db1))) (int additional)) max_records)
           in if additional > 0 \<and> excess > 0 then
                let (db2, evicted) = delete_oldest db1 None (nat excess)
                in Ok (db2, removed @ evicted)
              else Ok (db1, removed))"

definition make_room :: "sync_db \<Rightarrow> nat \<Rightarrow> int \<Rightarrow> (sync_db \<times> RemovedInput list) ImResult" where
  "make_room db additional now = make_room_with_limit db additional now MAX_INBOX_RECORDS"

section \<open>Receiving\<close>

definition hex_byte :: "nat \<Rightarrow> string" where
  "hex_byte b = [hex_digit (b div 16), hex_digit (b mod 16)]"

definition or_null :: "json option \<Rightarrow> json" where
  "or_null v = (case v of None \<Rightarrow> JNull | Some w \<Rightarrow> w)"

definition payload_hash :: "externs \<Rightarrow> string \<Rightarrow> json \<Rightarrow> string ImResult" where
  "payload_hash x lane payload =
     (let immutable =
        (if lane = ''ordinary'' \<and> json_get ''event'' payload \<noteq> None
         then JArray [or_null (json_get ''event'' payload), or_null (json_get ''hydrated'' payload)]
         else payload)
      in bind_result
           (ok_or (inbox_error ''SYNC_INPUT_INVALID'' ''receive payload cannot be canonicalized'')
             (x_canonicalize x immutable))
           (\<lambda>bytes. Ok (concat (map hex_byte (x_sha256 x bytes)))))"

definition parse_lane :: "string \<Rightarrow> SyncLaneV3 option" where
  "parse_lane s = (if s = ''p5_device'' then Some P5Device
     else if s = ''p6_group'' then Some P6Group else None)"

text \<open>The digest stored with the receipt of a completed event, if it has one.\<close>

definition stored_payload_hash :: "sync_db \<Rightarrow> string \<Rightarrow> string \<Rightarrow> string \<Rightarrow> string \<Rightarrow> string option" where
  "stored_payload_hash db owner lane epoch event_id =
     (if lane \<in> {''ordinary'', ''baseline''} then
        Option.bind (select_row (\<lambda>a. ae_owner_identity_id a = owner \<and> ae_event_id a = event_id
            \<and> ae_stream_epoch a = epoch) (t_applied db)) ae_payload_hash
      else
        Option.bind (select_row (\<lambda>a. la_owner_identity_id a = owner
            \<and> lane_as_str (la_lane a) = lane \<and> la_event_id a = event_id
            \<and> la_stream_epoch a = epoch) (t_lane_applied db)) la_payload_hash)"

definition input_conflict :: "string \<Rightarrow> ImError" where
  "input_conflict detail = inbox_error ''SYNC_INPUT_CONFLICT'' detail"

definition input_is_duplicate ::
  "externs \<Rightarrow> sync_db \<Rightarrow> string \<Rightarrow> string \<Rightarrow> string \<Rightarrow> InboxEvent \<Rightarrow> bool ImResult" where
  "input_is_duplicate x db owner lane epoch ev =
     (case select_row (\<lambda>r. ib_owner_identity_id r = owner \<and> ib_lane r = lane
          \<and> ib_lane_epoch r = epoch \<and> ib_event_id r = ev_event_id ev) (t_inbox db) of
        Some r \<Rightarrow>
          bind_result (ok_or (input_conflict ''stored receive payload is invalid'')
              (x_json_from_str x (ib_raw_payload_json r))) (\<lambda>payload.
            if ib_position r \<noteq> ev_position ev \<or> ib_event_type r \<noteq> ev_event_type ev then
              Err (input_conflict ''event identity conflicts with an existing receive payload'')
            else
              bind_result (payload_hash x lane payload) (\<lambda>stored.
              bind_result (payload_hash x lane (ev_payload ev)) (\<lambda>received.
                if stored \<noteq> received then
                  Err (input_conflict ''event identity conflicts with an existing receive payload'')
                else Ok True)))
      | None \<Rightarrow>
          if exists_row (\<lambda>r. ib_owner_identity_id r = owner \<and> ib_lane r = lane
               \<and> ib_lane_epoch r = epoch \<and> ib_position r = ev_position ev) (t_inbox db) then
            Err (input_conflict ''receive position belongs to another event'')
          else
            (case stored_payload_hash db owner lane epoch (ev_event_id ev) of
               None \<Rightarrow> Ok False
             | Some hash \<Rightarrow>
                 bind_result (payload_hash x lane (ev_payload ev)) (\<lambda>received.
                   if hash = received then Ok True
                   else Err (input_conflict
                     ''completed event was redelivered with a different payload''))))"

definition input_identity :: "externs \<Rightarrow> string \<Rightarrow> string \<Rightarrow> string \<Rightarrow> string \<Rightarrow> string option" where
  "input_identity x owner lane epoch event_id =
     x_json_to_string x (JArray [JString owner, JString lane, JString epoch, JString event_id])"

definition insert_input ::
  "externs \<Rightarrow> IdentityAccountBinding \<Rightarrow> string \<Rightarrow> string \<Rightarrow> string \<Rightarrow> int \<Rightarrow> InboxEvent
     \<Rightarrow> sync_db \<Rightarrow> sync_db ImResult" where
  "insert_input x binding installation lane epoch now ev db =
     bind_result (ok_or (inbox_error ''SYNC_INPUT_INVALID'' ''receive payload cannot be encoded'')
         (x_json_to_string x (ev_payload ev))) (\<lambda>payload.
     bind_result (ok_or (inbox_error ''SYNC_INPUT_INVALID'' ''receive identity cannot be encoded'')
         (input_identity x (bd_owner_identity_id binding) lane epoch (ev_event_id ev))) (\<lambda>input_id.
     bind_result (ok_or (inbox_error ''SYNC_INPUT_INVALID'' ''receive time is invalid'')
         (x_rfc3339 x now)) (\<lambda>received_at.
       inbox_insert x
         \<lparr>ib_input_id = input_id, ib_owner_identity_id = bd_owner_identity_id binding,
          ib_lane = lane, ib_lane_epoch = epoch, ib_position = ev_position ev,
          ib_event_id = ev_event_id ev, ib_event_type = ev_event_type ev,
          ib_raw_payload_json = payload, ib_payload_bytes = utf8_len payload,
          ib_account_id_snapshot = bd_account_id binding,
          ib_device_id_snapshot = bd_protocol_device_id binding,
          ib_auth_generation_snapshot = bd_device_auth_generation binding,
          ib_client_instance_id_snapshot = installation, ib_group_did = ev_group_did ev,
          ib_logical_event_seq = None, ib_received_at = received_at,
          ib_source_created_at = None, ib_source_expires_at = None, ib_closed_at = None,
          ib_created_at = now, ib_processing_scope = ev_processing_scope ev,
          ib_attempt_count = 0, ib_attempt_token = None, ib_attempt_deadline = None,
          ib_last_attempt_at = None, ib_next_attempt_at = Some 0,
          ib_processing_error_code = None\<rparr> db)))"

definition require_binding :: "sync_db \<Rightarrow> IdentityAccountBinding \<Rightarrow> unit ImResult" where
  "require_binding db binding =
     require (inbox_error ''SYNC_ACCOUNT_BINDING_MISMATCH''
         ''processing or receive binding is no longer current'')
       (opt_any (\<lambda>current. bd_account_id current = bd_account_id binding
           \<and> bd_protocol_device_id current = bd_protocol_device_id binding
           \<and> bd_current_did current = bd_current_did binding
           \<and> bd_device_auth_generation current = bd_device_auth_generation binding)
         (load_identity_account_binding db (bd_owner_identity_id binding)))"

definition installed_client :: "sync_db \<Rightarrow> string \<Rightarrow> string option" where
  "installed_client db owner =
     map_option is_client_instance_id
       (select_row (\<lambda>i. is_owner_identity_id i = owner) (t_installations db))"

text \<open>The checks of one event of a page, and the loop over the page: the identities and positions
  already seen, the events to insert and the number of duplicates.\<close>

definition check_event :: "OrdinaryReceiveBatch \<Rightarrow> InboxEvent \<Rightarrow> unit ImResult" where
  "check_event input ev =
     bind_result (validate_positive_decimal ''event_seq'' (ev_position ev)) (\<lambda>_.
     bind_result (compare_decimal (ev_position ev) (rb_next_scan_seq input)) (\<lambda>ord.
       if ord = Greater then
         Err (inbox_error ''SYNC_INVALID_PAGE'' ''received event is ahead of the page cursor'')
       else
         bind_result (ok_or (inbox_error ''SYNC_INPUT_INCOMPLETE'' ''ordinary receive envelope is missing'')
             (json_get ''event'' (ev_payload ev))) (\<lambda>raw.
         bind_result (ok_or (inbox_error ''SYNC_INPUT_INCOMPLETE'' ''ordinary receive envelope is incomplete'')
             (decode_sync_event raw)) (\<lambda>envelope.
           if en_event_id envelope \<noteq> ev_event_id ev
              \<or> en_event_seq envelope \<noteq> ev_position ev
              \<or> en_event_type envelope \<noteq> ev_event_type ev
              \<or> en_stream_epoch envelope \<noteq> rb_stream_epoch input
              \<or> en_account_id envelope \<noteq> bd_account_id (rb_binding input)
              \<or> opt_any (\<lambda>device. device \<noteq> bd_protocol_device_id (rb_binding input))
                  (en_recipient_device_id envelope)
              \<or> ev_event_type ev \<in> {''message.created'', ''system.notification''}
                 \<and> \<not> opt_any is_object (json_get ''hydrated'' (ev_payload ev)) then
             Err (inbox_error ''SYNC_INPUT_INCOMPLETE''
               ''ordinary receive data does not match its exact envelope'')
           else Ok ()))))"

definition scan_event ::
  "externs \<Rightarrow> sync_db \<Rightarrow> OrdinaryReceiveBatch \<Rightarrow> InboxEvent
     \<Rightarrow> string list \<times> string list \<times> InboxEvent list \<times> nat
     \<Rightarrow> (string list \<times> string list \<times> InboxEvent list \<times> nat) ImResult" where
  "scan_event x db input ev = (\<lambda>(event_ids, positions, pending, duplicates).
     if trim (ev_event_id ev) = [] \<or> trim (ev_event_id ev) \<noteq> ev_event_id ev
        \<or> trim (ev_event_type ev) = [] \<or> \<not> is_object (ev_payload ev)
        \<or> ev_event_id ev \<in> set event_ids \<or> ev_position ev \<in> set positions then
       Err (inbox_error ''SYNC_INVALID_PAGE'' ''receive events have invalid or duplicate identities'')
     else
       bind_result (check_event input ev) (\<lambda>_.
       bind_result (input_is_duplicate x db (bd_owner_identity_id (rb_binding input)) ''ordinary''
           (rb_stream_epoch input) ev) (\<lambda>duplicate.
         Ok (ev_event_id ev # event_ids, ev_position ev # positions,
             if duplicate then pending else pending @ [ev],
             if duplicate then Suc duplicates else duplicates))))"

definition received_state :: "OrdinaryReceiveBatch \<Rightarrow> int \<Rightarrow> MessageSyncState \<Rightarrow> MessageSyncState" where
  "received_state input now current = current
     \<lparr>ss_scan_seq := rb_next_scan_seq input,
      ss_last_server_time := Some (rb_server_time input),
      ss_last_success_at := Some now,
      ss_last_error_code := None,
      ss_updated_at := now\<rparr>"

text \<open>The part of \<open>receive_ordinary\<close> that stores the page.\<close>

definition store_page ::
  "externs \<Rightarrow> sync_db \<Rightarrow> OrdinaryReceiveBatch \<Rightarrow> int \<Rightarrow> MessageSyncState
     \<Rightarrow> (sync_db \<times> ReceiveOutcome) ImResult" where
  "store_page x db input now current =
     bind_result (fold_result (scan_event x db input) (rb_events input) ([], [], [], 0))
       (\<lambda>(_, _, pending, duplicates).
     bind_result (make_room db (length pending) now) (\<lambda>(db1, removed).
     bind_result (fold_result (insert_input x (rb_binding input) (rb_client_instance_id input)
         ''ordinary'' (rb_stream_epoch input) now) pending db1) (\<lambda>db2.
     bind_result (advance_message_sync_state db2 (received_state input now current))
       (\<lambda>(db3, access).
         case access of
           Ready _ \<Rightarrow>
             Ok (db3, \<lparr>ro_received = length pending, ro_duplicates = duplicates,
                       ro_removed = removed\<rparr>)
         | BootstrapRequired _ \<Rightarrow>
             Err (inbox_error ''SYNC_RECEIVE_SUPERSEDED'' ''receive binding changed before commit'')))))"

definition receive_ordinary ::
  "externs \<Rightarrow> sync_db \<Rightarrow> OrdinaryReceiveBatch \<Rightarrow> int \<Rightarrow> (sync_db \<times> ReceiveOutcome) ImResult" where
  "receive_ordinary x db input now =
     bind_result (require_binding db (rb_binding input)) (\<lambda>_.
     bind_result (require_message_sync_run_generation db (bd_owner_identity_id (rb_binding input))
         (rb_expected_run_generation input)) (\<lambda>_.
       if installed_client db (bd_owner_identity_id (rb_binding input))
          \<noteq> Some (rb_client_instance_id input) then
         Err (inbox_error ''SYNC_INSTALLATION_CHANGED'' ''receive installation is no longer current'')
       else
         bind_result (load_message_sync_state db (bd_owner_identity_id (rb_binding input))) (\<lambda>access.
           case access of
             BootstrapRequired _ \<Rightarrow>
               Err (inbox_error ''SYNC_BOOTSTRAP_REQUIRED'' ''receive requires a bootstrapped cursor'')
           | Ready current \<Rightarrow>
               if ss_stream_epoch current \<noteq> rb_stream_epoch input
                  \<or> ss_scan_seq current \<noteq> rb_expected_scan_seq input then
                 Err (inbox_error ''SYNC_RECEIVE_SUPERSEDED'' ''receive cursor changed before commit'')
               else
                 bind_result (compare_decimal (rb_next_scan_seq input) (ss_scan_seq current)) (\<lambda>ord.
                   if ord = Less then
                     Err (inbox_error ''SYNC_CURSOR_REGRESSION'' ''receive cursor cannot move backwards'')
                   else store_page x db input now current))))"

section \<open>Leases\<close>

definition drop_expired_leases :: "int \<Rightarrow> sync_db \<Rightarrow> sync_db" where
  "drop_expired_leases now db =
     db\<lparr>t_leases := delete_rows (\<lambda>l. le_deadline l \<le> now) (t_leases db)\<rparr>"

definition insert_lease :: "string \<Rightarrow> int \<Rightarrow> sync_db \<Rightarrow> sync_db ImResult" where
  "insert_lease token deadline db =
     (if exists_row (\<lambda>l. le_attempt_token l = token) (t_leases db) then Err constraint_failed
      else Ok (db\<lparr>t_leases := t_leases db @ [\<lparr>le_attempt_token = token, le_deadline = deadline\<rparr>]\<rparr>))"

definition release_processing_slot :: "string \<Rightarrow> sync_db \<Rightarrow> sync_db" where
  "release_processing_slot token db =
     db\<lparr>t_leases := delete_rows (\<lambda>l. le_attempt_token l = token) (t_leases db)\<rparr>"

definition release_claim_lease :: "InputClaim \<Rightarrow> sync_db \<Rightarrow> sync_db" where
  "release_claim_lease claim = release_processing_slot (cl_token claim)"

definition reserve_processing_slot ::
  "string \<Rightarrow> sync_db \<Rightarrow> int \<Rightarrow> (sync_db \<times> string option) ImResult" where
  "reserve_processing_slot token db now =
     (let db1 = drop_expired_leases now db in
      if length (t_leases db1) \<ge> MAX_ACTIVE_INPUTS then Ok (db, None)
      else bind_result (insert_lease token (saturating_add now CLAIM_SECONDS) db1) (\<lambda>db2.
             Ok (db2, Some token)))"

definition renew_lease :: "int \<Rightarrow> string \<Rightarrow> sync_db \<Rightarrow> sync_db" where
  "renew_lease now token db =
     db\<lparr>t_leases := update_rows (\<lambda>l. le_attempt_token l = token)
         (\<lambda>l. l\<lparr>le_deadline := saturating_add now CLAIM_SECONDS\<rparr>) (t_leases db)\<rparr>"

definition renew_processing_slots :: "sync_db \<Rightarrow> string list \<Rightarrow> int \<Rightarrow> sync_db" where
  "renew_processing_slots db tokens now = fold (renew_lease now) tokens db"

text \<open>The row of a claim: \<open>input_id = ?1 AND owner_identity_id = ?2 AND attempt_token = ?3\<close>.\<close>

definition claim_row :: "InputClaim \<Rightarrow> inbox_row \<Rightarrow> bool" where
  "claim_row claim r \<longleftrightarrow> ib_input_id r = cl_input_id claim
     \<and> ib_owner_identity_id r = cl_owner_identity_id claim
     \<and> ib_attempt_token r = Some (cl_token claim)"

definition renew_claim :: "int \<Rightarrow> InputClaim \<Rightarrow> sync_db \<Rightarrow> sync_db" where
  "renew_claim now claim db =
     (let db1 = renew_lease now (cl_token claim) db in
      db1\<lparr>t_inbox := update_rows (claim_row claim)
         (\<lambda>r. r\<lparr>ib_attempt_deadline := Some (saturating_add now CLAIM_SECONDS)\<rparr>) (t_inbox db1)\<rparr>)"

definition renew_claims :: "sync_db \<Rightarrow> InputClaim list \<Rightarrow> int \<Rightarrow> sync_db" where
  "renew_claims db claims now = fold (renew_claim now) claims db"

section \<open>Claiming\<close>

text \<open>The join that finds an own group delivery blocked by an older client whose sent message is
  known by now.\<close>

definition extract_is :: "externs \<Rightarrow> string \<Rightarrow> string list \<Rightarrow> string \<Rightarrow> bool" where
  "extract_is x raw path s \<longleftrightarrow> x_json_extract x raw path = SqlText s"

definition sent_message_id :: "externs \<Rightarrow> string \<Rightarrow> string option" where
  "sent_message_id x raw =
     (let g = x_json_extract x raw [''body'', ''group_did''];
          q = x_json_extract x raw [''body'', ''group_event_seq'']
      in if g = SqlNull \<or> q = SqlNull then None
         else Some (x_as_text x g @ '':'' @ x_as_text x q))"

definition sent_projection :: "externs \<Rightarrow> IdentityAccountBinding \<Rightarrow> inbox_row \<Rightarrow> message_row \<Rightarrow> bool" where
  "sent_projection x binding i m \<longleftrightarrow>
     ms_owner_identity_id m = ib_owner_identity_id i
   \<and> sent_message_id x (ib_raw_payload_json i) = Some (ms_msg_id m)
   \<and> ib_group_did i \<noteq> None \<and> ib_group_did i = ms_group_did m
   \<and> ms_sender_did m = Some (bd_current_did binding) \<and> ms_owner_did m = bd_current_did binding
   \<and> ms_direction m = 1
   \<and> x_json_extract x (ib_raw_payload_json i) [''body'', ''group_event_seq''] \<noteq> SqlNull
   \<and> ms_server_seq m =
       Some (x_cast_integer x (x_json_extract x (ib_raw_payload_json i) [''body'', ''group_event_seq'']))
   \<and> ms_is_e2ee m = Some 1
   \<and> opt_any (\<lambda>meta. extract_is x meta [''security''] ''group-e2ee''
        \<and> extract_is x meta [''delivery_state''] ''accepted'') (ms_metadata m)"

definition blocked_own_echo :: "externs \<Rightarrow> IdentityAccountBinding \<Rightarrow> inbox_row \<Rightarrow> bool" where
  "blocked_own_echo x binding i \<longleftrightarrow>
     ib_owner_identity_id i = bd_owner_identity_id binding
   \<and> ib_device_id_snapshot i = bd_protocol_device_id binding
   \<and> ib_lane i = ''p6_group'' \<and> ib_event_type i = ''p6.delivery.created''
   \<and> ib_processing_error_code i = Some ''sync.processing_blocked''
   \<and> ib_closed_at i = None \<and> ib_attempt_token i = None \<and> ib_next_attempt_at i = None
   \<and> extract_is x (ib_raw_payload_json i) [''meta'', ''sender_did''] (bd_current_did binding)
   \<and> extract_is x (ib_raw_payload_json i) [''meta'', ''sender_device_id''] (bd_protocol_device_id binding)
   \<and> extract_is x (ib_raw_payload_json i) [''meta'', ''target'', ''did''] (bd_current_did binding)
   \<and> extract_is x (ib_raw_payload_json i) [''meta'', ''recipient_device_id''] (bd_protocol_device_id binding)"

definition reclaim_own_echoes ::
  "externs \<Rightarrow> IdentityAccountBinding \<Rightarrow> int \<Rightarrow> sync_db \<Rightarrow> sync_db" where
  "reclaim_own_echoes x binding now db =
     (let ids = x_some_of x 64 (concat (map (\<lambda>i. map (\<lambda>m. ib_input_id i)
            (filter (sent_projection x binding i) (t_messages db)))
            (filter (blocked_own_echo x binding) (t_inbox db))))
      in db\<lparr>t_inbox := update_rows (\<lambda>i. ib_input_id i \<in> set ids)
            (\<lambda>i. i\<lparr>ib_next_attempt_at := Some now,
                   ib_processing_error_code := Some ''sync.group_sent_projection_pending''\<rparr>)
            (t_inbox db)\<rparr>)"

definition has_lease :: "sync_db \<Rightarrow> inbox_row \<Rightarrow> bool" where
  "has_lease db i \<longleftrightarrow>
     exists_row (\<lambda>l. ib_attempt_token i = Some (le_attempt_token l)) (t_leases db)"

definition baseline_open :: "string \<Rightarrow> int \<Rightarrow> inbox_row \<Rightarrow> bool" where
  "baseline_open owner cutoff b \<longleftrightarrow> ib_owner_identity_id b = owner \<and> ib_lane b = ''baseline''
     \<and> ib_closed_at b = None \<and> ib_created_at b > cutoff"

text \<open>The conditions on a candidate; \<open>before\<close> is the list of the rows with a smaller rowid.\<close>

definition is_due ::
  "sync_db \<Rightarrow> IdentityAccountBinding \<Rightarrow> int \<Rightarrow> inbox_row list \<Rightarrow> inbox_row \<Rightarrow> bool" where
  "is_due db binding now before i \<longleftrightarrow>
     (let cutoff = saturating_sub now RETENTION_SECONDS in
        ib_owner_identity_id i = bd_owner_identity_id binding
      \<and> ib_account_id_snapshot i = bd_account_id binding
      \<and> ib_device_id_snapshot i = bd_protocol_device_id binding
      \<and> ib_closed_at i = None \<and> ib_created_at i > cutoff
      \<and> (opt_any (\<lambda>t. t \<le> now) (ib_next_attempt_at i)
         \<or> ib_processing_error_code i = Some ''sync.processing_timeout''
            \<and> ib_attempt_token i \<noteq> None \<and> \<not> has_lease db i)
      \<and> (ib_attempt_token i = None \<or> opt_any (\<lambda>t. t \<le> now) (ib_attempt_deadline i)
         \<or> \<not> has_lease db i)
      \<and> (ib_lane i \<notin> {''ordinary'', ''baseline''}
         \<or> \<not> exists_row (baseline_open (ib_owner_identity_id i) cutoff)
              (if ib_lane i = ''ordinary'' then t_inbox db else before)))"

fun due_rows ::
  "sync_db \<Rightarrow> IdentityAccountBinding \<Rightarrow> int \<Rightarrow> inbox_row list \<Rightarrow> inbox_row list \<Rightarrow> inbox_row list" where
  "due_rows db binding now before [] = []"
| "due_rows db binding now before (i # rest) =
     (if is_due db binding now before i then [i] else [])
     @ due_rows db binding now (before @ [i]) rest"

definition attempt_order :: "inbox_row \<Rightarrow> int \<times> int \<times> int \<times> string" where
  "attempt_order i = (ib_attempt_count i,
     (case ib_last_attempt_at i of None \<Rightarrow> 0 | Some t \<Rightarrow> t), ib_created_at i, ib_input_id i)"

text \<open>\<open>ROW_NUMBER()\<close> over a partition, the order of the window being total on its rows.\<close>

definition scope_rank :: "inbox_row list \<Rightarrow> inbox_row \<Rightarrow> nat" where
  "scope_rank due i = Suc (count_rows (\<lambda>j. ib_lane j = ib_lane i
     \<and> ib_processing_scope j = ib_processing_scope i \<and> attempt_order j < attempt_order i) due)"

definition lane_rank :: "inbox_row list \<Rightarrow> inbox_row \<Rightarrow> nat" where
  "lane_rank due i = Suc (count_rows (\<lambda>j. ib_lane j = ib_lane i
     \<and> (scope_rank due j, attempt_order j) < (scope_rank due i, attempt_order i)) due)"

definition claim_candidates ::
  "sync_db \<Rightarrow> IdentityAccountBinding \<Rightarrow> int \<Rightarrow> nat \<Rightarrow> inbox_row list" where
  "claim_candidates db binding now limit =
     (let due = due_rows db binding now [] (t_inbox db)
      in order_limit (\<lambda>i. (lane_rank due i, ib_lane i)) limit due)"

definition claim_update :: "string \<Rightarrow> int \<Rightarrow> inbox_row \<Rightarrow> inbox_row" where
  "claim_update token now r = r
     \<lparr>ib_attempt_token := Some token,
      ib_attempt_deadline := Some (saturating_add now CLAIM_SECONDS),
      ib_attempt_count := ib_attempt_count r + 1,
      ib_last_attempt_at := Some now,
      ib_next_attempt_at := or_else (ib_next_attempt_at r) (Some now),
      ib_processing_error_code := None\<rparr>"

definition input_claim :: "IdentityAccountBinding \<Rightarrow> string \<Rightarrow> json \<Rightarrow> inbox_row \<Rightarrow> InputClaim" where
  "input_claim binding token payload i =
     \<lparr>cl_input_id = ib_input_id i, cl_owner_identity_id = bd_owner_identity_id binding,
      cl_owner_did = bd_current_did binding, cl_account_id = bd_account_id binding,
      cl_device_id = bd_protocol_device_id binding,
      cl_auth_generation = bd_device_auth_generation binding,
      cl_lane = ib_lane i, cl_lane_epoch = ib_lane_epoch i, cl_position = ib_position i,
      cl_event_id = ib_event_id i, cl_event_type = ib_event_type i, cl_payload = payload,
      cl_group_did = ib_group_did i, cl_logical_event_seq = ib_logical_event_seq i,
      cl_received_at = ib_received_at i, cl_source_created_at = ib_source_created_at i,
      cl_source_expires_at = ib_source_expires_at i, cl_token = token,
      cl_attempt_count = saturating_add (ib_attempt_count i) 1\<rparr>"

fun claim_each ::
  "externs \<Rightarrow> (nat \<Rightarrow> string) \<Rightarrow> IdentityAccountBinding \<Rightarrow> int \<Rightarrow> nat \<Rightarrow> inbox_row list
     \<Rightarrow> sync_db \<Rightarrow> (sync_db \<times> InputClaim list) ImResult" where
  "claim_each x token binding now n [] db = Ok (db, [])"
| "claim_each x token binding now n (i # rest) db =
     bind_result (ok_or (inbox_error ''SYNC_INPUT_INVALID'' ''stored receive payload is invalid'')
         (x_json_from_str x (ib_raw_payload_json i))) (\<lambda>payload.
     bind_result (insert_lease (token n) (saturating_add now CLAIM_SECONDS) db) (\<lambda>db1.
     bind_result (claim_each x token binding now (Suc n) rest
         (db1\<lparr>t_inbox := update_rows (\<lambda>r. ib_input_id r = ib_input_id i)
                (claim_update (token n) now) (t_inbox db1)\<rparr>)) (\<lambda>(db2, claims).
       Ok (db2, input_claim binding (token n) payload i # claims))))"

definition claim_inputs ::
  "externs \<Rightarrow> (nat \<Rightarrow> string) \<Rightarrow> sync_db \<Rightarrow> IdentityAccountBinding \<Rightarrow> int \<Rightarrow> nat
     \<Rightarrow> (sync_db \<times> InputClaim list) ImResult" where
  "claim_inputs x token db binding now limit =
     (if limit = 0 \<or> limit > 64 then
        Err (invalid_input (Some ''limit'') ''claim limit must be between 1 and 64'')
      else
        bind_result (require_binding db binding) (\<lambda>_.
          let db1 = drop_expired_leases now (reclaim_own_echoes x binding now db);
              leased = count_rows (\<lambda>l. le_deadline l > now) (t_leases db1);
              free = min limit (MAX_ACTIVE_INPUTS - leased)
          in if free = 0 then Ok (db, [])
             else claim_each x token binding now 0 (claim_candidates db1 binding now free) db1))"

definition claim_is_live :: "sync_db \<Rightarrow> InputClaim \<Rightarrow> int \<Rightarrow> bool" where
  "claim_is_live db claim now \<longleftrightarrow>
     exists_row (\<lambda>i. claim_row claim i
       \<and> opt_any (\<lambda>t. t > now) (ib_attempt_deadline i)
       \<and> ib_processing_error_code i \<noteq> Some ''sync.processing_timeout''
       \<and> exists_row (\<lambda>l. ib_attempt_token i = Some (le_attempt_token l) \<and> le_deadline l > now)
           (t_leases db)
       \<and> exists_row (\<lambda>b. bd_owner_identity_id b = ib_owner_identity_id i
           \<and> bd_account_id b = cl_account_id claim \<and> bd_protocol_device_id b = cl_device_id claim
           \<and> bd_device_auth_generation b = cl_auth_generation claim
           \<and> bd_current_did b = cl_owner_did claim) (t_bindings db)) (t_inbox db)"

definition require_claim :: "sync_db \<Rightarrow> InputClaim \<Rightarrow> int \<Rightarrow> unit ImResult" where
  "require_claim db claim now =
     require (inbox_error ''SYNC_INPUT_SUPERSEDED''
         ''receive input was removed or its processing attempt is stale'')
       (claim_is_live db claim now)"

section \<open>Ending an attempt\<close>

definition fail_claim ::
  "sync_db \<Rightarrow> InputClaim \<Rightarrow> string \<Rightarrow> int option \<Rightarrow> int \<Rightarrow> sync_db ImResult" where
  "fail_claim db claim code retry_at now =
     bind_result (require_claim db claim now) (\<lambda>_.
       Ok (release_claim_lease claim
         (db\<lparr>t_inbox := update_rows (\<lambda>r. ib_input_id r = cl_input_id claim)
            (\<lambda>r. r\<lparr>ib_attempt_token := None, ib_attempt_deadline := None, ib_closed_at := None,
                   ib_next_attempt_at := retry_at, ib_processing_error_code := Some code\<rparr>)
            (t_inbox db)\<rparr>)))"

definition park_timeout :: "sync_db \<Rightarrow> InputClaim \<Rightarrow> int \<Rightarrow> sync_db \<times> bool" where
  "park_timeout db claim now =
     (db\<lparr>t_inbox := update_rows (claim_row claim)
          (\<lambda>r. r\<lparr>ib_next_attempt_at := None,
                 ib_processing_error_code := Some ''sync.processing_timeout'',
                 ib_attempt_deadline := Some (saturating_add now CLAIM_SECONDS),
                 ib_closed_at := None\<rparr>) (t_inbox db)\<rparr>,
      count_rows (claim_row claim) (t_inbox db) = 1)"

definition release_timeout :: "sync_db \<Rightarrow> InputClaim \<Rightarrow> int \<Rightarrow> sync_db \<times> bool" where
  "release_timeout db claim retry_at =
     (let P = (\<lambda>r. claim_row claim r
                 \<and> ib_processing_error_code r = Some ''sync.processing_timeout'')
      in (db\<lparr>t_inbox := update_rows P
               (\<lambda>r. r\<lparr>ib_attempt_token := None, ib_attempt_deadline := None,
                      ib_next_attempt_at := Some retry_at\<rparr>) (t_inbox db)\<rparr>,
          count_rows P (t_inbox db) = 1))"

definition min_option :: "'a::linorder list \<Rightarrow> 'a option" where
  "min_option xs = (case xs of [] \<Rightarrow> None | x # ys \<Rightarrow> Some (fold min ys x))"

definition processing_summary :: "sync_db \<Rightarrow> string \<Rightarrow> int \<Rightarrow> ProcessingSummary" where
  "processing_summary db owner now =
     (let rows = filter (\<lambda>r. ib_owner_identity_id r = owner \<and> ib_closed_at r = None) (t_inbox db)
      in \<lparr>ps_pending = length rows,
          ps_active = count_rows (\<lambda>r. ib_attempt_token r \<noteq> None) rows,
          ps_blocked = count_rows (\<lambda>r. ib_next_attempt_at r = None \<and> ib_attempt_token r = None) rows,
          ps_next_retry_at = min_option (filter (\<lambda>t. t > now) (List.map_filter ib_next_attempt_at rows)),
          ps_error_code = min_option (List.map_filter ib_processing_error_code
            (filter (\<lambda>r. ib_next_attempt_at r = None) rows))\<rparr>)"

text \<open>The upsert of a receipt of a secure lane in \<open>complete_claim\<close>: the row has to pass the
  \<open>CHECK\<close>s; an existing receipt of the event gets the digest, a new one has to satisfy the
  unique constraints and the reference of the table.\<close>

definition lane_applied_key :: "lane_applied_row \<Rightarrow> string \<times> SyncLaneV3 \<times> string" where
  "lane_applied_key a = (la_owner_identity_id a, la_lane a, la_event_id a)"

definition lane_applied_merge :: "lane_applied_row \<Rightarrow> lane_applied_row \<Rightarrow> lane_applied_row" where
  "lane_applied_merge old new = old\<lparr>la_payload_hash := la_payload_hash new\<rparr>"

definition lane_applied_checks :: "lane_applied_row \<Rightarrow> bool" where
  "lane_applied_checks a \<longleftrightarrow>
     sql_nonblank (la_event_id a)
   \<and> sql_positive_decimal (la_stream_epoch a) \<and> sql_positive_decimal (la_event_seq a)
   \<and> (la_group_did a = None \<and> la_group_event_seq a = None
      \<or> la_lane a = P6Group \<and> opt_any sql_nonblank (la_group_did a)
         \<and> opt_all sql_positive_decimal (la_group_event_seq a))"

definition lane_applied_ok :: "sync_db \<Rightarrow> lane_applied_row \<Rightarrow> bool" where
  "lane_applied_ok db a \<longleftrightarrow>
     \<not> exists_row (\<lambda>q. la_owner_identity_id q = la_owner_identity_id a \<and> la_lane q = la_lane a
        \<and> la_stream_epoch q = la_stream_epoch a \<and> la_event_seq q = la_event_seq a) (t_lane_applied db)
   \<and> \<not> (la_lane a = P6Group \<and> la_group_event_seq a \<noteq> None
        \<and> exists_row (\<lambda>q. la_owner_identity_id q = la_owner_identity_id a \<and> la_lane q = P6Group
             \<and> la_group_did q = la_group_did a \<and> la_group_did a \<noteq> None
             \<and> la_group_event_seq q = la_group_event_seq a) (t_lane_applied db))
   \<and> exists_row (\<lambda>b. bd_owner_identity_id b = la_owner_identity_id a) (t_bindings db)"

definition upsert_lane_receipt :: "lane_applied_row \<Rightarrow> sync_db \<Rightarrow> sync_db ImResult" where
  "upsert_lane_receipt a db =
     (if lane_applied_checks a
         \<and> (exists_row (\<lambda>q. lane_applied_key q = lane_applied_key a) (t_lane_applied db)
            \<or> lane_applied_ok db a)
      then Ok (db\<lparr>t_lane_applied :=
             upsert_row lane_applied_key lane_applied_merge a (t_lane_applied db)\<rparr>)
      else Err constraint_failed)"

definition group_sequence :: "InputClaim \<Rightarrow> string option" where
  "group_sequence claim =
     or_else (Option.bind (json_pointer [''body'', ''group_event_seq''] (cl_payload claim))
         (\<lambda>v. or_else (as_str v) (map_option show_nat (as_u64 v))))
       (cl_logical_event_seq claim)"

definition record_completion ::
  "InputClaim \<Rightarrow> string \<Rightarrow> int \<Rightarrow> sync_db \<Rightarrow> sync_db ImResult" where
  "record_completion claim hash now db =
     (if cl_lane claim \<in> {''ordinary'', ''baseline''} then
        Ok (db\<lparr>t_applied := update_rows
              (\<lambda>a. ae_owner_identity_id a = cl_owner_identity_id claim \<and> ae_event_id a = cl_event_id claim)
              (\<lambda>a. a\<lparr>ae_payload_hash := Some hash\<rparr>) (t_applied db)\<rparr>)
      else
        (case parse_lane (cl_lane claim) of
           None \<Rightarrow> Err constraint_failed
         | Some lane \<Rightarrow>
             upsert_lane_receipt
               \<lparr>la_owner_identity_id = cl_owner_identity_id claim, la_lane = lane,
                la_event_id = cl_event_id claim, la_stream_epoch = cl_lane_epoch claim,
                la_event_seq = cl_position claim, la_group_did = cl_group_did claim,
                la_group_event_seq = group_sequence claim, la_applied_at = now,
                la_payload_hash = Some hash\<rparr> db))"

text \<open>Completing a secure input makes the inputs of its scope that waited for it due.\<close>

definition wakeable :: "InputClaim \<Rightarrow> sync_db \<Rightarrow> inbox_row \<Rightarrow> bool" where
  "wakeable claim db r \<longleftrightarrow>
     ib_owner_identity_id r = cl_owner_identity_id claim \<and> ib_input_id r \<noteq> cl_input_id claim
   \<and> ib_closed_at r = None \<and> ib_attempt_token r = None
   \<and> Some (ib_processing_scope r) = map_option ib_processing_scope
        (select_row (\<lambda>q. ib_input_id q = cl_input_id claim) (t_inbox db))
   \<and> opt_any (\<lambda>c. c \<in> {''p5.session_pending'', ''anp.direct.e2ee.max_skip_exceeded'',
        ''group.e2ee.epoch_conflict'', ''group.e2ee.state_not_ready''}) (ib_processing_error_code r)"

definition wake_scope :: "InputClaim \<Rightarrow> int \<Rightarrow> sync_db \<Rightarrow> sync_db" where
  "wake_scope claim now db =
     (if cl_lane claim \<in> {''p5_device'', ''p6_group''}
      then db\<lparr>t_inbox := update_rows (wakeable claim db)
             (\<lambda>r. r\<lparr>ib_next_attempt_at := Some now\<rparr>) (t_inbox db)\<rparr>
      else db)"

definition complete_claim :: "externs \<Rightarrow> sync_db \<Rightarrow> InputClaim \<Rightarrow> int \<Rightarrow> sync_db ImResult" where
  "complete_claim x db claim now =
     bind_result (require_claim db claim now) (\<lambda>_.
     bind_result (payload_hash x (cl_lane claim) (cl_payload claim)) (\<lambda>hash.
     bind_result (record_completion claim hash now db) (\<lambda>db1.
       Ok (inbox_delete (claim_row claim) (wake_scope claim now db1)))))"

definition claim_was_completed :: "externs \<Rightarrow> sync_db \<Rightarrow> InputClaim \<Rightarrow> bool ImResult" where
  "claim_was_completed x db claim =
     bind_result (payload_hash x (cl_lane claim) (cl_payload claim)) (\<lambda>hash.
       Ok (stored_payload_hash db (cl_owner_identity_id claim) (cl_lane claim) (cl_lane_epoch claim)
             (cl_event_id claim) = Some hash))"

definition retry_event ::
  "sync_db \<Rightarrow> string \<Rightarrow> string \<Rightarrow> int \<Rightarrow> (sync_db \<times> nat) ImResult" where
  "retry_event db owner event_id now =
     (if event_id = [] \<or> trim event_id \<noteq> event_id then
        Err (invalid_input (Some ''event_id'')
          ''processing event id must be a non-empty canonical string'')
      else
        let P = (\<lambda>r. ib_owner_identity_id r = owner \<and> ib_event_id r = event_id
              \<and> ib_closed_at r = None \<and> ib_attempt_token r = None
              \<and> ib_created_at r > saturating_sub now RETENTION_SECONDS)
        in Ok (db\<lparr>t_inbox := update_rows P
                 (\<lambda>r. r\<lparr>ib_next_attempt_at := Some now, ib_processing_error_code := None\<rparr>)
                 (t_inbox db)\<rparr>,
               nat (min (int (count_rows P (t_inbox db))) (2 ^ 32 - 1))))"

datatype MessageProcessingStatus = ProcApplied | Retrying | Blocked | Discarded | ResyncRequired

record MessageProcessingUpdate =
  pu_event_id :: string
  pu_status :: MessageProcessingStatus
  pu_changed_conversation_ids :: "string list"
  pu_committed_incoming_messages :: "json list"
  pu_error_code :: "string option"

definition pending_updates ::
  "sync_db \<Rightarrow> string \<Rightarrow> nat \<Rightarrow> int \<Rightarrow> MessageProcessingUpdate list ImResult" where
  "pending_updates db owner limit now =
     (if limit = 0 \<or> limit > 256 then
        Err (invalid_input (Some ''limit'') ''pending processing limit must be between 1 and 256'')
      else
        Ok (map (\<lambda>r. \<lparr>pu_event_id = ib_event_id r,
              pu_status = (if ib_next_attempt_at r = None then Blocked else Retrying),
              pu_changed_conversation_ids = [], pu_committed_incoming_messages = [],
              pu_error_code = ib_processing_error_code r\<rparr>)
            (order_limit (\<lambda>r. (ib_next_attempt_at r \<noteq> None, ib_created_at r, ib_input_id r)) limit
              (filter (\<lambda>r. ib_owner_identity_id r = owner \<and> ib_closed_at r = None
                  \<and> ib_created_at r > saturating_sub now RETENTION_SECONDS) (t_inbox db)))))"

interpretation lane_applied_table: keyed_upsert lane_applied_key lane_applied_merge
  by unfold_locales (simp add: lane_applied_merge_def lane_applied_key_def)

section \<open>Concrete values for the witnesses\<close>

definition sample_payload :: json where
  "sample_payload = JObject
     [(''event'', JObject
        [(''account_id'', JString ''acct''), (''aggregate_id'', JString ''m1''),
         (''aggregate_kind'', JString ''message''), (''event_id'', JString ''e1''),
         (''event_seq'', JString ''10''), (''event_type'', JString ''message.created''),
         (''ignore_safe'', JBool False), (''occurred_at'', JString ''t''),
         (''payload'', JNull), (''schema_version'', JNumber (PosInt 1)),
         (''stream_epoch'', JString ''3'')]),
      (''hydrated'', JObject [])]"

definition sample_x :: externs where
  "sample_x =
     \<lparr>x_json_to_string = (\<lambda>v. case v of
          JArray [JString a, JString b, JString c, JString d] \<Rightarrow> Some (a @ ''/'' @ b @ ''/'' @ c @ ''/'' @ d)
        | _ \<Rightarrow> Some ''{}''),
      x_json_error = (\<lambda>v. []),
      x_json_from_str = (\<lambda>s. if s = ''{}'' then Some sample_payload else None),
      x_parse_error = (\<lambda>s. []),
      x_canonicalize = (\<lambda>v. if v = JNull then None else Some ''{}''),
      x_sha256 = (\<lambda>s. [171, 5]),
      x_rfc3339 = (\<lambda>t. if t < 0 then None else Some ''1970-01-01T00:16:40+00:00''),
      x_json_object = (\<lambda>s. s = ''{}''),
      x_json_valid = (\<lambda>s. s = ''{}''),
      x_json_extract = (\<lambda>s path. SqlNull),
      x_as_text = (\<lambda>v. case v of SqlText s \<Rightarrow> s | _ \<Rightarrow> ''''),
      x_cast_integer = (\<lambda>v. case v of SqlInt i \<Rightarrow> i | _ \<Rightarrow> 0),
      x_some_of = take\<rparr>"

definition sample_event :: InboxEvent where
  "sample_event = \<lparr>ev_event_id = ''e1'', ev_position = ''10'', ev_event_type = ''message.created'',
     ev_payload = sample_payload, ev_processing_scope = ''peer'', ev_group_did = None\<rparr>"

definition sample_batch :: OrdinaryReceiveBatch where
  "sample_batch = \<lparr>rb_binding = sample_binding ''did:a'' ''9'', rb_client_instance_id = ''core'',
     rb_expected_run_generation = None, rb_stream_epoch = ''3'', rb_expected_scan_seq = ''9'',
     rb_next_scan_seq = ''12'', rb_server_time = ''t'', rb_events = [sample_event]\<rparr>"

definition sample_ready_db :: sync_db where
  "sample_ready_db = sample_cursor_db\<lparr>t_installations :=
     [\<lparr>is_owner_identity_id = ''owner'', is_client_instance_id = ''core'', is_created_at = 0\<rparr>]\<rparr>"

definition sample_row :: inbox_row where
  "sample_row =
     \<lparr>ib_input_id = ''owner/ordinary/3/e1'', ib_owner_identity_id = ''owner'', ib_lane = ''ordinary'',
      ib_lane_epoch = ''3'', ib_position = ''10'', ib_event_id = ''e1'',
      ib_event_type = ''message.created'', ib_raw_payload_json = ''{}'', ib_payload_bytes = 2,
      ib_account_id_snapshot = ''acct'', ib_device_id_snapshot = ''dev'',
      ib_auth_generation_snapshot = ''1'', ib_client_instance_id_snapshot = ''core'',
      ib_group_did = None, ib_logical_event_seq = None,
      ib_received_at = ''1970-01-01T00:16:40+00:00'', ib_source_created_at = None,
      ib_source_expires_at = None, ib_closed_at = None, ib_created_at = 1000,
      ib_processing_scope = ''peer'', ib_attempt_count = 0, ib_attempt_token = None,
      ib_attempt_deadline = None, ib_last_attempt_at = None, ib_next_attempt_at = Some 0,
      ib_processing_error_code = None\<rparr>"

definition sample_received_db :: sync_db where
  "sample_received_db = sample_ready_db
     \<lparr>t_sync_states := [(sample_state ''12'')\<lparr>ss_last_server_time := Some ''t'',
         ss_last_success_at := Some 1000, ss_updated_at := 1000\<rparr>],
      t_inbox := [sample_row]\<rparr>"

lemma sample_receive:
  "receive_ordinary sample_x sample_ready_db sample_batch 1000 =
     Ok (sample_received_db, \<lparr>ro_received = 1, ro_duplicates = 0, ro_removed = []\<rparr>)"
  by code_simp

end
