(* ===== verification/Sync_Lanes.thy ===== *)
theory Sync_Lanes
  imports Sync_Inbox
begin

text \<open>
  The secure lanes of the sync store (\<open>local_state/sync_v2.rs\<close>): the cursors of the two lanes
  and the negotiation of the capabilities that enable them, the handoff of a received lane event
  into the inbox, the domain outcome of an input, the receipts of applied lane events, and the
  blockers of the group lane with their migration into the inbox.  The clock
  (\<open>unix_time_i64\<close>) is read once per operation and is an argument.
\<close>

section \<open>Cursors of the lanes\<close>

definition validate_lane_sync_state :: "LaneSyncState \<Rightarrow> unit ImResult" where
  "validate_lane_sync_state s =
     bind_result (validate_required ''owner_identity_id'' (ls_owner_identity_id s)) (\<lambda>_.
     bind_result (validate_positive_decimal ''stream_epoch'' (ls_stream_epoch s)) (\<lambda>_.
     bind_result (validate_decimal ''scan_seq'' (ls_scan_seq s)) (\<lambda>_.
     bind_result (validate_decimal ''committed_seq'' (ls_committed_seq s)) (\<lambda>_.
     bind_result (compare_decimal (ls_committed_seq s) (ls_scan_seq s)) (\<lambda>ord.
       require (sync_error ''SYNC_INVALID_PAGE'' ''lane committed watermark cannot exceed its scan cursor'')
         (ord \<noteq> Greater))))))"

definition parse_lane_name :: "string \<Rightarrow> SyncLaneV3 ImResult" where
  "parse_lane_name value =
     (if value = ''p5_device'' then Ok P5Device
      else if value = ''p6_group'' then Ok P6Group
      else Err (sync_error ''SYNC_LOCAL_STATE_CORRUPT'' ''stored lane name is invalid''))"

definition lane_state_key :: "LaneSyncState \<Rightarrow> string \<times> SyncLaneV3" where
  "lane_state_key s = (ls_owner_identity_id s, ls_lane s)"

definition lane_state_merge :: "LaneSyncState \<Rightarrow> LaneSyncState \<Rightarrow> LaneSyncState" where
  "lane_state_merge old new = old\<lparr>ls_stream_epoch := ls_stream_epoch new,
     ls_scan_seq := ls_scan_seq new, ls_committed_seq := ls_committed_seq new\<rparr>"

definition lane_state_checks :: "LaneSyncState \<Rightarrow> bool" where
  "lane_state_checks s \<longleftrightarrow> sql_positive_decimal (ls_stream_epoch s)
     \<and> sql_decimal (ls_scan_seq s) \<and> sql_decimal (ls_committed_seq s)"

definition has_binding :: "sync_db \<Rightarrow> string \<Rightarrow> bool" where
  "has_binding db owner \<longleftrightarrow> exists_row (\<lambda>b. bd_owner_identity_id b = owner) (t_bindings db)"

definition upsert_lane_state :: "LaneSyncState \<Rightarrow> sync_db \<Rightarrow> sync_db ImResult" where
  "upsert_lane_state s db =
     (if lane_state_checks s \<and> has_binding db (ls_owner_identity_id s)
      then Ok (db\<lparr>t_lane_states := upsert_row lane_state_key lane_state_merge s (t_lane_states db)\<rparr>)
      else Err constraint_failed)"

definition capability_merge_generation :: "capability_row \<Rightarrow> capability_row \<Rightarrow> capability_row" where
  "capability_merge_generation old new = old\<lparr>cp_negotiated_device_auth_generation :=
     cp_negotiated_device_auth_generation new\<rparr>"

definition capability_merge :: "capability_row \<Rightarrow> capability_row \<Rightarrow> capability_row" where
  "capability_merge old new = old
     \<lparr>cp_negotiated_device_auth_generation := cp_negotiated_device_auth_generation new,
      cp_client_instance_id := cp_client_instance_id new,
      cp_negotiated_capabilities_json := cp_negotiated_capabilities_json new\<rparr>"

definition upsert_capability ::
  "(capability_row \<Rightarrow> capability_row \<Rightarrow> capability_row) \<Rightarrow> capability_row \<Rightarrow> sync_db \<Rightarrow> sync_db ImResult"
  where
  "upsert_capability merge c db =
     (if sql_positive_decimal (cp_negotiated_device_auth_generation c)
         \<and> has_binding db (cp_owner_identity_id c)
      then Ok (db\<lparr>t_capabilities := upsert_row cp_owner_identity_id merge c (t_capabilities db)\<rparr>)
      else Err constraint_failed)"

text \<open>The check of the given states, with the set of the lanes seen so far.\<close>

definition check_lane_state :: "string \<Rightarrow> LaneSyncState \<Rightarrow> SyncLaneV3 set \<Rightarrow> SyncLaneV3 set ImResult" where
  "check_lane_state owner s lanes =
     bind_result (validate_lane_sync_state s) (\<lambda>_.
       if ls_owner_identity_id s \<noteq> owner then
         Err (binding_conflict ''lane sync state belongs to another owner'')
       else if ls_lane s \<in> lanes then
         Err (sync_error ''SYNC_INVALID_PAGE'' ''lane bootstrap contains a duplicate lane'')
       else Ok (insert (ls_lane s) lanes))"

definition replace_lane_sync_states ::
  "sync_db \<Rightarrow> string \<Rightarrow> LaneSyncState list \<Rightarrow> sync_db ImResult" where
  "replace_lane_sync_states db owner states =
     bind_result (validate_required ''owner_identity_id'' owner) (\<lambda>_.
     bind_result (ok_or (binding_conflict ''lane sync state requires an active account binding'')
         (load_identity_account_binding db owner)) (\<lambda>binding.
     bind_result (fold_result (check_lane_state owner) states {}) (\<lambda>_.
     bind_result (fold_result upsert_lane_state states db) (\<lambda>db1.
       upsert_capability capability_merge_generation
         \<lparr>cp_owner_identity_id = owner,
          cp_negotiated_device_auth_generation = bd_device_auth_generation binding,
          cp_client_instance_id = None, cp_negotiated_capabilities_json = None\<rparr> db1))))"

section \<open>Negotiated capabilities\<close>

definition capability_invalid :: "string \<Rightarrow> ImError" where
  "capability_invalid message = invalid_input (Some ''negotiated_capabilities_json'') message"

definition check_capability :: "json \<Rightarrow> string set \<Rightarrow> string set ImResult" where
  "check_capability v seen =
     (case as_str v of
        None \<Rightarrow> Err (capability_invalid ''negotiated capabilities must contain strings'')
      | Some capability \<Rightarrow>
          if capability \<notin> {''lanes.p5_device.v1'', ''lanes.p6_group.v1''} \<or> capability \<in> seen
          then Err (capability_invalid ''negotiated capabilities contain an unknown or duplicate lane'')
          else Ok (insert capability seen))"

definition record_sync_lane_capability_negotiation_v1a ::
  "externs \<Rightarrow> sync_db \<Rightarrow> string \<Rightarrow> string \<Rightarrow> string \<Rightarrow> string \<Rightarrow> sync_db ImResult" where
  "record_sync_lane_capability_negotiation_v1a x db owner generation client capabilities_json =
     bind_result (validate_required ''owner_identity_id'' owner) (\<lambda>_.
     bind_result (validate_positive_decimal ''device_auth_generation'' generation) (\<lambda>_.
     bind_result (validate_required ''client_instance_id'' client) (\<lambda>_.
     bind_result (ok_or (capability_invalid ''negotiated capabilities must be valid JSON'')
         (x_json_from_str x capabilities_json)) (\<lambda>value.
     bind_result (ok_or (capability_invalid ''negotiated capabilities must be an array'')
         (as_array value)) (\<lambda>capabilities.
     bind_result (fold_result check_capability capabilities {}) (\<lambda>_.
       upsert_capability capability_merge
         \<lparr>cp_owner_identity_id = owner, cp_negotiated_device_auth_generation = generation,
          cp_client_instance_id = Some client,
          cp_negotiated_capabilities_json = Some capabilities_json\<rparr> db))))))"

definition reconcile_sync_lane_capability_v1a ::
  "externs \<Rightarrow> sync_db \<Rightarrow> string \<Rightarrow> LaneSyncState list \<Rightarrow> string \<Rightarrow> string \<Rightarrow> string \<Rightarrow> sync_db ImResult" where
  "reconcile_sync_lane_capability_v1a x db owner states generation client capabilities_json =
     bind_result (replace_lane_sync_states db owner states) (\<lambda>db1.
       record_sync_lane_capability_negotiation_v1a x db1 owner generation client capabilities_json)"

definition negotiation_invalid :: "string \<Rightarrow> ImError" where
  "negotiation_invalid message = sync_error ''SYNC_NEGOTIATION_STATE_INVALID'' message"

definition parse_capability :: "json \<Rightarrow> SyncLaneV3 set \<Rightarrow> SyncLaneV3 set ImResult" where
  "parse_capability v lanes =
     bind_result (ok_or (negotiation_invalid ''stored negotiated lane capability is not a string'')
         (as_str v)) (\<lambda>capability.
     bind_result
       (if capability = ''lanes.p5_device.v1'' then Ok P5Device
        else if capability = ''lanes.p6_group.v1'' then Ok P6Group
        else Err (negotiation_invalid ''stored negotiated lane capability is unknown'')) (\<lambda>lane.
       if lane \<in> lanes then Err (negotiation_invalid ''stored negotiated lane capability is duplicated'')
       else Ok (insert lane lanes)))"

definition load_negotiated_lanes_v1a ::
  "externs \<Rightarrow> sync_db \<Rightarrow> IdentityAccountBinding \<Rightarrow> SyncLaneV3 set option ImResult" where
  "load_negotiated_lanes_v1a x db binding =
     (case select_row (\<lambda>c. cp_owner_identity_id c = bd_owner_identity_id binding) (t_capabilities db) of
        None \<Rightarrow> Ok None
      | Some c \<Rightarrow>
          (case (cp_client_instance_id c, cp_negotiated_capabilities_json c) of
             (None, None) \<Rightarrow> Ok None
           | (Some client, Some capabilities_json) \<Rightarrow>
               if cp_negotiated_device_auth_generation c \<noteq> bd_device_auth_generation binding
                  \<or> installed_client db (bd_owner_identity_id binding) \<noteq> Some client
               then Ok (Some {})
               else
                 bind_result (ok_or
                     (negotiation_invalid ''stored negotiated lane capabilities are invalid JSON'')
                     (x_json_from_str x capabilities_json)) (\<lambda>value.
                 bind_result (ok_or
                     (negotiation_invalid ''stored negotiated lane capabilities are not an array'')
                     (as_array value)) (\<lambda>values.
                 map_ok Some (fold_result parse_capability values {})))
           | _ \<Rightarrow> Err (negotiation_invalid ''stored negotiated lane capability state is incomplete'')))"

definition lane_capability_negotiation_required_with_lanes ::
  "externs \<Rightarrow> sync_db \<Rightarrow> string \<Rightarrow> string \<Rightarrow> SyncLaneV3 set option \<Rightarrow> bool ImResult" where
  "lane_capability_negotiation_required_with_lanes x db owner generation desired_lanes =
     bind_result (validate_required ''owner_identity_id'' owner) (\<lambda>_.
     bind_result (validate_positive_decimal ''device_auth_generation'' generation) (\<lambda>_.
     bind_result (ok_or (binding_conflict ''lane capability negotiation requires an active account binding'')
         (load_identity_account_binding db owner)) (\<lambda>binding.
       if bd_device_auth_generation binding \<noteq> generation then
         Err (binding_conflict
           ''lane capability negotiation uses a stale device authorization generation'')
       else
         let negotiated = map_option cp_negotiated_device_auth_generation
               (select_row (\<lambda>c. cp_owner_identity_id c = owner
                  \<and> exists_row (\<lambda>i. is_owner_identity_id i = owner
                      \<and> cp_client_instance_id c = Some (is_client_instance_id i))
                      (t_installations db)) (t_capabilities db))
         in bind_result (case desired_lanes of
                None \<Rightarrow> Ok False
              | Some desired \<Rightarrow> map_ok (\<lambda>l. l \<noteq> Some desired) (load_negotiated_lanes_v1a x db binding))
              (\<lambda>changed. Ok (negotiated \<noteq> Some generation \<or> changed)))))"

definition lane_capability_negotiation_required ::
  "externs \<Rightarrow> sync_db \<Rightarrow> string \<Rightarrow> string \<Rightarrow> bool ImResult" where
  "lane_capability_negotiation_required x db owner generation =
     lane_capability_negotiation_required_with_lanes x db owner generation None"

section \<open>Reading and moving the cursors\<close>

text \<open>The checked rows of a query, in the order the query returns them.\<close>

definition check_each :: "('r \<Rightarrow> unit ImResult) \<Rightarrow> 'r list \<Rightarrow> 'r list ImResult" where
  "check_each check rows = bind_result (fold_result (\<lambda>r _. check r) rows ()) (\<lambda>_. Ok rows)"

definition lane_rank_of :: "LaneSyncState \<Rightarrow> nat" where
  "lane_rank_of s = (case ls_lane s of P5Device \<Rightarrow> 1 | P6Group \<Rightarrow> 2)"

definition load_all_lane_sync_states :: "sync_db \<Rightarrow> string \<Rightarrow> LaneSyncState list ImResult" where
  "load_all_lane_sync_states db owner =
     bind_result (validate_required ''owner_identity_id'' owner) (\<lambda>_.
     bind_result (ok_or (binding_conflict ''lane sync state requires an active account binding'')
         (load_identity_account_binding db owner)) (\<lambda>_.
       check_each validate_lane_sync_state
         (sort_key lane_rank_of (filter (\<lambda>s. ls_owner_identity_id s = owner) (t_lane_states db)))))"

definition load_lane_sync_states :: "externs \<Rightarrow> sync_db \<Rightarrow> string \<Rightarrow> LaneSyncState list ImResult" where
  "load_lane_sync_states x db owner =
     bind_result (validate_required ''owner_identity_id'' owner) (\<lambda>_.
     bind_result (ok_or (binding_conflict ''lane sync state requires an active account binding'')
         (load_identity_account_binding db owner)) (\<lambda>binding.
     bind_result (load_negotiated_lanes_v1a x db binding) (\<lambda>negotiated.
     bind_result (load_all_lane_sync_states db owner) (\<lambda>states.
       Ok (case negotiated of None \<Rightarrow> states
           | Some lanes \<Rightarrow> filter (\<lambda>s. ls_lane s \<in> lanes) states)))))"

definition lane_cursor_row :: "LaneSyncState \<Rightarrow> LaneSyncState \<Rightarrow> bool" where
  "lane_cursor_row next s \<longleftrightarrow> ls_owner_identity_id s = ls_owner_identity_id next
     \<and> ls_lane s = ls_lane next \<and> ls_stream_epoch s = ls_stream_epoch next"

definition move_lane_cursor :: "LaneSyncState \<Rightarrow> LaneSyncState \<Rightarrow> LaneSyncState" where
  "move_lane_cursor next s = s\<lparr>ls_scan_seq := ls_scan_seq next, ls_committed_seq := ls_committed_seq next\<rparr>"

definition advance_lane_from :: "LaneSyncState \<Rightarrow> LaneSyncState \<Rightarrow> sync_db \<Rightarrow> sync_db ImResult" where
  "advance_lane_from next current db =
     (if ls_stream_epoch current \<noteq> ls_stream_epoch next then
        Err (sync_error ''SYNC_LANE_EPOCH_MISMATCH''
          ''lane stream epoch does not match the bootstrapped cursor'')
      else
        bind_result (compare_decimal (ls_scan_seq next) (ls_scan_seq current)) (\<lambda>scan.
        bind_result (if scan = Less then Ok scan
            else compare_decimal (ls_committed_seq next) (ls_committed_seq current)) (\<lambda>committed.
          if scan = Less \<or> committed = Less then
            Err (sync_error ''SYNC_CURSOR_REGRESSION''
              ''lane cursor and committed watermark cannot move backwards'')
          else if count_rows (lane_cursor_row next) (t_lane_states db) \<noteq> 1 then
            Err (binding_conflict ''lane sync cursor changed while it was being advanced'')
          else Ok (db\<lparr>t_lane_states := update_rows (lane_cursor_row next) (move_lane_cursor next)
                 (t_lane_states db)\<rparr>))))"

definition advance_lane_sync_state_in_transaction :: "LaneSyncState \<Rightarrow> sync_db \<Rightarrow> sync_db ImResult" where
  "advance_lane_sync_state_in_transaction next db =
     bind_result (validate_lane_sync_state next) (\<lambda>_.
     bind_result (load_all_lane_sync_states db (ls_owner_identity_id next)) (\<lambda>states.
     bind_result (ok_or (sync_error ''SYNC_LANE_BOOTSTRAP_REQUIRED'' ''lane state is missing'')
         (List.find (\<lambda>s. ls_lane s = ls_lane next) states)) (\<lambda>current.
       advance_lane_from next current db)))"

section \<open>Transport errors\<close>

definition transport_key :: "transport_row \<Rightarrow> string \<times> SyncLaneV3" where
  "transport_key t = (ts_owner_identity_id t, ts_lane t)"

definition transport_merge :: "transport_row \<Rightarrow> transport_row \<Rightarrow> transport_row" where
  "transport_merge old new = old\<lparr>ts_last_transport_error := ts_last_transport_error new,
     ts_updated_at := ts_updated_at new\<rparr>"

definition upsert_transport :: "transport_row \<Rightarrow> sync_db \<Rightarrow> sync_db ImResult" where
  "upsert_transport t db =
     (if has_binding db (ts_owner_identity_id t)
      then Ok (db\<lparr>t_transport := upsert_row transport_key transport_merge t (t_transport db)\<rparr>)
      else Err constraint_failed)"

definition clear_lane_transport_error_in_transaction ::
  "string \<Rightarrow> SyncLaneV3 \<Rightarrow> int \<Rightarrow> sync_db \<Rightarrow> sync_db ImResult" where
  "clear_lane_transport_error_in_transaction owner lane now =
     upsert_transport \<lparr>ts_owner_identity_id = owner, ts_lane = lane, ts_last_transport_error = None,
       ts_updated_at = now\<rparr>"

definition record_lane_transport_error ::
  "string \<Rightarrow> SyncLaneV3 \<Rightarrow> string option \<Rightarrow> int \<Rightarrow> sync_db \<Rightarrow> sync_db ImResult" where
  "record_lane_transport_error owner lane error now db =
     bind_result (validate_required ''owner_identity_id'' owner) (\<lambda>_.
       upsert_transport \<lparr>ts_owner_identity_id = owner, ts_lane = lane, ts_last_transport_error = error,
         ts_updated_at = now\<rparr> db)"

definition load_lane_transport_states :: "sync_db \<Rightarrow> string \<Rightarrow> (SyncLaneV3 \<times> string option) list" where
  "load_lane_transport_states db owner =
     map (\<lambda>t. (ts_lane t, ts_last_transport_error t))
       (sort_key (\<lambda>t. lane_as_str (ts_lane t)) (filter (\<lambda>t. ts_owner_identity_id t = owner) (t_transport db)))"

definition purge_closed_sync_lane_inputs :: "sync_db \<Rightarrow> int \<Rightarrow> nat \<Rightarrow> (sync_db \<times> nat) ImResult" where
  "purge_closed_sync_lane_inputs db now limit =
     (if limit = 0 \<or> limit > 1024 then
        Err (invalid_input (Some ''limit'') ''lane inbox cleanup limit must be between 1 and 1024'')
      else map_ok (\<lambda>(db', removed). (db', length removed)) (purge_expired db now limit))"

section \<open>Handing a lane event to the inbox\<close>

record SyncLaneHandoffInput =
  hi_owner_identity_id :: string
  hi_account_id_snapshot :: string
  hi_device_id_snapshot :: string
  hi_auth_generation_snapshot :: string
  hi_client_instance_id_snapshot :: string
  hi_lane :: SyncLaneV3
  hi_lane_epoch :: string
  hi_position :: string
  hi_event_id :: string
  hi_event_type :: string
  hi_raw_payload :: json
  hi_group_did :: "string option"
  hi_received_at :: string
  hi_source_created_at :: "string option"
  hi_source_expires_at :: "string option"

datatype SyncLaneHandoffOutcome = Inserted | Duplicate

definition SYNC_LANE_INPUT_MAX_BYTES :: int where "SYNC_LANE_INPUT_MAX_BYTES = 1024 * 1024"

definition lane_shape_valid :: "SyncLaneHandoffInput \<Rightarrow> bool" where
  "lane_shape_valid input \<longleftrightarrow>
     (case hi_lane input of
        P5Device \<Rightarrow> hi_event_type input = ''p5.delivery.created'' \<and> hi_group_did input = None
      | P6Group \<Rightarrow> hi_event_type input \<in> {''p6.delivery.created'', ''p6.control.notice''}
          \<and> opt_any (\<lambda>g. trim g \<noteq> []) (hi_group_did input))"

definition validate_sync_lane_handoff_input :: "SyncLaneHandoffInput \<Rightarrow> unit ImResult" where
  "validate_sync_lane_handoff_input input =
     bind_result (validate_required ''owner_identity_id'' (hi_owner_identity_id input)) (\<lambda>_.
     bind_result (validate_required ''account_id_snapshot'' (hi_account_id_snapshot input)) (\<lambda>_.
     bind_result (validate_required ''device_id_snapshot'' (hi_device_id_snapshot input)) (\<lambda>_.
     bind_result (validate_positive_decimal ''auth_generation_snapshot''
         (hi_auth_generation_snapshot input)) (\<lambda>_.
     bind_result (validate_required ''client_instance_id_snapshot''
         (hi_client_instance_id_snapshot input)) (\<lambda>_.
     bind_result (validate_positive_decimal ''lane_epoch'' (hi_lane_epoch input)) (\<lambda>_.
     bind_result (validate_positive_decimal ''position'' (hi_position input)) (\<lambda>_.
     bind_result (validate_required ''event_id'' (hi_event_id input)) (\<lambda>_.
     bind_result (validate_required ''received_at'' (hi_received_at input)) (\<lambda>_.
     bind_result (require (sync_error ''LANE_INPUT_INVALID''
         ''lane raw payload must be a complete JSON object'') (is_object (hi_raw_payload input))) (\<lambda>_.
       require (sync_error ''LANE_INPUT_INVALID''
         ''lane input does not match its production event discriminator'')
         (lane_shape_valid input)))))))))))"

definition validate_sync_lane_handoff_binding :: "sync_db \<Rightarrow> SyncLaneHandoffInput \<Rightarrow> unit ImResult" where
  "validate_sync_lane_handoff_binding db input =
     bind_result (ok_or (binding_conflict ''lane handoff requires an active account binding'')
         (load_identity_account_binding db (hi_owner_identity_id input))) (\<lambda>binding.
     bind_result (require (binding_conflict
           ''lane handoff binding snapshot does not match the active replica'')
         (bd_account_id binding = hi_account_id_snapshot input
          \<and> bd_protocol_device_id binding = hi_device_id_snapshot input
          \<and> bd_device_auth_generation binding = hi_auth_generation_snapshot input)) (\<lambda>_.
       require (binding_conflict ''lane handoff client installation snapshot is stale'')
         (installed_client db (hi_owner_identity_id input) =
            Some (hi_client_instance_id_snapshot input))))"

definition stable_sync_lane_input_id ::
  "externs \<Rightarrow> string \<Rightarrow> SyncLaneV3 \<Rightarrow> string \<Rightarrow> string \<Rightarrow> string ImResult" where
  "stable_sync_lane_input_id x owner lane epoch event_id =
     bind_result (validate_required ''owner_identity_id'' owner) (\<lambda>_.
     bind_result (validate_positive_decimal ''lane_epoch'' epoch) (\<lambda>_.
     bind_result (validate_required ''event_id'' event_id) (\<lambda>_.
       let v = JArray [JString owner, JString (lane_as_str lane), JString epoch, JString event_id]
       in ok_or (sync_error ''LANE_INPUT_INVALID''
              (''failed to encode stable lane input identity: '' @ x_json_error x v))
            (x_json_to_string x v))))"

definition handoff_cursor :: "SyncLaneHandoffInput \<Rightarrow> LaneSyncState" where
  "handoff_cursor input =
     \<lparr>ls_owner_identity_id = hi_owner_identity_id input, ls_lane = hi_lane input,
      ls_stream_epoch = hi_lane_epoch input, ls_scan_seq = hi_position input,
      ls_committed_seq = hi_position input\<rparr>"

definition handoff_scope :: "SyncLaneHandoffInput \<Rightarrow> string" where
  "handoff_scope input =
     (case or_else (hi_group_did input)
        (Option.bind (json_pointer [''meta'', ''sender_did''] (hi_raw_payload input)) as_str) of
        None \<Rightarrow> hi_event_id input | Some scope \<Rightarrow> scope)"

definition handoff_row ::
  "string \<Rightarrow> string \<Rightarrow> int \<Rightarrow> SyncLaneHandoffInput \<Rightarrow> inbox_row" where
  "handoff_row input_id payload now input =
     \<lparr>ib_input_id = input_id, ib_owner_identity_id = hi_owner_identity_id input,
      ib_lane = lane_as_str (hi_lane input), ib_lane_epoch = hi_lane_epoch input,
      ib_position = hi_position input, ib_event_id = hi_event_id input,
      ib_event_type = hi_event_type input, ib_raw_payload_json = payload,
      ib_payload_bytes = utf8_len payload, ib_account_id_snapshot = hi_account_id_snapshot input,
      ib_device_id_snapshot = hi_device_id_snapshot input,
      ib_auth_generation_snapshot = hi_auth_generation_snapshot input,
      ib_client_instance_id_snapshot = hi_client_instance_id_snapshot input,
      ib_group_did = hi_group_did input, ib_logical_event_seq = None,
      ib_received_at = hi_received_at input, ib_source_created_at = hi_source_created_at input,
      ib_source_expires_at = hi_source_expires_at input, ib_closed_at = None, ib_created_at = now,
      ib_processing_scope = [], ib_attempt_count = 0, ib_attempt_token = None,
      ib_attempt_deadline = None, ib_last_attempt_at = None, ib_next_attempt_at = Some 0,
      ib_processing_error_code = None\<rparr>"

text \<open>The end of both branches: the cursor moves to the event, the transport error is cleared.\<close>

definition finish_handoff :: "int \<Rightarrow> SyncLaneHandoffInput \<Rightarrow> sync_db \<Rightarrow> sync_db ImResult" where
  "finish_handoff now input db =
     bind_result (advance_lane_sync_state_in_transaction (handoff_cursor input) db) (\<lambda>db1.
       clear_lane_transport_error_in_transaction (hi_owner_identity_id input) (hi_lane input) now db1)"

definition insert_handoff ::
  "externs \<Rightarrow> string \<Rightarrow> string \<Rightarrow> int \<Rightarrow> SyncLaneHandoffInput \<Rightarrow> sync_db \<Rightarrow> sync_db ImResult" where
  "insert_handoff x input_id payload now input db =
     bind_result (make_room db 1 now) (\<lambda>(db1, removed).
     bind_result (inbox_insert x (handoff_row input_id payload now input) db1) (\<lambda>db2.
       finish_handoff now input (db2\<lparr>t_inbox := update_rows (\<lambda>r. ib_input_id r = input_id)
           (\<lambda>r. r\<lparr>ib_processing_scope := handoff_scope input\<rparr>) (t_inbox db2)\<rparr>)))"

definition commit_sync_lane_handoff ::
  "externs \<Rightarrow> sync_db \<Rightarrow> SyncLaneHandoffInput \<Rightarrow> int \<Rightarrow> (sync_db \<times> SyncLaneHandoffOutcome) ImResult" where
  "commit_sync_lane_handoff x db input now =
     bind_result (validate_sync_lane_handoff_input input) (\<lambda>_.
     bind_result (ok_or (sync_error ''LANE_INPUT_INVALID''
         (''failed to encode complete lane payload: '' @ x_json_error x (hi_raw_payload input)))
         (x_json_to_string x (hi_raw_payload input))) (\<lambda>payload.
     bind_result (require (sync_error ''LANE_INPUT_TOO_LARGE''
         ''lane payload length exceeds the local signed range'') (utf8_len payload \<le> i64_max)) (\<lambda>_.
     bind_result (require (sync_error ''LANE_INPUT_TOO_LARGE''
         ''lane payload exceeds the fixed 1 MiB limit'')
         (utf8_len payload \<le> SYNC_LANE_INPUT_MAX_BYTES)) (\<lambda>_.
     bind_result (stable_sync_lane_input_id x (hi_owner_identity_id input) (hi_lane input)
         (hi_lane_epoch input) (hi_event_id input)) (\<lambda>input_id.
     bind_result (validate_sync_lane_handoff_binding db input) (\<lambda>_.
       let same_lane = (\<lambda>r. ib_owner_identity_id r = hi_owner_identity_id input
             \<and> ib_lane r = lane_as_str (hi_lane input) \<and> ib_lane_epoch r = hi_lane_epoch input)
       in case select_row (\<lambda>r. same_lane r \<and> ib_event_id r = hi_event_id input) (t_inbox db) of
            Some r \<Rightarrow>
              bind_result (ok_or (sync_error ''LANE_INPUT_CONFLICT'' ''stored lane payload is invalid'')
                  (x_json_from_str x (ib_raw_payload_json r))) (\<lambda>stored.
                if ib_position r \<noteq> hi_position input \<or> ib_event_type r \<noteq> hi_event_type input
                   \<or> stored \<noteq> hi_raw_payload input then
                  Err (sync_error ''LANE_INPUT_CONFLICT''
                    ''lane event identity is already bound to another position or payload'')
                else bind_result (finish_handoff now input db) (\<lambda>db'. Ok (db', Duplicate)))
          | None \<Rightarrow>
              if exists_row (\<lambda>r. same_lane r \<and> ib_position r = hi_position input) (t_inbox db) then
                Err (sync_error ''LANE_INPUT_CONFLICT'' ''lane position is already bound to another event'')
              else
                bind_result (insert_handoff x input_id payload now input db) (\<lambda>db'. Ok (db', Inserted))))))))"

section \<open>Domain outcomes\<close>

record SyncLaneDomainState =
  ds_input_id :: string
  ds_lane :: SyncLaneV3
  ds_scope :: string
  ds_status :: SyncLaneDomainStatus
  ds_retryable :: bool
  ds_attempt_count :: int
  ds_next_retry_at :: "int option"
  ds_operation_ref :: "string option"
  ds_last_error_code :: "string option"

definition parse_lane_domain_status :: "string \<Rightarrow> SyncLaneDomainStatus ImResult" where
  "parse_lane_domain_status value =
     (if value = ''pending'' then Ok Pending
      else if value = ''processing'' then Ok Processing
      else if value = ''applied'' then Ok Applied
      else if value = ''terminal'' then Ok Terminal
      else if value = ''rejoin_required'' then Ok RejoinRequired
      else if value = ''repair_required'' then Ok RepairRequired
      else if value = ''upgrade_required'' then Ok UpgradeRequired
      else if value = ''action_required'' then Ok ActionRequired
      else Err (sync_error ''LANE_DOMAIN_STATE_INVALID'' ''stored lane domain state is unknown''))"

definition validate_sync_lane_domain_state :: "SyncLaneDomainState \<Rightarrow> unit ImResult" where
  "validate_sync_lane_domain_state s =
     bind_result (validate_required ''input_id'' (ds_input_id s)) (\<lambda>_.
     bind_result (validate_required ''scope'' (ds_scope s)) (\<lambda>_.
       require (sync_error ''LANE_DOMAIN_STATE_INVALID''
           ''lane domain state violates its closed retry contract'')
         (\<not> (ds_attempt_count s < 0
            \<or> is_closed (ds_status s) \<and> ds_retryable s
            \<or> \<not> ds_retryable s \<and> ds_next_retry_at s \<noteq> None
            \<or> ds_lane s = P5Device \<and> ds_status s \<in> {RejoinRequired, ActionRequired}))))"

definition state_owner_identity_id :: "SyncLaneDomainState \<Rightarrow> sync_db \<Rightarrow> string ImResult" where
  "state_owner_identity_id s db =
     ok_or (sync_error ''LANE_INPUT_MISSING'' ''lane input does not exist'')
       (map_option ib_owner_identity_id
         (select_row (\<lambda>r. ib_input_id r = ds_input_id s) (t_inbox db)))"

text \<open>The table of a lane and its replacement.\<close>

definition outcomes :: "SyncLaneV3 \<Rightarrow> sync_db \<Rightarrow> outcome_row list" where
  "outcomes lane db = (case lane of P5Device \<Rightarrow> t_p5_outcomes db | P6Group \<Rightarrow> t_p6_outcomes db)"

definition set_outcomes :: "SyncLaneV3 \<Rightarrow> outcome_row list \<Rightarrow> sync_db \<Rightarrow> sync_db" where
  "set_outcomes lane rows db =
     (case lane of P5Device \<Rightarrow> db\<lparr>t_p5_outcomes := rows\<rparr> | P6Group \<Rightarrow> db\<lparr>t_p6_outcomes := rows\<rparr>)"

definition outcome_checks :: "SyncLaneV3 \<Rightarrow> sync_db \<Rightarrow> outcome_row \<Rightarrow> bool" where
  "outcome_checks lane db o' \<longleftrightarrow>
     (lane = P5Device \<longrightarrow> oc_status o' \<notin> {RejoinRequired, ActionRequired})
   \<and> sql_nonblank (oc_scope o')
   \<and> exists_row (\<lambda>r. ib_input_id r = oc_input_id o') (t_inbox db)
   \<and> has_binding db (oc_owner_identity_id o')"

definition outcome_merge :: "outcome_row \<Rightarrow> outcome_row \<Rightarrow> outcome_row" where
  "outcome_merge old new = old
     \<lparr>oc_scope := oc_scope new, oc_status := oc_status new, oc_retryable := oc_retryable new,
      oc_attempt_count := oc_attempt_count new, oc_next_retry_at := oc_next_retry_at new,
      oc_operation_ref := oc_operation_ref new, oc_last_error_code := oc_last_error_code new,
      oc_updated_at := oc_updated_at new\<rparr>"

definition outcome_of :: "string \<Rightarrow> int \<Rightarrow> SyncLaneDomainState \<Rightarrow> outcome_row" where
  "outcome_of owner now s =
     \<lparr>oc_input_id = ds_input_id s, oc_owner_identity_id = owner, oc_scope = ds_scope s,
      oc_status = ds_status s, oc_retryable = ds_retryable s, oc_attempt_count = ds_attempt_count s,
      oc_next_retry_at = ds_next_retry_at s, oc_operation_ref = ds_operation_ref s,
      oc_last_error_code = ds_last_error_code s, oc_updated_at = now\<rparr>"

definition store_outcome :: "string \<Rightarrow> SyncLaneDomainState \<Rightarrow> int \<Rightarrow> sync_db \<Rightarrow> sync_db ImResult" where
  "store_outcome owner s now db =
     (let o' = outcome_of owner now s in
      if outcome_checks (ds_lane s) db o' then
        let db1 = set_outcomes (ds_lane s)
              (upsert_row oc_input_id outcome_merge o' (outcomes (ds_lane s) db)) db
        in Ok (db1\<lparr>t_inbox := update_rows (\<lambda>r. ib_input_id r = ds_input_id s)
             (\<lambda>r. r\<lparr>ib_closed_at := (if is_closed (ds_status s) then Some now else None)\<rparr>) (t_inbox db1)\<rparr>)
      else Err constraint_failed)"

definition write_sync_lane_domain_state :: "sync_db \<Rightarrow> SyncLaneDomainState \<Rightarrow> int \<Rightarrow> sync_db ImResult" where
  "write_sync_lane_domain_state db s now =
     bind_result (validate_sync_lane_domain_state s) (\<lambda>_.
     bind_result (state_owner_identity_id s db) (\<lambda>owner.
       case select_row (\<lambda>r. ib_input_id r = ds_input_id s \<and> ib_owner_identity_id r = owner) (t_inbox db) of
         None \<Rightarrow> Err (sync_error ''LANE_INPUT_MISSING''
             ''domain outcome references a missing lane input'')
       | Some r \<Rightarrow>
           bind_result (parse_lane_name (ib_lane r)) (\<lambda>stored_lane.
             if stored_lane \<noteq> ds_lane s then
               Err (sync_error ''LANE_INPUT_CONFLICT'' ''domain outcome lane does not match its input'')
             else
               case select_row (\<lambda>o'. oc_input_id o' = ds_input_id s) (outcomes (ds_lane s) db) of
                 None \<Rightarrow> store_outcome owner s now db
               | Some existing \<Rightarrow>
                   if is_closed (oc_status existing) then
                     (if oc_status existing = ds_status s then Ok db
                      else Err (sync_error ''LANE_DOMAIN_STATE_CONFLICT''
                        ''closed lane domain outcome cannot be reopened or rewritten''))
                   else store_outcome owner s now db)))"

definition domain_state_of :: "SyncLaneV3 \<Rightarrow> outcome_row \<Rightarrow> SyncLaneDomainState" where
  "domain_state_of lane o' =
     \<lparr>ds_input_id = oc_input_id o', ds_lane = lane, ds_scope = oc_scope o', ds_status = oc_status o',
      ds_retryable = oc_retryable o', ds_attempt_count = oc_attempt_count o',
      ds_next_retry_at = oc_next_retry_at o', ds_operation_ref = oc_operation_ref o',
      ds_last_error_code = oc_last_error_code o'\<rparr>"

definition load_sync_lane_domain_states :: "sync_db \<Rightarrow> string \<Rightarrow> SyncLaneDomainState list ImResult" where
  "load_sync_lane_domain_states db owner =
     bind_result (validate_required ''owner_identity_id'' owner) (\<lambda>_.
       Ok (concat (map (\<lambda>lane. map (domain_state_of lane)
           (sort_key oc_input_id (filter (\<lambda>o'. oc_owner_identity_id o' = owner) (outcomes lane db))))
         [P5Device, P6Group])))"

definition lane_input_pending :: "SyncLaneV3 \<Rightarrow> int \<Rightarrow> sync_db \<Rightarrow> inbox_row \<Rightarrow> bool" where
  "lane_input_pending lane now db r \<longleftrightarrow>
     (case select_row (\<lambda>o'. oc_input_id o' = ib_input_id r) (outcomes lane db) of
        None \<Rightarrow> True
      | Some o' \<Rightarrow> oc_status o' \<in> {Pending, Processing} \<and> opt_all (\<lambda>t. t \<le> now) (oc_next_retry_at o'))"

definition inbox_order :: "inbox_row \<Rightarrow> nat \<times> string \<times> nat \<times> string \<times> string" where
  "inbox_order r = (sql_length (ib_lane_epoch r), ib_lane_epoch r, sql_length (ib_position r),
     ib_position r, ib_input_id r)"

definition inbox_record :: "externs \<Rightarrow> inbox_row \<Rightarrow> SyncLaneInboxRecord ImResult" where
  "inbox_record x r =
     bind_result (parse_lane_name (ib_lane r)) (\<lambda>lane.
     bind_result (ok_or (sync_error ''LANE_INPUT_INVALID'' ''stored lane input payload is invalid'')
         (x_json_from_str x (ib_raw_payload_json r))) (\<lambda>payload.
       Ok \<lparr>li_input_id = ib_input_id r, li_owner_identity_id = ib_owner_identity_id r, li_lane = lane,
           li_lane_epoch = ib_lane_epoch r, li_position = ib_position r, li_event_id = ib_event_id r,
           li_event_type = ib_event_type r, li_raw_payload = payload, li_group_did = ib_group_did r,
           li_received_at = ib_received_at r, li_source_created_at = ib_source_created_at r,
           li_source_expires_at = ib_source_expires_at r\<rparr>))"

definition list_pending_sync_lane_inputs ::
  "externs \<Rightarrow> sync_db \<Rightarrow> string \<Rightarrow> SyncLaneV3 \<Rightarrow> int \<Rightarrow> nat \<Rightarrow> SyncLaneInboxRecord list ImResult" where
  "list_pending_sync_lane_inputs x db owner lane now limit =
     bind_result (validate_required ''owner_identity_id'' owner) (\<lambda>_.
       if limit = 0 \<or> limit > 256 then
         Err (invalid_input (Some ''limit'') ''lane consumer limit must be between 1 and 256'')
       else
         fold_result (\<lambda>r acc. map_ok (\<lambda>i. acc @ [i]) (inbox_record x r))
           (order_limit inbox_order limit
             (filter (\<lambda>r. ib_owner_identity_id r = owner \<and> ib_lane r = lane_as_str lane
                 \<and> ib_closed_at r = None \<and> lane_input_pending lane now db r) (t_inbox db))) [])"

section \<open>Receipts of applied lane events\<close>

datatype SyncLaneEventReceiptMatch = Missing | Exact | Conflict

definition validate_sync_lane_event_receipt :: "SyncLaneEventReceipt \<Rightarrow> unit ImResult" where
  "validate_sync_lane_event_receipt r =
     bind_result (validate_required ''owner_identity_id'' (la_owner_identity_id r)) (\<lambda>_.
     bind_result (validate_required ''event_id'' (la_event_id r)) (\<lambda>_.
     bind_result (validate_positive_decimal ''stream_epoch'' (la_stream_epoch r)) (\<lambda>_.
     bind_result (validate_positive_decimal ''event_seq'' (la_event_seq r)) (\<lambda>_.
       case la_lane r of
         P5Device \<Rightarrow>
           require (sync_error ''SYNC_INVALID_PAGE'' ''P5 receipt cannot carry a group position'')
             (la_group_did r = None \<and> la_group_event_seq r = None)
       | P6Group \<Rightarrow>
           bind_result (require (sync_error ''SYNC_INVALID_PAGE'' ''P6 receipt requires group_did'')
             (opt_any (\<lambda>g. trim g \<noteq> []) (la_group_did r))) (\<lambda>_.
             case la_group_event_seq r of None \<Rightarrow> Ok ()
             | Some q \<Rightarrow> validate_positive_decimal ''group_event_seq'' q)))))"

definition group_position_exists :: "sync_db \<Rightarrow> SyncLaneEventReceipt \<Rightarrow> bool" where
  "group_position_exists db r \<longleftrightarrow>
     la_lane r = P6Group \<and> la_group_did r \<noteq> None \<and> la_group_event_seq r \<noteq> None
   \<and> exists_row (\<lambda>q. la_owner_identity_id q = la_owner_identity_id r \<and> la_lane q = P6Group
        \<and> la_group_did q = la_group_did r \<and> la_group_event_seq q = la_group_event_seq r)
        (t_lane_applied db)"

definition receipt_equal :: "SyncLaneEventReceipt \<Rightarrow> lane_applied_row \<Rightarrow> bool" where
  "receipt_equal r a \<longleftrightarrow> la_stream_epoch a = la_stream_epoch r \<and> la_event_seq a = la_event_seq r
     \<and> la_group_did a = la_group_did r \<and> la_group_event_seq a = la_group_event_seq r"

definition sync_lane_event_receipt_match ::
  "sync_db \<Rightarrow> SyncLaneEventReceipt \<Rightarrow> SyncLaneEventReceiptMatch ImResult" where
  "sync_lane_event_receipt_match db r =
     bind_result (validate_sync_lane_event_receipt r) (\<lambda>_.
       case select_row (\<lambda>a. la_owner_identity_id a = la_owner_identity_id r \<and> la_lane a = la_lane r
           \<and> la_event_id a = la_event_id r) (t_lane_applied db) of
         Some a \<Rightarrow> Ok (if receipt_equal r a then Exact else Conflict)
       | None \<Rightarrow>
           if group_position_exists db r then Ok Exact
           else Ok (if exists_row (\<lambda>a. la_owner_identity_id a = la_owner_identity_id r
                \<and> la_lane a = la_lane r \<and> la_stream_epoch a = la_stream_epoch r
                \<and> la_event_seq a = la_event_seq r) (t_lane_applied db)
              then Conflict else Missing))"

definition insert_lane_receipt :: "SyncLaneEventReceipt \<Rightarrow> sync_db \<Rightarrow> sync_db ImResult" where
  "insert_lane_receipt r db =
     (let a = SyncLaneEventReceipt.extend r \<lparr>la_payload_hash = None\<rparr> in
      if \<not> exists_row (\<lambda>q. lane_applied_key q = lane_applied_key a) (t_lane_applied db)
         \<and> lane_applied_checks a \<and> lane_applied_ok db a
      then Ok (db\<lparr>t_lane_applied := t_lane_applied db @ [a]\<rparr>)
      else Err constraint_failed)"

text \<open>The checkpoint that comes with a receipt or a blocker has to cover the event.\<close>

definition checkpoint_covers :: "LaneSyncState \<Rightarrow> string \<Rightarrow> string \<Rightarrow> bool ImResult" where
  "checkpoint_covers next epoch event_seq =
     (if ls_stream_epoch next \<noteq> epoch then Ok False
      else bind_result (compare_decimal (ls_scan_seq next) event_seq) (\<lambda>scan.
        if scan = Less then Ok False
        else bind_result (compare_decimal (ls_committed_seq next) event_seq) (\<lambda>committed.
          Ok (committed \<noteq> Less))))"

definition check_checkpoint :: "SyncLaneEventReceipt \<Rightarrow> LaneSyncState \<Rightarrow> unit ImResult" where
  "check_checkpoint r next =
     bind_result (require (binding_conflict ''lane receipt and checkpoint belong to different scopes'')
         (ls_owner_identity_id next = la_owner_identity_id r \<and> ls_lane next = la_lane r)) (\<lambda>_.
     bind_result (checkpoint_covers next (la_stream_epoch r) (la_event_seq r)) (\<lambda>covers.
       require (sync_error ''SYNC_INVALID_PAGE'' ''lane checkpoint does not cover the committed event'')
         covers))"

definition store_lane_receipt :: "SyncLaneEventReceipt \<Rightarrow> sync_db \<Rightarrow> sync_db ImResult" where
  "store_lane_receipt r db =
     bind_result (sync_lane_event_receipt_match db r) (\<lambda>m.
       case m of
         Missing \<Rightarrow> insert_lane_receipt r db
       | Exact \<Rightarrow> Ok db
       | Conflict \<Rightarrow> Err (sync_error ''SYNC_LANE_EVENT_CONFLICT''
           ''lane event identity conflicts with a committed receipt''))"

definition delete_blocker :: "string \<Rightarrow> string \<Rightarrow> sync_db \<Rightarrow> sync_db" where
  "delete_blocker owner event_id db =
     db\<lparr>t_blockers := delete_rows (\<lambda>b. bl_owner_identity_id b = owner \<and> bl_event_id b = event_id)
       (t_blockers db)\<rparr>"

definition commit_sync_lane_event ::
  "sync_db \<Rightarrow> SyncLaneEventReceipt \<Rightarrow> LaneSyncState option \<Rightarrow> bool \<Rightarrow> sync_db ImResult" where
  "commit_sync_lane_event db r next_state resolve_p6_blocker =
     bind_result (validate_sync_lane_event_receipt r) (\<lambda>_.
     bind_result (case next_state of None \<Rightarrow> Ok () | Some next \<Rightarrow> check_checkpoint r next) (\<lambda>_.
     bind_result (require (sync_error ''SYNC_INVALID_PAGE'' ''only P6 receipts can resolve P6 blockers'')
         (\<not> (resolve_p6_blocker \<and> la_lane r \<noteq> P6Group))) (\<lambda>_.
     bind_result (store_lane_receipt r db) (\<lambda>db1.
       let db2 = (if resolve_p6_blocker
                  then delete_blocker (la_owner_identity_id r) (la_event_id r) db1 else db1)
       in case next_state of None \<Rightarrow> Ok db2
          | Some next \<Rightarrow> advance_lane_sync_state_in_transaction next db2))))"

section \<open>Blockers of the group lane\<close>

definition validate_p6_lane_blocker :: "externs \<Rightarrow> P6LaneBlocker \<Rightarrow> unit ImResult" where
  "validate_p6_lane_blocker x b =
     bind_result (validate_required ''owner_identity_id'' (bl_owner_identity_id b)) (\<lambda>_.
     bind_result (validate_required ''event_id'' (bl_event_id b)) (\<lambda>_.
     bind_result (validate_positive_decimal ''stream_epoch'' (bl_stream_epoch b)) (\<lambda>_.
     bind_result (validate_positive_decimal ''event_seq'' (bl_event_seq b)) (\<lambda>_.
     bind_result (validate_required ''group_did'' (bl_group_did b)) (\<lambda>_.
     bind_result (case bl_group_event_seq b of None \<Rightarrow> Ok ()
         | Some q \<Rightarrow> validate_positive_decimal ''group_event_seq'' q) (\<lambda>_.
       require (sync_error ''SYNC_LOCAL_STATE_CORRUPT'' ''P6 blocker is not canonical'')
         (bl_event_type b \<in> {''p6.delivery.created'', ''p6.control.notice''}
          \<and> 0 < bl_attempt_count b \<and> 0 \<le> bl_created_at b \<and> bl_created_at b \<le> bl_updated_at b
          \<and> trim (bl_last_error_code b) \<noteq> []
          \<and> opt_any is_object (x_json_from_str x (bl_payload_json b)))))))))"

definition blocker_key :: "P6LaneBlocker \<Rightarrow> string \<times> string" where
  "blocker_key b = (bl_owner_identity_id b, bl_event_id b)"

definition blocker_merge :: "P6LaneBlocker \<Rightarrow> P6LaneBlocker \<Rightarrow> P6LaneBlocker" where
  "blocker_merge old new = old\<lparr>bl_attempt_count := bl_attempt_count old + 1,
     bl_last_error_code := bl_last_error_code new, bl_updated_at := bl_updated_at new\<rparr>"

definition blocker_checks :: "P6LaneBlocker \<Rightarrow> bool" where
  "blocker_checks b \<longleftrightarrow>
     bl_event_type b \<in> {''p6.delivery.created'', ''p6.control.notice''}
   \<and> sql_nonblank (bl_event_id b) \<and> sql_nonblank (bl_group_did b) \<and> sql_nonblank (bl_payload_json b)
   \<and> 0 < bl_attempt_count b"

definition blocker_ok :: "sync_db \<Rightarrow> P6LaneBlocker \<Rightarrow> bool" where
  "blocker_ok db b \<longleftrightarrow>
     \<not> exists_row (\<lambda>q. bl_owner_identity_id q = bl_owner_identity_id b
        \<and> bl_stream_epoch q = bl_stream_epoch b \<and> bl_event_seq q = bl_event_seq b) (t_blockers db)
   \<and> has_binding db (bl_owner_identity_id b)"

definition same_blocker :: "P6LaneBlocker \<Rightarrow> P6LaneBlocker \<Rightarrow> bool" where
  "same_blocker b q \<longleftrightarrow> bl_stream_epoch q = bl_stream_epoch b \<and> bl_event_seq q = bl_event_seq b
     \<and> bl_event_type q = bl_event_type b \<and> bl_group_did q = bl_group_did b
     \<and> bl_group_event_seq q = bl_group_event_seq b \<and> bl_payload_json q = bl_payload_json b"

definition upsert_blocker :: "P6LaneBlocker \<Rightarrow> sync_db \<Rightarrow> sync_db ImResult" where
  "upsert_blocker b db =
     (if blocker_checks b
         \<and> (exists_row (\<lambda>q. blocker_key q = blocker_key b) (t_blockers db) \<or> blocker_ok db b)
      then Ok (db\<lparr>t_blockers := upsert_row blocker_key blocker_merge b (t_blockers db)\<rparr>)
      else Err constraint_failed)"

definition record_p6_lane_blocker_and_advance ::
  "externs \<Rightarrow> sync_db \<Rightarrow> P6LaneBlocker \<Rightarrow> LaneSyncState \<Rightarrow> sync_db ImResult" where
  "record_p6_lane_blocker_and_advance x db b next =
     bind_result (validate_p6_lane_blocker x b) (\<lambda>_.
     bind_result (if ls_owner_identity_id next \<noteq> bl_owner_identity_id b \<or> ls_lane next \<noteq> P6Group
         then Ok False else checkpoint_covers next (bl_stream_epoch b) (bl_event_seq b)) (\<lambda>covers.
     bind_result (require (sync_error ''SYNC_INVALID_PAGE''
         ''P6 blocker checkpoint does not cover the deferred event'') covers) (\<lambda>_.
     bind_result (require (sync_error ''SYNC_LANE_EVENT_CONFLICT''
         ''P6 blocker identity conflicts with its stored payload'')
         (opt_all (same_blocker b)
           (select_row (\<lambda>q. blocker_key q = blocker_key b) (t_blockers db)))) (\<lambda>_.
     bind_result (upsert_blocker b db) (\<lambda>db1.
       advance_lane_sync_state_in_transaction next db1)))))"

definition list_p6_lane_blockers ::
  "externs \<Rightarrow> sync_db \<Rightarrow> string \<Rightarrow> nat \<Rightarrow> P6LaneBlocker list ImResult" where
  "list_p6_lane_blockers x db owner limit =
     bind_result (validate_required ''owner_identity_id'' owner) (\<lambda>_.
       if limit = 0 \<or> limit > 1000 then
         Err (invalid_input (Some ''limit'') ''P6 blocker limit must be between 1 and 1000'')
       else
         check_each (validate_p6_lane_blocker x)
           (order_limit (\<lambda>b. (sql_length (bl_event_seq b), bl_event_seq b, bl_event_id b)) limit
             (filter (\<lambda>b. bl_owner_identity_id b = owner) (t_blockers db))))"

section \<open>Migration of the blockers into the inbox\<close>

record LegacyP6InboxMigrationReport =
  mr_migrated :: nat
  mr_already_migrated :: nat
  mr_repair_required :: nat

datatype migration_step = Skipped | Migrated | AlreadyMigrated | RepairRequiredStep

definition count_step :: "migration_step \<Rightarrow> LegacyP6InboxMigrationReport \<Rightarrow> LegacyP6InboxMigrationReport" where
  "count_step s r =
     (case s of Skipped \<Rightarrow> r
      | Migrated \<Rightarrow> r\<lparr>mr_migrated := mr_migrated r + 1\<rparr>
      | AlreadyMigrated \<Rightarrow> r\<lparr>mr_already_migrated := mr_already_migrated r + 1\<rparr>
      | RepairRequiredStep \<Rightarrow> r\<lparr>mr_repair_required := mr_repair_required r + 1\<rparr>)"

definition show_int :: "int \<Rightarrow> string" where
  "show_int i = (if i < 0 then ''-'' @ show_nat (nat (- i)) else show_nat (nat i))"

definition repair_key :: "repair_row \<Rightarrow> string \<times> string" where
  "repair_key r = (rp_owner_identity_id r, rp_event_id r)"

definition repair_merge :: "repair_row \<Rightarrow> repair_row \<Rightarrow> repair_row" where
  "repair_merge old new = old\<lparr>rp_reason := rp_reason new, rp_updated_at := rp_updated_at new\<rparr>"

text \<open>The two statements are not in a transaction: the first stays when the second fails.\<close>

definition record_legacy_p6_migration_repair ::
  "string \<Rightarrow> string \<Rightarrow> string \<Rightarrow> int \<Rightarrow> sync_db \<Rightarrow> sync_db \<times> unit ImResult" where
  "record_legacy_p6_migration_repair owner event_id reason now db =
     (if \<not> has_binding db owner then (db, Err constraint_failed)
      else
        let db1 = db\<lparr>t_repairs := upsert_row repair_key repair_merge
              \<lparr>rp_owner_identity_id = owner, rp_event_id = event_id, rp_reason = reason,
               rp_updated_at = now\<rparr> (t_repairs db)\<rparr>
        in case record_lane_transport_error owner P6Group (Some ''lane_migration_repair_required'') now db1 of
             Inl e \<Rightarrow> (db1, Err e)
           | Inr db2 \<Rightarrow> (db2, Ok ()))"

definition migration_repair ::
  "P6LaneBlocker \<Rightarrow> string \<Rightarrow> sync_db \<Rightarrow> sync_db \<times> migration_step ImResult" where
  "migration_repair b reason db =
     (case record_legacy_p6_migration_repair (bl_owner_identity_id b) (bl_event_id b) reason
        (bl_created_at b) db of (db', r) \<Rightarrow> (db', map_ok (\<lambda>_. RepairRequiredStep) r))"

definition legacy_shape_valid :: "externs \<Rightarrow> P6LaneBlocker \<Rightarrow> bool" where
  "legacy_shape_valid x b \<longleftrightarrow>
     opt_any is_object (x_json_from_str x (bl_payload_json b))
   \<and> bl_event_type b \<in> {''p6.delivery.created'', ''p6.control.notice''}
   \<and> (bl_event_type b = ''p6.delivery.created'' \<and> bl_group_event_seq b \<noteq> None
      \<or> bl_event_type b = ''p6.control.notice'' \<and> bl_group_event_seq b = None)
   \<and> min (utf8_len (bl_payload_json b)) i64_max \<le> SYNC_LANE_INPUT_MAX_BYTES"

definition migrated_row ::
  "externs \<Rightarrow> IdentityAccountBinding \<Rightarrow> string \<Rightarrow> string \<Rightarrow> P6LaneBlocker \<Rightarrow> inbox_row" where
  "migrated_row x binding client input_id b =
     \<lparr>ib_input_id = input_id, ib_owner_identity_id = bl_owner_identity_id b, ib_lane = ''p6_group'',
      ib_lane_epoch = bl_stream_epoch b, ib_position = bl_event_seq b, ib_event_id = bl_event_id b,
      ib_event_type = bl_event_type b, ib_raw_payload_json = bl_payload_json b,
      ib_payload_bytes = min (utf8_len (bl_payload_json b)) i64_max,
      ib_account_id_snapshot = bd_account_id binding,
      ib_device_id_snapshot = bd_protocol_device_id binding,
      ib_auth_generation_snapshot = bd_device_auth_generation binding,
      ib_client_instance_id_snapshot = client, ib_group_did = Some (bl_group_did b),
      ib_logical_event_seq = None,
      ib_received_at = (case x_rfc3339 x (bl_created_at b) of Some t \<Rightarrow> t
         | None \<Rightarrow> ''unix:'' @ show_int (bl_created_at b)),
      ib_source_created_at = None, ib_source_expires_at = None, ib_closed_at = None,
      ib_created_at = bl_created_at b, ib_processing_scope = [], ib_attempt_count = 0,
      ib_attempt_token = None, ib_attempt_deadline = None, ib_last_attempt_at = None,
      ib_next_attempt_at = Some 0, ib_processing_error_code = None\<rparr>"

definition insert_migrated ::
  "externs \<Rightarrow> int \<Rightarrow> IdentityAccountBinding \<Rightarrow> string \<Rightarrow> string \<Rightarrow> P6LaneBlocker \<Rightarrow> sync_db
     \<Rightarrow> sync_db ImResult" where
  "insert_migrated x now binding client input_id b db =
     bind_result (make_room db 1 now) (\<lambda>(db1, removed).
     bind_result (inbox_insert x (migrated_row x binding client input_id b) db1) (\<lambda>db2.
       let stored = select_row (\<lambda>q. blocker_key q = blocker_key b) (t_blockers db2)
       in Ok (delete_blocker (bl_owner_identity_id b) (bl_event_id b)
            (db2\<lparr>t_inbox := update_rows (\<lambda>r. ib_input_id r = input_id)
               (\<lambda>r. r\<lparr>ib_processing_scope := bl_group_did b, ib_logical_event_seq := bl_group_event_seq b,
                      ib_attempt_count := (case stored of None \<Rightarrow> 0 | Some q \<Rightarrow> bl_attempt_count q),
                      ib_processing_error_code := map_option bl_last_error_code stored\<rparr>)
               (t_inbox db2)\<rparr>))))"

definition already_stored :: "externs \<Rightarrow> P6LaneBlocker \<Rightarrow> inbox_row \<Rightarrow> bool" where
  "already_stored x b r \<longleftrightarrow> ib_position r = bl_event_seq b \<and> ib_event_type r = bl_event_type b
     \<and> x_json_from_str x (ib_raw_payload_json r) = x_json_from_str x (bl_payload_json b)
     \<and> (ib_logical_event_seq r = None \<or> ib_logical_event_seq r = bl_group_event_seq b)"

definition migrate_valid_blocker ::
  "externs \<Rightarrow> int \<Rightarrow> IdentityAccountBinding \<Rightarrow> string \<Rightarrow> P6LaneBlocker \<Rightarrow> sync_db
     \<Rightarrow> sync_db \<times> migration_step ImResult" where
  "migrate_valid_blocker x now binding client b db =
     (case stable_sync_lane_input_id x (bl_owner_identity_id b) P6Group (bl_stream_epoch b) (bl_event_id b) of
        Inl e \<Rightarrow> (db, Err e)
      | Inr input_id \<Rightarrow>
          (case select_row (\<lambda>r. ib_input_id r = input_id) (t_inbox db) of
             Some r \<Rightarrow>
               if already_stored x b r then
                 (delete_blocker (bl_owner_identity_id b) (bl_event_id b)
                    (db\<lparr>t_inbox := update_rows (\<lambda>r. ib_input_id r = input_id)
                       (\<lambda>r. r\<lparr>ib_logical_event_seq := or_else (ib_logical_event_seq r) (bl_group_event_seq b)\<rparr>)
                       (t_inbox db)\<rparr>), Ok AlreadyMigrated)
               else migration_repair b ''legacy blocker conflicts with an existing lane input'' db
           | None \<Rightarrow>
               if exists_row (\<lambda>r. ib_owner_identity_id r = bl_owner_identity_id b \<and> ib_lane r = ''p6_group''
                    \<and> ib_lane_epoch r = bl_stream_epoch b \<and> ib_position r = bl_event_seq b) (t_inbox db)
               then migration_repair b ''legacy blocker position conflicts with an existing lane input'' db
               else (case insert_migrated x now binding client input_id b db of
                       Inl e \<Rightarrow> (db, Err e) | Inr db' \<Rightarrow> (db', Ok Migrated))))"

definition migrate_blocker ::
  "externs \<Rightarrow> int \<Rightarrow> P6LaneBlocker \<times> IdentityAccountBinding \<times> string option \<Rightarrow> sync_db
     \<Rightarrow> sync_db \<times> migration_step ImResult" where
  "migrate_blocker x now = (\<lambda>(b, binding, client) db.
     (case client of
        None \<Rightarrow> (db, Ok Skipped)
      | Some c \<Rightarrow>
          if legacy_shape_valid x b then migrate_valid_blocker x now binding c b db
          else migration_repair b ''legacy blocker cannot be reconstructed losslessly'' db))"

text \<open>Each blocker is a transaction of its own: those before an error stay migrated.\<close>

fun migrate_blockers ::
  "externs \<Rightarrow> int \<Rightarrow> (P6LaneBlocker \<times> IdentityAccountBinding \<times> string option) list
     \<Rightarrow> sync_db \<Rightarrow> LegacyP6InboxMigrationReport \<Rightarrow> sync_db \<times> LegacyP6InboxMigrationReport ImResult" where
  "migrate_blockers x now [] db report = (db, Ok report)"
| "migrate_blockers x now (b # bs) db report =
     (case migrate_blocker x now b db of
        (db', Inl e) \<Rightarrow> (db', Err e)
      | (db', Inr s) \<Rightarrow> migrate_blockers x now bs db' (count_step s report))"

definition legacy_blockers :: "sync_db \<Rightarrow> (P6LaneBlocker \<times> IdentityAccountBinding \<times> string option) list" where
  "legacy_blockers db =
     sort_key (\<lambda>(b, _). (bl_owner_identity_id b, bl_stream_epoch b, bl_event_seq b))
       (concat (map (\<lambda>b. map (\<lambda>binding. (b, binding, installed_client db (bl_owner_identity_id b)))
          (filter (\<lambda>binding. bd_owner_identity_id binding = bl_owner_identity_id b) (t_bindings db)))
        (t_blockers db)))"

definition migrate_legacy_p6_blockers_to_inbox ::
  "externs \<Rightarrow> int \<Rightarrow> sync_db \<Rightarrow> sync_db \<times> LegacyP6InboxMigrationReport ImResult" where
  "migrate_legacy_p6_blockers_to_inbox x now db =
     migrate_blockers x now (legacy_blockers db) db
       \<lparr>mr_migrated = 0, mr_already_migrated = 0, mr_repair_required = 0\<rparr>"

end
