(* ===== verification/Inbox_Capacity.thy ===== *)
theory Inbox_Capacity
  imports Sync_Inbox
begin

text \<open>
  Retention and capacity of the receive queue: what an eviction removes, and that receiving a page
  keeps the queue within its limit, loses no event of the page and moves the cursor only together
  with them.
\<close>

section \<open>Deleting inputs\<close>

text \<open>Statements on the inbox leave the other tables alone.\<close>

definition same_frame :: "sync_db \<Rightarrow> sync_db \<Rightarrow> bool" where
  "same_frame db db' \<longleftrightarrow>
     t_bindings db' = t_bindings db \<and> t_installations db' = t_installations db
   \<and> t_sync_states db' = t_sync_states db \<and> t_runs db' = t_runs db
   \<and> t_applied db' = t_applied db \<and> t_lane_applied db' = t_lane_applied db
   \<and> t_leases db' = t_leases db \<and> t_lane_states db' = t_lane_states db
   \<and> t_messages db' = t_messages db"

lemma same_frame_refl [simp]: "same_frame db db"
  by (simp add: same_frame_def)

lemma same_frame_trans: "same_frame a b \<Longrightarrow> same_frame b c \<Longrightarrow> same_frame a c"
  by (simp add: same_frame_def)

lemma same_frame_loads:
  assumes "same_frame db db'"
  shows "load_identity_account_binding db' o' = load_identity_account_binding db o'"
    and "load_message_sync_state db' o' = load_message_sync_state db o'"
    and "stored_payload_hash db' o' lane epoch ev = stored_payload_hash db o' lane epoch ev"
  using assms
  by (simp_all add: same_frame_def load_identity_account_binding_def load_message_sync_state_def
      load_message_sync_state_row_def stored_payload_hash_def)

lemma inbox_delete_inbox [simp]: "t_inbox (inbox_delete P db) = delete_rows P (t_inbox db)"
  by (simp add: inbox_delete_def Let_def)

lemma inbox_delete_frame [simp]: "same_frame db (inbox_delete P db)"
  by (simp add: inbox_delete_def Let_def same_frame_def)

definition in_removed :: "RemovedInput list \<Rightarrow> inbox_row \<Rightarrow> bool" where
  "in_removed ms r \<longleftrightarrow>
     (\<exists>m\<in>set ms. ib_input_id r = rm_input_id m \<and> ib_owner_identity_id r = rm_owner_identity_id m)"

lemma fold_delete_removed:
  "t_inbox (fold delete_removed ms db) = filter (\<lambda>r. \<not> in_removed ms r) (t_inbox db)
   \<and> same_frame db (fold delete_removed ms db)"
proof (induction ms arbitrary: db)
  case (Cons m ms)
  have "same_frame db (delete_removed m db)" by (simp add: delete_removed_def)
  moreover have "filter (\<lambda>r. \<not> in_removed ms r) (t_inbox (delete_removed m db)) =
      filter (\<lambda>r. \<not> in_removed (m # ms) r) (t_inbox db)"
    by (auto simp: delete_removed_def delete_rows_def in_removed_def intro: filter_cong)
  ultimately show ?case
    using Cons.IH [of "delete_removed m db"] same_frame_trans by auto
qed (simp add: in_removed_def)

lemma in_removed_oldest:
  assumes "distinct (map ib_input_id rows)" and "set xs \<subseteq> set rows" and "r \<in> set rows"
  shows "in_removed (map removed_input xs) r \<longleftrightarrow> r \<in> set xs"
proof
  assume "in_removed (map removed_input xs) r"
  then obtain q where "q \<in> set xs" "ib_input_id r = ib_input_id q"
    by (auto simp: in_removed_def removed_input_def)
  then show "r \<in> set xs" using assms keyed_unique [of ib_input_id rows r q] by auto
qed (auto simp: in_removed_def removed_input_def)

lemma length_filter_notin:
  assumes "distinct rows" and "distinct xs" and "set xs \<subseteq> set rows"
  shows "length (filter (\<lambda>r. r \<notin> set xs) rows) = length rows - length xs"
proof -
  have "length (filter (\<lambda>r. r \<notin> set xs) rows) = card (set rows - set xs)"
    using assms(1) by (simp flip: distinct_card add: set_diff_eq)
  also have "\<dots> = length rows - length xs"
    using assms by (simp add: card_Diff_subset distinct_card)
  finally show ?thesis .
qed

lemma oldest_inputs_subset:
  "set (oldest_inputs db cutoff n) \<subseteq> {r \<in> set (t_inbox db). opt_all (\<lambda>c. ib_created_at r \<le> c) cutoff}"
  unfolding oldest_inputs_def using set_order_limit by fastforce

lemma distinct_oldest_inputs:
  assumes "distinct (map ib_input_id (t_inbox db))"
  shows "distinct (map ib_input_id (oldest_inputs db cutoff n))"
  unfolding oldest_inputs_def using assms
  by (intro distinct_map_order_limit distinct_map_filter)

lemma delete_oldest_inbox:
  assumes "distinct (map ib_input_id (t_inbox db))" and "delete_oldest db cutoff n = (db', removed)"
  shows "t_inbox db' = filter (\<lambda>r. r \<notin> set (oldest_inputs db cutoff n)) (t_inbox db)"
    and "removed = map removed_input (oldest_inputs db cutoff n)"
    and "same_frame db db'"
proof -
  have eq: "removed = map removed_input (oldest_inputs db cutoff n)" "db' = fold delete_removed removed db"
    using assms(2) by (auto simp: delete_oldest_def Let_def)
  then show "removed = map removed_input (oldest_inputs db cutoff n)" "same_frame db db'"
    by (simp_all add: fold_delete_removed)
  have "set (oldest_inputs db cutoff n) \<subseteq> set (t_inbox db)"
    using oldest_inputs_subset by blast
  then show "t_inbox db' = filter (\<lambda>r. r \<notin> set (oldest_inputs db cutoff n)) (t_inbox db)"
    using assms(1) unfolding eq by (auto simp: fold_delete_removed in_removed_oldest intro!: filter_cong)
qed

lemma length_delete_oldest_None:
  assumes "distinct (map ib_input_id (t_inbox db))" and "delete_oldest db None n = (db', removed)"
  shows "length (t_inbox db') = length (t_inbox db) - n"
proof -
  have sub: "set (oldest_inputs db None n) \<subseteq> set (t_inbox db)"
    using oldest_inputs_subset by blast
  have "length (oldest_inputs db None n) = min n (length (t_inbox db))"
    by (simp add: oldest_inputs_def length_order_limit)
  moreover have "distinct (t_inbox db)" "distinct (oldest_inputs db None n)"
    using assms(1) distinct_oldest_inputs [OF assms(1)] by (simp_all add: distinct_map)
  ultimately show ?thesis
    using length_filter_notin [OF _ _ sub] delete_oldest_inbox(1) [OF assms] by simp
qed

lemma distinct_delete_oldest:
  assumes "distinct (map ib_input_id (t_inbox db))" and "delete_oldest db cutoff n = (db', removed)"
  shows "distinct (map ib_input_id (t_inbox db'))"
  unfolding delete_oldest_inbox(1) [OF assms] using assms(1) by (rule distinct_map_filter)

section \<open>Making room\<close>

lemma make_room_cases:
  assumes "make_room db k now = Inr (db', removed)"
  obtains db1 rem1 where "k \<le> 16384"
    and "delete_oldest db (Some (saturating_sub now RETENTION_SECONDS)) SYNC_CLEANUP_BATCH_SIZE = (db1, rem1)"
    and "(k = 0 \<or> saturating_sub (saturating_add (int (length (t_inbox db1))) (int k)) 16384 \<le> 0)
           \<and> db' = db1 \<and> removed = rem1
       \<or> (\<exists>rem2. 0 < k \<and> delete_oldest db1 None (nat (saturating_sub
             (saturating_add (int (length (t_inbox db1))) (int k)) 16384)) = (db', rem2)
           \<and> removed = rem1 @ rem2)"
  using assms that unfolding make_room_def make_room_with_limit_def Let_def MAX_INBOX_RECORDS_def
  by (auto simp: less_max_iff_disj not_less split: prod.splits if_split_asm)

lemma saturating_excess:
  assumes "0 \<le> n" and "n \<le> 16384" and "0 \<le> k" and "k \<le> 16384"
  shows "saturating_sub (saturating_add n k) 16384 = n + k - 16384"
proof -
  have "i64_clip (n + k) = n + k" "i64_clip (n + k - 16384) = n + k - 16384"
    using assms by (simp_all add: i64_clip_def i64_min_def i64_max_def)
  then show ?thesis by (simp add: saturating_sub_def saturating_add_def)
qed

lemma removed_oldest_iff:
  assumes "distinct (map ib_input_id rows)" and "set xs \<subseteq> set rows" and "r \<in> set rows"
  shows "removed_input r \<in> set (map removed_input xs) \<longleftrightarrow> r \<in> set xs"
  using in_removed_oldest [OF assms] by (auto simp: in_removed_def removed_input_def)

lemma delete_oldest_step:
  assumes "distinct (map ib_input_id (t_inbox db))" and "delete_oldest db cutoff n = (db', removed)"
  shows "same_frame db db'" and "set (t_inbox db') \<subseteq> set (t_inbox db)"
    and "distinct (map ib_input_id (t_inbox db'))"
    and "r \<in> set (t_inbox db) \<Longrightarrow> r \<notin> set (t_inbox db') \<longleftrightarrow> removed_input r \<in> set removed"
proof -
  have sub: "set (oldest_inputs db cutoff n) \<subseteq> set (t_inbox db)"
    using oldest_inputs_subset by blast
  show "same_frame db db'" by (rule delete_oldest_inbox(3) [OF assms])
  show "set (t_inbox db') \<subseteq> set (t_inbox db)"
    unfolding delete_oldest_inbox(1) [OF assms] by auto
  show "distinct (map ib_input_id (t_inbox db'))" by (rule distinct_delete_oldest [OF assms])
  show "r \<notin> set (t_inbox db') \<longleftrightarrow> removed_input r \<in> set removed" if "r \<in> set (t_inbox db)"
    using removed_oldest_iff [OF assms(1) sub that] that
    unfolding delete_oldest_inbox(1,2) [OF assms] by simp
qed

lemma make_room_frame:
  assumes d: "distinct (map ib_input_id (t_inbox db))" and m: "make_room db k now = Inr (db', removed)"
  shows "same_frame db db'" and "set (t_inbox db') \<subseteq> set (t_inbox db)"
    and "distinct (map ib_input_id (t_inbox db'))"
    and "r \<in> set (t_inbox db) \<Longrightarrow> r \<notin> set (t_inbox db') \<Longrightarrow> removed_input r \<in> set removed"
proof -
  from m have "same_frame db db' \<and> set (t_inbox db') \<subseteq> set (t_inbox db)
    \<and> distinct (map ib_input_id (t_inbox db'))
    \<and> (r \<in> set (t_inbox db) \<and> r \<notin> set (t_inbox db') \<longrightarrow> removed_input r \<in> set removed)"
  proof (cases rule: make_room_cases)
    case (1 db1 rem1)
    note s1 = delete_oldest_step [OF d 1(2)]
    from 1(3) show ?thesis
    proof (elim disjE exE conjE)
      fix rem2
      assume del: "delete_oldest db1 None (nat (saturating_sub
          (saturating_add (int (length (t_inbox db1))) (int k)) 16384)) = (db', rem2)"
        and rem: "removed = rem1 @ rem2"
      note s2 = delete_oldest_step [OF s1(3) del]
      show ?thesis
        using s1 s2 rem same_frame_trans [OF s1(1) s2(1)] by auto
    qed (use s1 in auto)
  qed
  then show "same_frame db db'" "set (t_inbox db') \<subseteq> set (t_inbox db)"
    "distinct (map ib_input_id (t_inbox db'))"
    "r \<in> set (t_inbox db) \<Longrightarrow> r \<notin> set (t_inbox db') \<Longrightarrow> removed_input r \<in> set removed"
    by blast+
qed

lemma make_room_length:
  assumes d: "distinct (map ib_input_id (t_inbox db))" and m: "make_room db k now = Inr (db', removed)"
    and len: "length (t_inbox db) \<le> 16384"
  shows "length (t_inbox db') + k \<le> 16384"
  using make_room_cases [OF m]
proof (cases rule: make_room_cases [OF m])
  case (1 db1 rem1)
  have d1: "distinct (map ib_input_id (t_inbox db1))"
    by (rule distinct_delete_oldest [OF d 1(2)])
  have len1: "length (t_inbox db1) \<le> 16384"
    unfolding delete_oldest_inbox(1) [OF d 1(2)] using len
    by (meson length_filter_le order_trans)
  have exc: "saturating_sub (saturating_add (int (length (t_inbox db1))) (int k)) 16384 =
      int (length (t_inbox db1)) + int k - 16384"
    using len1 1(1) by (intro saturating_excess) auto
  from 1(3) show ?thesis
  proof (elim disjE exE conjE)
    fix rem2
    assume "delete_oldest db1 None (nat (saturating_sub
        (saturating_add (int (length (t_inbox db1))) (int k)) 16384)) = (db', rem2)"
    from length_delete_oldest_None [OF d1 this] show ?thesis
      using 1(1) len1 unfolding exc by linarith
  qed (use len1 exc 1(1) in auto)
qed

text \<open>
  C26. Making room for \<open>k\<close> records leaves at most 16384 records including them; a record that is
  removed is past its retention of 48 hours or, when there is something to insert, not newer than
  any record that stays; and every removed record is reported.
\<close>

theorem eviction_is_oldest_first:
  assumes d: "distinct (map ib_input_id (t_inbox db))" and len: "length (t_inbox db) \<le> 16384"
    and m: "make_room db k now = Ok (db', removed)"
  shows "length (t_inbox db') + k \<le> 16384 \<and> set (t_inbox db') \<subseteq> set (t_inbox db)
    \<and> (\<forall>r\<in>set (t_inbox db). r \<notin> set (t_inbox db') \<longrightarrow>
         removed_input r \<in> set removed
       \<and> (ib_created_at r \<le> saturating_sub now (48 * 60 * 60)
          \<or> 0 < k \<and> (\<forall>s\<in>set (t_inbox db'). (ib_created_at r, ib_input_id r)
                                          \<le> (ib_created_at s, ib_input_id s))))"
proof -
  have "ib_created_at r \<le> saturating_sub now (48 * 60 * 60)
      \<or> 0 < k \<and> (\<forall>s\<in>set (t_inbox db'). (ib_created_at r, ib_input_id r) \<le> (ib_created_at s, ib_input_id s))"
    if r: "r \<in> set (t_inbox db)" "r \<notin> set (t_inbox db')" for r
    using m
  proof (cases rule: make_room_cases)
    case (1 db1 rem1)
    note s1 = delete_oldest_step [OF d 1(2)]
    show ?thesis
    proof (cases "r \<in> set (t_inbox db1)")
      case False
      then have "r \<in> set (oldest_inputs db (Some (saturating_sub now RETENTION_SECONDS))
          SYNC_CLEANUP_BATCH_SIZE)"
        using r unfolding delete_oldest_inbox(1) [OF d 1(2)] by auto
      then have "ib_created_at r \<le> saturating_sub now RETENTION_SECONDS"
        using oldest_inputs_subset by fastforce
      then show ?thesis by (simp add: RETENTION_SECONDS_def)
    next
      case True
      with 1(3) r obtain n rem2 where k: "0 < k" and del: "delete_oldest db1 None n = (db', rem2)"
        by auto
      have "(ib_created_at r, ib_input_id r) \<le> (ib_created_at s, ib_input_id s)"
        if "s \<in> set (t_inbox db')" for s
      proof -
        have "r \<in> set (oldest_inputs db1 None n)" "s \<in> set (t_inbox db1)"
          "s \<notin> set (oldest_inputs db1 None n)"
          using True r that unfolding delete_oldest_inbox(1) [OF s1(3) del] by auto
        then show ?thesis unfolding oldest_inputs_def by (intro order_limit_least) auto
      qed
      with k show ?thesis by blast
    qed
  qed
  then show ?thesis
    using make_room_length [OF d m len] make_room_frame(2,4) [OF d m] by blast
qed

section \<open>Receiving a page\<close>

lemma insert_input_ok:
  assumes "insert_input x binding inst lane epoch now ev db = Inr db'"
  shows "\<exists>r. db' = db\<lparr>t_inbox := t_inbox db @ [r]\<rparr> \<and> inbox_unique (t_inbox db) r
    \<and> ib_owner_identity_id r = bd_owner_identity_id binding \<and> ib_lane r = lane
    \<and> ib_lane_epoch r = epoch \<and> ib_event_id r = ev_event_id ev \<and> ib_position r = ev_position ev
    \<and> ib_event_type r = ev_event_type ev \<and> ib_attempt_token r = None
    \<and> x_json_to_string x (ev_payload ev) = Some (ib_raw_payload_json r)"
  using assms unfolding insert_input_def inbox_insert_def
  by (auto simp: result_simps split: if_split_asm)

text \<open>The row under which an event is stored.\<close>

definition stored_as :: "string \<Rightarrow> string \<Rightarrow> string \<Rightarrow> InboxEvent \<Rightarrow> inbox_row \<Rightarrow> bool" where
  "stored_as owner lane epoch ev r \<longleftrightarrow>
     ib_owner_identity_id r = owner \<and> ib_lane r = lane \<and> ib_lane_epoch r = epoch
   \<and> ib_event_id r = ev_event_id ev \<and> ib_position r = ev_position ev"

lemma insert_inputs_ok:
  assumes "fold_result (insert_input x binding inst lane epoch now) evs db = Inr db'"
    and "distinct (map ib_input_id (t_inbox db))"
  shows "length (t_inbox db') = length (t_inbox db) + length evs
    \<and> set (t_inbox db) \<subseteq> set (t_inbox db') \<and> distinct (map ib_input_id (t_inbox db'))
    \<and> same_frame db db'
    \<and> (\<forall>ev\<in>set evs. \<exists>r\<in>set (t_inbox db'). stored_as (bd_owner_identity_id binding) lane epoch ev r)"
  using assms
proof (induction evs arbitrary: db)
  case (Cons ev evs)
  then obtain db1 where one: "insert_input x binding inst lane epoch now ev db = Inr db1"
    and rest: "fold_result (insert_input x binding inst lane epoch now) evs db1 = Inr db'"
    by (auto simp: result_simps)
  obtain r where db1: "db1 = db\<lparr>t_inbox := t_inbox db @ [r]\<rparr>" and u: "inbox_unique (t_inbox db) r"
    and st: "stored_as (bd_owner_identity_id binding) lane epoch ev r"
    using insert_input_ok [OF one] unfolding stored_as_def by blast
  have "distinct (map ib_input_id (t_inbox db1))"
    using Cons.prems(2) u by (auto simp: db1 inbox_unique_def exists_row_iff)
  note IH = Cons.IH [OF rest this]
  moreover have "same_frame db db1" by (simp add: db1 same_frame_def)
  ultimately show ?case
    using st same_frame_trans [of db db1 db'] by (auto simp: db1)
qed simp

lemma scan_event_ok:
  assumes "scan_event x db input ev (ids, ps, pend, d) = Inr t"
  shows "\<exists>dup. input_is_duplicate x db (bd_owner_identity_id (rb_binding input)) ''ordinary''
           (rb_stream_epoch input) ev = Inr dup
    \<and> t = (ev_event_id ev # ids, ev_position ev # ps, if dup then pend else pend @ [ev],
           if dup then Suc d else d)
    \<and> check_event input ev = Inr ()"
  using assms unfolding scan_event_def by (auto simp: result_simps split: if_split_asm)

lemma scan_events_ok:
  assumes "fold_result (scan_event x db input) evs (ids, ps, pend, d) = Inr (ids', ps', pend', d')"
  shows "\<exists>new. pend' = pend @ new \<and> d' + length new = d + length evs
    \<and> (\<forall>ev\<in>set evs. check_event input ev = Inr ()
         \<and> (ev \<in> set new \<or> input_is_duplicate x db (bd_owner_identity_id (rb_binding input)) ''ordinary''
              (rb_stream_epoch input) ev = Inr True))"
  using assms
proof (induction evs arbitrary: ids ps pend d)
  case (Cons ev evs)
  then obtain t where one: "scan_event x db input ev (ids, ps, pend, d) = Inr t"
    and rest: "fold_result (scan_event x db input) evs t = Inr (ids', ps', pend', d')"
    by (auto simp: result_simps)
  from scan_event_ok [OF one] obtain dup where
    dup: "input_is_duplicate x db (bd_owner_identity_id (rb_binding input)) ''ordinary''
           (rb_stream_epoch input) ev = Inr dup"
    and t: "t = (ev_event_id ev # ids, ev_position ev # ps, if dup then pend else pend @ [ev],
           if dup then Suc d else d)"
    and c: "check_event input ev = Inr ()" by blast
  from Cons.IH [OF rest [unfolded t]] dup c show ?case
    by (cases dup) auto
qed auto

lemma store_page_cases:
  assumes "store_page x db input now current = Inr (db', out)"
  obtains ids ps pending dups db1 removed db2 s where
    "fold_result (scan_event x db input) (rb_events input) ([], [], [], 0) = Inr (ids, ps, pending, dups)"
    "make_room db (length pending) now = Inr (db1, removed)"
    "fold_result (insert_input x (rb_binding input) (rb_client_instance_id input) ''ordinary''
       (rb_stream_epoch input) now) pending db1 = Inr db2"
    "advance_message_sync_state db2 (received_state input now current) = Inr (db', Ready s)"
    "out = \<lparr>ro_received = length pending, ro_duplicates = dups, ro_removed = removed\<rparr>"
  using assms unfolding store_page_def
  by (auto simp: result_simps split: prod.split_asm MessageSyncStateAccess.split_asm)
    (metis MessageSyncStateAccess.exhaust)+

lemma receive_cases:
  assumes "receive_ordinary x db input now = Inr (db', out)"
  obtains current where
    "load_message_sync_state db (bd_owner_identity_id (rb_binding input)) = Inr (Ready current)"
    "ss_stream_epoch current = rb_stream_epoch input"
    "ss_scan_seq current = rb_expected_scan_seq input"
    "dec_val (ss_scan_seq current) \<le> dec_val (rb_next_scan_seq input)"
    "store_page x db input now current = Inr (db', out)"
proof -
  let ?o = "bd_owner_identity_id (rb_binding input)"
  obtain a where a: "load_message_sync_state db ?o = Inr a"
    using assms unfolding receive_ordinary_def by (auto simp: result_simps split: if_split_asm)
  show thesis
  proof (cases a)
    case (Ready current)
    with assms a obtain ord where "ss_stream_epoch current = rb_stream_epoch input"
      "ss_scan_seq current = rb_expected_scan_seq input"
      "compare_decimal (rb_next_scan_seq input) (ss_scan_seq current) = Inr ord" "ord \<noteq> Less"
      "store_page x db input now current = Inr (db', out)"
      unfolding receive_ordinary_def by (auto simp: result_simps split: if_split_asm)
    with that a Ready show thesis by (auto simp: compare_decimal_eq_Inr not_less)
  next
    case (BootstrapRequired fence)
    with assms a show thesis
      unfolding receive_ordinary_def by (auto simp: result_simps split: if_split_asm)
  qed
qed

text \<open>What makes an event a duplicate: it is stored, or its receipt has the digest of its payload.\<close>

lemma duplicate_cases:
  assumes "input_is_duplicate x db owner lane epoch ev = Inr True"
  shows "(\<exists>r\<in>set (t_inbox db). stored_as owner lane epoch ev r)
    \<or> (\<exists>h. stored_payload_hash db owner lane epoch (ev_event_id ev) = Some h
         \<and> payload_hash x lane (ev_payload ev) = Inr h)"
proof (cases "select_row (\<lambda>r. ib_owner_identity_id r = owner \<and> ib_lane r = lane
          \<and> ib_lane_epoch r = epoch \<and> ib_event_id r = ev_event_id ev) (t_inbox db)")
  case (Some r)
  then have "r \<in> set (t_inbox db)" "ib_owner_identity_id r = owner \<and> ib_lane r = lane
          \<and> ib_lane_epoch r = epoch \<and> ib_event_id r = ev_event_id ev"
    by (auto dest: select_row_Some)
  moreover have "ib_position r = ev_position ev"
    using assms Some unfolding input_is_duplicate_def by (auto simp: result_simps split: if_split_asm)
  ultimately show ?thesis by (auto simp: stored_as_def)
next
  case None
  with assms show ?thesis
    unfolding input_is_duplicate_def
    by (auto simp: result_simps split: if_split_asm option.splits)
qed

text \<open>What a stored page has made of each of its events.\<close>

definition event_accounted ::
  "externs \<Rightarrow> sync_db \<Rightarrow> OrdinaryReceiveBatch \<Rightarrow> RemovedInput list \<Rightarrow> InboxEvent \<Rightarrow> bool" where
  "event_accounted x db input removed ev \<longleftrightarrow>
     (let owner = bd_owner_identity_id (rb_binding input) in
        (\<exists>r\<in>set (t_inbox db). stored_as owner ''ordinary'' (rb_stream_epoch input) ev r)
      \<or> (\<exists>h. stored_payload_hash db owner ''ordinary'' (rb_stream_epoch input) (ev_event_id ev) = Some h
           \<and> payload_hash x ''ordinary'' (ev_payload ev) = Inr h)
      \<or> (\<exists>m\<in>set removed. rm_event_id m = ev_event_id ev))"

lemma store_page_events:
  assumes d: "distinct (map ib_input_id (t_inbox db))"
    and page: "store_page x db input now current = Inr (db', out)"
  shows "ro_received out + ro_duplicates out = length (rb_events input)"
    and "ev \<in> set (rb_events input) \<Longrightarrow> event_accounted x db' input (ro_removed out) ev"
proof -
  let ?o = "bd_owner_identity_id (rb_binding input)"
  obtain ids ps pending dups db1 removed db2 s where
    scan: "fold_result (scan_event x db input) (rb_events input) ([], [], [], 0) =
        Inr (ids, ps, pending, dups)"
    and room: "make_room db (length pending) now = Inr (db1, removed)"
    and ins: "fold_result (insert_input x (rb_binding input) (rb_client_instance_id input) ''ordinary''
       (rb_stream_epoch input) now) pending db1 = Inr db2"
    and adv: "advance_message_sync_state db2 (received_state input now current) = Inr (db', Ready s)"
    and out: "out = \<lparr>ro_received = length pending, ro_duplicates = dups, ro_removed = removed\<rparr>"
    by (rule store_page_cases [OF page])
  note fr = make_room_frame [OF d room]
  note inserted = insert_inputs_ok [OF ins fr(3)]
  obtain rows where db': "db' = db2\<lparr>t_sync_states := rows\<rparr>"
    using advance_effect(5) [OF adv] by blast
  have "t_applied db' = t_applied db" "t_lane_applied db' = t_lane_applied db"
    using fr(1) inserted by (simp_all add: db' same_frame_def)
  then have hash: "stored_payload_hash db' ?o lane e i = stored_payload_hash db ?o lane e i" for lane e i
    by (simp add: stored_payload_hash_def)
  have cnt: "dups + length pending = length (rb_events input)"
    and each: "\<forall>ev\<in>set (rb_events input). check_event input ev = Inr ()
       \<and> (ev \<in> set pending \<or> input_is_duplicate x db ?o ''ordinary'' (rb_stream_epoch input) ev = Inr True)"
    using scan_events_ok [OF scan] by auto
  show "ro_received out + ro_duplicates out = length (rb_events input)"
    using cnt by (simp add: out)
  assume "ev \<in> set (rb_events input)"
  with each consider (new) "ev \<in> set pending"
    | (kept) r where "r \<in> set (t_inbox db)" "stored_as ?o ''ordinary'' (rb_stream_epoch input) ev r"
    | (completed) h where "stored_payload_hash db ?o ''ordinary'' (rb_stream_epoch input) (ev_event_id ev) = Some h"
        "payload_hash x ''ordinary'' (ev_payload ev) = Inr h"
    using duplicate_cases [of x db ?o "''ordinary''" "rb_stream_epoch input" ev] by blast
  then show "event_accounted x db' input (ro_removed out) ev"
  proof cases
    case new
    with inserted show ?thesis by (simp add: event_accounted_def Let_def db')
  next
    case (kept r)
    show ?thesis
    proof (cases "r \<in> set (t_inbox db1)")
      case True
      with kept inserted show ?thesis by (auto simp: event_accounted_def Let_def db')
    next
      case False
      with kept fr(4) have "removed_input r \<in> set removed" by blast
      with kept(2) show ?thesis
        by (force simp: event_accounted_def Let_def out removed_input_def stored_as_def)
    qed
  qed (simp add: event_accounted_def hash)
qed

lemma store_page_cursor:
  assumes "load_message_sync_state db (bd_owner_identity_id (rb_binding input)) = Inr (Ready current)"
    and "store_page x db input now current = Inr (db', out)"
  shows "load_message_sync_state db' (bd_owner_identity_id (rb_binding input)) =
           Inr (Ready (received_state input now current))"
proof -
  have "ss_owner_identity_id current = bd_owner_identity_id (rb_binding input)"
    using assms(1) by (auto simp: load_message_sync_state_eq_Ready load_message_sync_state_row_def
        dest: select_row_Some)
  moreover obtain db2 s where
    "advance_message_sync_state db2 (received_state input now current) = Inr (db', Ready s)"
    using store_page_cases [OF assms(2)] by metis
  ultimately show ?thesis
    using advance_effect(2) by (fastforce simp: received_state_def)
qed


section \<open>Witnesses\<close>

theorem eviction_is_oldest_first_witness:
  "\<exists>db' removed. make_room sample_received_db 1 200000 = Ok (db', removed)
     \<and> t_inbox db' = [] \<and> removed_input sample_row \<in> set removed"
proof -
  have room: "make_room sample_received_db 1 200000 =
      Ok (sample_received_db\<lparr>t_inbox := []\<rparr>, [removed_input sample_row])"
    by code_simp
  have inbox: "t_inbox sample_received_db = [sample_row]"
    by (simp add: sample_received_db_def)
  have "removed_input sample_row \<in> set [removed_input sample_row]"
    using eviction_is_oldest_first [OF _ _ room] inbox by simp
  with room show ?thesis by auto
qed


end
