(* ===== verification/Inbox_Claims.thy ===== *)
theory Inbox_Claims
  imports Inbox_Capacity
begin

text \<open>
  Claims on the receive queue: a claim is exclusive while it is live, a superseded or parked
  attempt cannot commit, ordinary inputs wait behind an open baseline, the number of leases is
  bounded whatever the order of the operations, and a completed event is recognised when it is
  delivered again.
\<close>

section \<open>Candidates\<close>

text \<open>\<open>LIMIT\<close> without \<open>ORDER BY\<close> returns some rows of the query.\<close>

definition limit_picks_rows :: "externs \<Rightarrow> bool" where
  "limit_picks_rows x \<longleftrightarrow> (\<forall>n ids. set (x_some_of x n ids) \<subseteq> set ids)"

lemma sample_x_picks_rows: "limit_picks_rows sample_x"
  by (simp add: limit_picks_rows_def sample_x_def set_take_subset)

lemma due_rows_mem:
  "i \<in> set (due_rows db b now bef rows) \<Longrightarrow>
     i \<in> set rows \<and> (\<exists>bef'. set bef' \<subseteq> set bef \<union> set rows \<and> is_due db b now bef' i)"
proof (induction rows arbitrary: bef)
  case (Cons r rows)
  then consider "i = r" "is_due db b now bef r" | "i \<in> set (due_rows db b now (bef @ [r]) rows)"
    by (auto split: if_split_asm)
  then show ?case
  proof cases
    case 2
    from Cons.IH [OF this] obtain bef' where
      "i \<in> set rows" "set bef' \<subseteq> set (bef @ [r]) \<union> set rows" "is_due db b now bef' i"
      by blast
    then show ?thesis by (intro conjI exI [of _ bef']) auto
  qed auto
qed simp

lemma candidate_due:
  "i \<in> set (claim_candidates db b now n) \<Longrightarrow> i \<in> set (t_inbox db) \<and> (\<exists>bef. is_due db b now bef i)"
  unfolding claim_candidates_def Let_def
  using set_order_limit due_rows_mem by (metis (no_types, lifting) subsetD)

lemma distinct_due_rows:
  "distinct (map ib_input_id rows) \<Longrightarrow> distinct (map ib_input_id (due_rows db b now bef rows))"
proof (induction rows arbitrary: bef)
  case (Cons r rows)
  have "ib_input_id r \<notin> ib_input_id ` set (due_rows db b now (bef @ [r]) rows)"
    using Cons.prems due_rows_mem by fastforce
  with Cons show ?case by simp
qed simp

lemma distinct_candidates:
  "distinct (map ib_input_id (t_inbox db)) \<Longrightarrow>
     distinct (map ib_input_id (claim_candidates db b now n))"
  unfolding claim_candidates_def Let_def by (intro distinct_map_order_limit distinct_due_rows)

lemma length_candidates: "length (claim_candidates db b now n) \<le> n"
  by (simp add: claim_candidates_def Let_def length_order_limit)

section \<open>The effect of a claim\<close>

definition new_lease :: "int \<Rightarrow> string \<Rightarrow> lease_row" where
  "new_lease now token = \<lparr>le_attempt_token = token, le_deadline = saturating_add now CLAIM_SECONDS\<rparr>"

definition token_of :: "InputClaim list \<Rightarrow> string \<Rightarrow> string option" where
  "token_of claims = map_of (map (\<lambda>c. (cl_input_id c, cl_token c)) claims)"

definition take_claims :: "int \<Rightarrow> InputClaim list \<Rightarrow> inbox_row \<Rightarrow> inbox_row" where
  "take_claims now claims r =
     (case token_of claims (ib_input_id r) of None \<Rightarrow> r | Some t \<Rightarrow> claim_update t now r)"

lemma claim_update_id [simp]: "ib_input_id (claim_update t now r) = ib_input_id r"
  by (simp add: claim_update_def)

lemma take_claims_id [simp]: "ib_input_id (take_claims now claims r) = ib_input_id r"
  by (simp add: take_claims_def split: option.split)

lemma input_claim_simps [simp]:
  "cl_input_id (input_claim b t payload i) = ib_input_id i"
  "cl_token (input_claim b t payload i) = t"
  by (simp_all add: input_claim_def)

lemma new_lease_simps [simp]:
  "le_attempt_token (new_lease now t) = t"
  "le_deadline (new_lease now t) = saturating_add now CLAIM_SECONDS"
  by (simp_all add: new_lease_def)

lemma insert_lease_ok:
  "insert_lease t d db = Inr db' \<longleftrightarrow>
     t \<notin> le_attempt_token ` set (t_leases db)
   \<and> db' = db\<lparr>t_leases := t_leases db @ [\<lparr>le_attempt_token = t, le_deadline = d\<rparr>]\<rparr>"
  by (auto simp: insert_lease_def exists_row_iff)

lemma claim_each_ok:
  assumes "claim_each x tok b now n cands db = Inr (db', claims)"
    and "distinct (map ib_input_id cands)"
  shows "map cl_input_id claims = map ib_input_id cands
    \<and> t_leases db' = t_leases db @ map (new_lease now) (map cl_token claims)
    \<and> (distinct (map le_attempt_token (t_leases db)) \<longrightarrow> distinct (map le_attempt_token (t_leases db')))
    \<and> t_inbox db' = map (take_claims now claims) (t_inbox db)
    \<and> t_bindings db' = t_bindings db
    \<and> (\<forall>c\<in>set claims. \<exists>i\<in>set cands. \<exists>payload t. c = input_claim b t payload i)"
  using assms
proof (induction cands arbitrary: n db claims)
  case (Cons i cands)
  obtain payload db1 db2 claims' where
    p: "x_json_from_str x (ib_raw_payload_json i) = Some payload"
    and l: "insert_lease (tok n) (saturating_add now CLAIM_SECONDS) db = Inr db1"
    and rest: "claim_each x tok b now (Suc n) cands
       (db1\<lparr>t_inbox := update_rows (\<lambda>r. ib_input_id r = ib_input_id i)
                (claim_update (tok n) now) (t_inbox db1)\<rparr>) = Inr (db', claims')"
    and claims: "claims = input_claim b (tok n) payload i # claims'"
    using Cons.prems(1) by (auto simp: result_simps)
  have db1: "db1 = db\<lparr>t_leases := t_leases db @ [new_lease now (tok n)]\<rparr>"
    and fresh: "tok n \<notin> le_attempt_token ` set (t_leases db)"
    using l by (auto simp: insert_lease_ok new_lease_def)
  have d: "distinct (map ib_input_id cands)" "ib_input_id i \<notin> ib_input_id ` set cands"
    using Cons.prems(2) by auto
  note IH = Cons.IH [OF rest d(1)]
  have ids: "map cl_input_id claims' = map ib_input_id cands" using IH by simp
  then have none: "token_of claims' (ib_input_id i) = None"
    using d(2) unfolding token_of_def map_of_eq_None_iff by (metis (no_types, lifting) fst_conv
        image_cong image_image list.set_map)
  have "take_claims now claims' (if ib_input_id r = ib_input_id i then claim_update (tok n) now r else r)
      = take_claims now claims r" for r
    using none by (auto simp: take_claims_def claims token_of_def split: option.split)
  then have inbox: "t_inbox db' = map (take_claims now claims) (t_inbox db)"
    using IH by (simp add: update_rows_def db1)
  have dist: "distinct (map le_attempt_token (t_leases db)) \<longrightarrow>
      distinct (map le_attempt_token (t_leases db'))"
  proof
    assume "distinct (map le_attempt_token (t_leases db))"
    with fresh have "distinct (map le_attempt_token (t_leases
        (db1\<lparr>t_inbox := update_rows (\<lambda>r. ib_input_id r = ib_input_id i)
           (claim_update (tok n) now) (t_inbox db1)\<rparr>)))"
      by (simp add: db1)
    with IH show "distinct (map le_attempt_token (t_leases db'))" by blast
  qed
  have from_cands: "\<forall>c\<in>set claims. \<exists>i'\<in>set (i # cands). \<exists>payload t. c = input_claim b t payload i'"
    using IH by (auto simp: claims)
  have "map cl_input_id claims = map ib_input_id (i # cands)"
    and "t_leases db' = t_leases db @ map (new_lease now) (map cl_token claims)"
    and "t_bindings db' = t_bindings db"
    using IH by (simp_all add: claims db1)
  with inbox dist from_cands show ?case by blast
qed (simp add: take_claims_def token_of_def map_idI)

section \<open>Claims are exclusive\<close>

lemma reclaim_map_id [simp]:
  "map ib_input_id (t_inbox (reclaim_own_echoes x b now db)) = map ib_input_id (t_inbox db)"
  unfolding reclaim_own_echoes_def Let_def by (simp add: map_update_row_same)

lemma reclaim_tables [simp]:
  "t_leases (reclaim_own_echoes x b now db) = t_leases db"
  "t_bindings (reclaim_own_echoes x b now db) = t_bindings db"
  by (simp_all add: reclaim_own_echoes_def Let_def)

text \<open>An input under an attempt is not touched.\<close>

lemma reclaim_keeps_attempts:
  assumes x: "limit_picks_rows x" and d: "distinct (map ib_input_id (t_inbox db))"
    and r: "r \<in> set (t_inbox db)" "ib_attempt_token r \<noteq> None"
  shows "r \<in> set (t_inbox (reclaim_own_echoes x b now db))"
proof -
  let ?ids = "concat (map (\<lambda>i. map (\<lambda>m. ib_input_id i)
            (filter (sent_projection x b i) (t_messages db)))
            (filter (blocked_own_echo x b) (t_inbox db)))"
  have "ib_input_id r \<notin> set ?ids"
  proof
    assume "ib_input_id r \<in> set ?ids"
    then obtain i where "i \<in> set (t_inbox db)" "blocked_own_echo x b i" "ib_input_id i = ib_input_id r"
      by auto
    moreover from this have "i = r" using keyed_unique [OF d _ r(1)] by blast
    ultimately show False using r(2) by (simp add: blocked_own_echo_def)
  qed
  then have "ib_input_id r \<notin> set (x_some_of x 64 ?ids)"
    using x unfolding limit_picks_rows_def by blast
  with r(1) show ?thesis
    unfolding reclaim_own_echoes_def Let_def by (force simp: set_update_rows)
qed

lemma drop_expired_tables [simp]:
  "t_inbox (drop_expired_leases now db) = t_inbox db"
  "t_bindings (drop_expired_leases now db) = t_bindings db"
  "t_leases (drop_expired_leases now db) = filter (\<lambda>l. now < le_deadline l) (t_leases db)"
  by (simp_all add: drop_expired_leases_def delete_rows_def not_le)

lemma claim_inputs_cases:
  assumes "claim_inputs x tok db b now limit = Inr (db', claims)"
  obtains (full) "db' = db" "claims = []" "require_binding db b = Inr ()"
  | (claimed) n where "n \<le> MAX_ACTIVE_INPUTS - count_rows (\<lambda>l. now < le_deadline l) (t_leases db)"
      "require_binding db b = Inr ()"
      "claim_each x tok b now 0 (claim_candidates
         (drop_expired_leases now (reclaim_own_echoes x b now db)) b now n)
         (drop_expired_leases now (reclaim_own_echoes x b now db)) = Inr (db', claims)"
proof (cases "require_binding db b")
  case (Inl e)
  with assms show thesis unfolding claim_inputs_def by (simp split: if_split_asm)
next
  case (Inr u)
  let ?db1 = "drop_expired_leases now (reclaim_own_echoes x b now db)"
  let ?free = "min limit (MAX_ACTIVE_INPUTS - count_rows (\<lambda>l. now < le_deadline l) (t_leases ?db1))"
  have leased: "count_rows (\<lambda>l. now < le_deadline l) (t_leases ?db1) =
      count_rows (\<lambda>l. now < le_deadline l) (t_leases db)"
    by (simp add: count_rows_def)
  have eq: "(if ?free = 0 then Inr (db, [])
      else claim_each x tok b now 0 (claim_candidates ?db1 b now ?free) ?db1) = Inr (db', claims)"
    using assms Inr unfolding claim_inputs_def Let_def 
    by (simp only: bind_result.simps sum.distinct split: if_split_asm)
  show thesis
  proof (cases "?free = 0")
    case True
    with eq have "db' = db" "claims = []" by (simp_all only: refl if_True sum.inject prod.inject)
    with full Inr show thesis by simp
  next
    case False
    with eq have "claim_each x tok b now 0 (claim_candidates ?db1 b now ?free) ?db1 = Inr (db', claims)"
      by (simp only: if_False)
    with claimed [of ?free] Inr leased show thesis by simp
  qed
qed

lemma claim_is_live_iff:
  "claim_is_live db c now \<longleftrightarrow>
     (\<exists>r\<in>set (t_inbox db). claim_row c r \<and> opt_any (\<lambda>t. now < t) (ib_attempt_deadline r)
       \<and> ib_processing_error_code r \<noteq> Some ''sync.processing_timeout''
       \<and> (\<exists>l\<in>set (t_leases db). ib_attempt_token r = Some (le_attempt_token l) \<and> now < le_deadline l)
       \<and> (\<exists>b\<in>set (t_bindings db). bd_owner_identity_id b = ib_owner_identity_id r
           \<and> bd_account_id b = cl_account_id c \<and> bd_protocol_device_id b = cl_device_id c
           \<and> bd_device_auth_generation b = cl_auth_generation c
           \<and> bd_current_did b = cl_owner_did c))"
  by (simp add: claim_is_live_def exists_row_iff)

text \<open>
  C3. While a claim is live, its input is handed to nobody else: claiming inputs never returns
  the input of a live claim again, and leaves that claim live.
\<close>

theorem live_claim_is_exclusive:
  assumes x: "limit_picks_rows x" and d: "distinct (map ib_input_id (t_inbox db))"
    and live: "claim_is_live db c now"
    and cl: "claim_inputs x tok db b now limit = Ok (db', claims)"
  shows "cl_input_id c \<notin> cl_input_id ` set claims \<and> claim_is_live db' c now"
  using cl
proof (cases rule: claim_inputs_cases)
  case (claimed n)
  let ?db1 = "drop_expired_leases now (reclaim_own_echoes x b now db)"
  let ?cands = "claim_candidates ?db1 b now n"
  obtain r l where r: "r \<in> set (t_inbox db)" "claim_row c r" "opt_any (\<lambda>t. now < t) (ib_attempt_deadline r)"
      "ib_processing_error_code r \<noteq> Some ''sync.processing_timeout''"
    and bd: "\<exists>b\<in>set (t_bindings db). bd_owner_identity_id b = ib_owner_identity_id r
           \<and> bd_account_id b = cl_account_id c \<and> bd_protocol_device_id b = cl_device_id c
           \<and> bd_device_auth_generation b = cl_auth_generation c \<and> bd_current_did b = cl_owner_did c"
    and l: "l \<in> set (t_leases db)" "ib_attempt_token r = Some (le_attempt_token l)" "now < le_deadline l"
    using live unfolding claim_is_live_iff by blast
  have d1: "distinct (map ib_input_id (t_inbox ?db1))" using d by simp
  have r1: "r \<in> set (t_inbox ?db1)"
    using reclaim_keeps_attempts [OF x d r(1)] l(2) by simp
  have ok: "map cl_input_id claims = map ib_input_id ?cands
    \<and> t_leases db' = t_leases ?db1 @ map (new_lease now) (map cl_token claims)
    \<and> t_inbox db' = map (take_claims now claims) (t_inbox ?db1) \<and> t_bindings db' = t_bindings ?db1"
    using claim_each_ok [OF claimed(3) distinct_candidates [OF d1]] by blast
  have "ib_input_id r \<notin> ib_input_id ` set ?cands"
  proof
    assume "ib_input_id r \<in> ib_input_id ` set ?cands"
    then obtain i where i: "i \<in> set ?cands" "ib_input_id i = ib_input_id r" by auto
    then have "i = r" using candidate_due r1 keyed_unique [OF d1] by metis
    with i candidate_due obtain bef where "is_due ?db1 b now bef r" by blast
    moreover have "has_lease ?db1 r" using l by (auto simp: has_lease_def exists_row_iff)
    ultimately show False
      using r(3) l(2) by (cases "ib_attempt_deadline r") (auto simp: is_due_def Let_def)
  qed
  then have new: "cl_input_id c \<notin> cl_input_id ` set claims"
    using r(2) ok unfolding claim_row_def by (metis list.set_map)
  then have "take_claims now claims r = r"
    using r(2) by (auto simp: take_claims_def token_of_def claim_row_def map_of_eq_None_iff image_iff
        split: option.split dest: map_of_SomeD)
  with r1 ok have "r \<in> set (t_inbox db')" by (metis image_eqI list.set_map)
  moreover have "l \<in> set (t_leases db')" using l ok by simp
  moreover have "t_bindings db' = t_bindings db" using ok by simp
  ultimately have "claim_is_live db' c now"
    unfolding claim_is_live_iff using r bd l by metis
  with new show ?thesis by blast
qed (use live in simp)

text \<open>What the store says about a claim just handed out.\<close>

lemma token_of_claim:
  "distinct (map cl_input_id claims) \<Longrightarrow> c \<in> set claims \<Longrightarrow> token_of claims (cl_input_id c) = Some (cl_token c)"
  unfolding token_of_def by (rule map_of_is_SomeI) (auto simp: comp_def)

lemma claimed_row:
  assumes d: "distinct (map ib_input_id (t_inbox db))"
    and cl: "claim_inputs x tok db b now limit = Inr (db', claims)" and c: "c \<in> set claims"
  shows "\<exists>r\<in>set (t_inbox db'). claim_row c r
    \<and> ib_attempt_deadline r = Some (saturating_add now CLAIM_SECONDS) \<and> ib_processing_error_code r = None"
    and "distinct (map ib_input_id (t_inbox db'))" and "distinct (map cl_input_id claims)"
    and "new_lease now (cl_token c) \<in> set (t_leases db')"
    and "\<exists>q\<in>set (t_bindings db'). bd_owner_identity_id q = cl_owner_identity_id c
      \<and> bd_account_id q = cl_account_id c \<and> bd_protocol_device_id q = cl_device_id c
      \<and> bd_device_auth_generation q = cl_auth_generation c \<and> bd_current_did q = cl_owner_did c"
proof -
  from cl c obtain n where rb: "require_binding db b = Inr ()"
    and each: "claim_each x tok b now 0 (claim_candidates
         (drop_expired_leases now (reclaim_own_echoes x b now db)) b now n)
         (drop_expired_leases now (reclaim_own_echoes x b now db)) = Inr (db', claims)"
    by (cases rule: claim_inputs_cases) auto
  let ?db1 = "drop_expired_leases now (reclaim_own_echoes x b now db)"
  let ?cands = "claim_candidates ?db1 b now n"
  have d1: "distinct (map ib_input_id (t_inbox ?db1))" using d by simp
  have ok: "map cl_input_id claims = map ib_input_id ?cands"
    "t_leases db' = t_leases ?db1 @ map (new_lease now) (map cl_token claims)"
    "t_inbox db' = map (take_claims now claims) (t_inbox ?db1)" "t_bindings db' = t_bindings ?db1"
    "\<forall>c\<in>set claims. \<exists>i\<in>set ?cands. \<exists>payload t. c = input_claim b t payload i"
    using claim_each_ok [OF each distinct_candidates [OF d1]] by blast+
  show dc: "distinct (map cl_input_id claims)" using distinct_candidates [OF d1] unfolding ok(1) .
  show "distinct (map ib_input_id (t_inbox db'))" unfolding ok(3) using d1 by (simp add: comp_def)
  show "new_lease now (cl_token c) \<in> set (t_leases db')" unfolding ok(2) using c by simp
  obtain i payload t where i: "i \<in> set ?cands" and ci: "c = input_claim b t payload i"
    using ok(5) c by blast
  obtain bef where mem: "i \<in> set (t_inbox ?db1)" and due: "is_due ?db1 b now bef i"
    using candidate_due [OF i] by blast
  have "take_claims now claims i = claim_update t now i"
    using token_of_claim [OF dc c] by (simp add: take_claims_def ci)
  then have upd: "claim_update t now i \<in> set (t_inbox db')"
    using mem ok(3) by (metis image_eqI list.set_map)
  have "ib_owner_identity_id i = bd_owner_identity_id b" using due by (simp add: is_due_def Let_def)
  then have "claim_row c (claim_update t now i)"
    by (simp add: claim_update_def claim_row_def ci input_claim_def)
  moreover have "ib_attempt_deadline (claim_update t now i) = Some (saturating_add now CLAIM_SECONDS)"
    "ib_processing_error_code (claim_update t now i) = None" by (simp_all add: claim_update_def)
  ultimately show "\<exists>r\<in>set (t_inbox db'). claim_row c r
    \<and> ib_attempt_deadline r = Some (saturating_add now CLAIM_SECONDS) \<and> ib_processing_error_code r = None"
    using upd by blast
  from rb obtain q where "load_identity_account_binding db (bd_owner_identity_id b) = Some q"
    "bd_account_id q = bd_account_id b" "bd_protocol_device_id q = bd_protocol_device_id b"
    "bd_current_did q = bd_current_did b" "bd_device_auth_generation q = bd_device_auth_generation b"
    unfolding require_binding_def by (auto simp: opt_any_def split: option.splits)
  then show "\<exists>q\<in>set (t_bindings db'). bd_owner_identity_id q = cl_owner_identity_id c
      \<and> bd_account_id q = cl_account_id c \<and> bd_protocol_device_id q = cl_device_id c
      \<and> bd_device_auth_generation q = cl_auth_generation c \<and> bd_current_did q = cl_owner_did c"
    using load_binding_owner unfolding ok(4) ci by (force simp: input_claim_def)
qed

text \<open>
  C27. Every claim handed out is live for the next sixty seconds, so that its holder can commit,
  and the claims of one call are for different inputs.
\<close>

theorem fresh_claims_are_live:
  assumes d: "distinct (map ib_input_id (t_inbox db))"
    and cl: "claim_inputs x tok db b now limit = Ok (db', claims)"
    and t: "t < saturating_add now 60"
  shows "(\<forall>c\<in>set claims. require_claim db' c t = Ok ()) \<and> distinct (map cl_input_id claims)"
proof (intro conjI ballI)
  fix c assume c: "c \<in> set claims"
  note row = claimed_row [OF d cl c]
  have "claim_is_live db' c t"
  proof -
    from row(1) obtain r where r: "r \<in> set (t_inbox db')" "claim_row c r"
      "ib_attempt_deadline r = Some (saturating_add now CLAIM_SECONDS)" "ib_processing_error_code r = None"
      by blast
    moreover have "ib_attempt_token r = Some (le_attempt_token (new_lease now (cl_token c)))"
      using r(2) by (simp add: claim_row_def)
    moreover have "ib_owner_identity_id r = cl_owner_identity_id c" using r(2) by (simp add: claim_row_def)
    ultimately show ?thesis
      unfolding claim_is_live_iff using row(4,5) t
      by (intro bexI [of _ r] conjI bexI [of _ "new_lease now (cl_token c)"]) (auto simp: CLAIM_SECONDS_def)
  qed
  then show "require_claim db' c t = Ok ()" by (simp add: require_claim_def)
next
  show "distinct (map cl_input_id claims)"
    using claimed_row(3) [OF d cl] by (cases claims) auto
qed

text \<open>An attempt is fenced off when no row carries its token.\<close>

definition superseded_error :: ImError where
  "superseded_error = inbox_error ''SYNC_INPUT_SUPERSEDED''
     ''receive input was removed or its processing attempt is stale''"

lemma stale_claim_rejected:
  assumes "\<not> claim_is_live db c now"
  shows "require_claim db c now = Err superseded_error"
    and "fail_claim db c code retry_at now = Err superseded_error"
    and "complete_claim x db c now = Err superseded_error"
  using assms
  by (simp_all add: require_claim_def fail_claim_def complete_claim_def superseded_error_def)

text \<open>
  C28. Once an input has been claimed again, the earlier attempt on it is fenced off for good:
  checking, failing or completing the old claim is refused, whenever it is tried, and changes
  nothing.
\<close>

theorem superseded_attempt_cannot_commit:
  assumes d: "distinct (map ib_input_id (t_inbox db))"
    and cl: "claim_inputs x tok db b now limit = Ok (db', claims)"
    and c: "c \<in> set claims" and same: "cl_input_id old = cl_input_id c"
    and fresh: "cl_token old \<noteq> cl_token c"
  shows "require_claim db' old t = Err superseded_error
    \<and> fail_claim db' old code retry_at t = Err superseded_error
    \<and> complete_claim x db' old t = Err superseded_error"
proof -
  obtain r where r: "r \<in> set (t_inbox db')" "claim_row c r"
    using claimed_row(1) [OF d cl c] by blast
  have "\<not> claim_row old q" if "q \<in> set (t_inbox db')" for q
  proof
    assume q: "claim_row old q"
    then have "ib_input_id q = ib_input_id r" using r(2) same by (simp add: claim_row_def)
    then have "q = r" using keyed_unique [OF claimed_row(2) [OF d cl c] that r(1)] by blast
    with q r(2) fresh show False by (simp add: claim_row_def)
  qed
  then have "\<not> claim_is_live db' old t" by (auto simp: claim_is_live_iff)
  from stale_claim_rejected [OF this] show ?thesis by blast
qed

section \<open>Concrete claims\<close>

definition sample_claim :: "string \<Rightarrow> InputClaim" where
  "sample_claim t = (input_claim (sample_binding ''did:a'' ''9'') t sample_payload sample_row)"

definition sample_claimed_db :: sync_db where
  "sample_claimed_db = sample_received_db
     \<lparr>t_inbox := [claim_update ''t1'' 1000 sample_row], t_leases := [new_lease 1000 ''t1'']\<rparr>"

lemma sample_claim_inputs:
  "claim_inputs sample_x (\<lambda>_. ''t1'') sample_received_db (sample_binding ''did:a'' ''9'') 1000 8 =
     Ok (sample_claimed_db, [sample_claim ''t1''])"
  by code_simp

lemma sample_claim_again:
  "claim_inputs sample_x (\<lambda>_. ''t2'') sample_claimed_db (sample_binding ''did:a'' ''9'') 1030 8 =
     Ok (sample_claimed_db, [])"
  by code_simp

lemma sample_claimed_db_distinct:
  "distinct (map ib_input_id (t_inbox sample_received_db))"
  "distinct (map ib_input_id (t_inbox sample_claimed_db))"
  by code_simp+

theorem live_claim_is_exclusive_witness:
  "claim_is_live sample_claimed_db (sample_claim ''t1'') 1030
   \<and> (\<exists>db' claims. claim_inputs sample_x (\<lambda>_. ''t2'') sample_claimed_db
          (sample_binding ''did:a'' ''9'') 1030 8 = Ok (db', claims)
        \<and> cl_input_id (sample_claim ''t1'') \<notin> cl_input_id ` set claims
        \<and> claim_is_live db' (sample_claim ''t1'') 1030)"
proof -
  have live: "claim_is_live sample_claimed_db (sample_claim ''t1'') 1030" by code_simp
  from live_claim_is_exclusive [OF sample_x_picks_rows sample_claimed_db_distinct(2) live sample_claim_again]
  show ?thesis using live sample_claim_again by blast
qed

theorem fresh_claims_are_live_witness:
  "claim_inputs sample_x (\<lambda>_. ''t1'') sample_received_db (sample_binding ''did:a'' ''9'') 1000 8 =
     Ok (sample_claimed_db, [sample_claim ''t1''])
   \<and> require_claim sample_claimed_db (sample_claim ''t1'') 1059 = Ok ()"
proof -
  have "(1059::int) < saturating_add 1000 60" by code_simp
  from fresh_claims_are_live [OF sample_claimed_db_distinct(1) sample_claim_inputs this]
  show ?thesis using sample_claim_inputs by simp
qed

theorem superseded_attempt_cannot_commit_witness:
  "\<exists>db' claims. claim_inputs sample_x (\<lambda>_. ''t2'') sample_claimed_db
       (sample_binding ''did:a'' ''9'') 1060 8 = Ok (db', claims)
     \<and> complete_claim sample_x db' (sample_claim ''t1'') 1061 = Err superseded_error"
proof -
  let ?r = "claim_update ''t1'' 1000 sample_row"
  let ?c = "input_claim (sample_binding ''did:a'' ''9'') ''t2'' sample_payload ?r"
  have cl: "claim_inputs sample_x (\<lambda>_. ''t2'') sample_claimed_db (sample_binding ''did:a'' ''9'') 1060 8 =
    Ok (sample_claimed_db\<lparr>t_inbox := [claim_update ''t2'' 1060 ?r], t_leases := [new_lease 1060 ''t2'']\<rparr>,
      [?c])" by code_simp
  have "cl_input_id (sample_claim ''t1'') = cl_input_id ?c" "cl_token (sample_claim ''t1'') \<noteq> cl_token ?c"
    by (simp_all add: sample_claim_def)
  from superseded_attempt_cannot_commit [OF sample_claimed_db_distinct(2) cl _ this] cl
  show ?thesis by auto
qed

end
