(* ===== verification/Inbox_Protocol.thy ===== *)
theory Inbox_Protocol
  imports Inbox_Claims
begin

text \<open>
  The operations of the receive queue as steps of one store, in any order and by any number of
  processors: the invariant of the queue and its leases, and the life of one input from its claim
  to its completion and a later redelivery.
\<close>

section \<open>Steps\<close>

inductive inbox_step :: "externs \<Rightarrow> sync_db \<Rightarrow> sync_db \<Rightarrow> bool" for x where
  receive: "receive_ordinary x db input now = Ok (db', out) \<Longrightarrow> inbox_step x db db'"
| claim: "claim_inputs x tok db b now limit = Ok (db', claims) \<Longrightarrow> inbox_step x db db'"
| fail: "fail_claim db c code retry_at now = Ok db' \<Longrightarrow> inbox_step x db db'"
| park: "park_timeout db c now = (db', parked) \<Longrightarrow> inbox_step x db db'"
| release: "release_timeout db c retry_at = (db', released) \<Longrightarrow> inbox_step x db db'"
| renew: "db' = renew_claims db cs now \<Longrightarrow> inbox_step x db db'"
| reserve: "reserve_processing_slot t db now = Ok (db', slot) \<Longrightarrow> inbox_step x db db'"
| free: "db' = release_processing_slot t db \<Longrightarrow> inbox_step x db db'"
| renew_slots: "db' = renew_processing_slots db ts now \<Longrightarrow> inbox_step x db db'"
| complete: "complete_claim x db c now = Ok db' \<Longrightarrow> inbox_step x db db'"
| purge: "purge_expired db now n = Ok (db', removed) \<Longrightarrow> inbox_step x db db'"
| retry: "retry_event db owner ev now = Ok (db', changed) \<Longrightarrow> inbox_step x db db'"
| elsewhere: "t_inbox db' = t_inbox db \<Longrightarrow> t_leases db' = t_leases db \<Longrightarrow> inbox_step x db db'"

inductive inbox_run :: "externs \<Rightarrow> sync_db \<Rightarrow> sync_db \<Rightarrow> bool" for x db where
  start: "inbox_run x db db"
| step: "inbox_run x db db1 \<Longrightarrow> inbox_step x db1 db2 \<Longrightarrow> inbox_run x db db2"

section \<open>The invariant\<close>

text \<open>The columns of the unique constraints, which no update of the inbox sets.\<close>

definition row_key :: "inbox_row \<Rightarrow> string \<times> string \<times> string \<times> string \<times> string \<times> string" where
  "row_key r = (ib_input_id r, ib_owner_identity_id r, ib_lane r, ib_lane_epoch r, ib_event_id r,
     ib_position r)"

definition event_key :: "inbox_row \<Rightarrow> string \<times> string \<times> string \<times> string" where
  "event_key r = (ib_owner_identity_id r, ib_lane r, ib_lane_epoch r, ib_event_id r)"

definition position_key :: "inbox_row \<Rightarrow> string \<times> string \<times> string \<times> string" where
  "position_key r = (ib_owner_identity_id r, ib_lane r, ib_lane_epoch r, ib_position r)"

definition keys_ok :: "inbox_row list \<Rightarrow> bool" where
  "keys_ok rows \<longleftrightarrow> distinct (map ib_input_id rows) \<and> distinct (map event_key rows)
     \<and> distinct (map position_key rows)"

definition attempt_ok :: "inbox_row \<Rightarrow> bool" where
  "attempt_ok r \<longleftrightarrow> (ib_attempt_token r = None) = (ib_attempt_deadline r = None)"

definition inbox_ok :: "inbox_row list \<Rightarrow> bool" where
  "inbox_ok rows \<longleftrightarrow> keys_ok rows \<and> length rows \<le> 16384 \<and> (\<forall>r\<in>set rows. attempt_ok r)"

definition leases_ok :: "lease_row list \<Rightarrow> bool" where
  "leases_ok ls \<longleftrightarrow> distinct (map le_attempt_token ls) \<and> length ls \<le> 8"

lemma keys_ok_row_key:
  assumes "map row_key rows' = map row_key rows" and "keys_ok rows"
  shows "keys_ok rows'"
proof -
  have proj: "map ib_input_id rows = map (\<lambda>(i, _). i) (map row_key rows)"
    "map event_key rows = map (\<lambda>(_, o', l, e, v, _). (o', l, e, v)) (map row_key rows)"
    "map position_key rows = map (\<lambda>(_, o', l, e, _, p). (o', l, e, p)) (map row_key rows)" for rows
    by (simp_all add: row_key_def event_key_def position_key_def comp_def)
  show ?thesis using assms(2) unfolding keys_ok_def proj assms(1) .
qed

lemma inbox_ok_update:
  assumes "inbox_ok rows" and "\<And>r. P r \<Longrightarrow> row_key (f r) = row_key r"
    and "\<And>r. r \<in> set rows \<Longrightarrow> P r \<Longrightarrow> attempt_ok r \<Longrightarrow> attempt_ok (f r)"
  shows "inbox_ok (update_rows P f rows)"
proof -
  have "map row_key (update_rows P f rows) = map row_key rows"
    using assms(2) by (rule map_update_row_same)
  then show ?thesis
    using assms keys_ok_row_key unfolding inbox_ok_def by (auto simp: set_update_rows)
qed

lemma inbox_ok_filter:
  "inbox_ok rows \<Longrightarrow> inbox_ok (filter P rows)"
  unfolding inbox_ok_def keys_ok_def
  by (auto simp: distinct_map_filter intro: order_trans [OF length_filter_le])

lemma inbox_ok_delete: "inbox_ok rows \<Longrightarrow> inbox_ok (delete_rows P rows)"
  unfolding delete_rows_def by (rule inbox_ok_filter)

lemma keys_ok_append:
  "keys_ok rows \<Longrightarrow> inbox_unique rows r \<Longrightarrow> keys_ok (rows @ [r])"
  unfolding keys_ok_def inbox_unique_def exists_row_iff
  by (auto simp: event_key_def position_key_def)

lemma leases_ok_delete: "leases_ok ls \<Longrightarrow> leases_ok (delete_rows P ls)"
  unfolding leases_ok_def using length_delete_rows_le [of P ls]
  by (auto simp: distinct_map_delete_rows)

lemma leases_ok_update:
  assumes "leases_ok ls" and "\<And>l. P l \<Longrightarrow> le_attempt_token (f l) = le_attempt_token l"
  shows "leases_ok (update_rows P f ls)"
proof -
  have "map le_attempt_token (update_rows P f ls) = map le_attempt_token ls"
    using assms(2) by (rule map_update_row_same)
  with assms(1) show ?thesis by (simp add: leases_ok_def)
qed

section \<open>Every operation keeps it\<close>

definition inbox_inv :: "sync_db \<Rightarrow> bool" where
  "inbox_inv db \<longleftrightarrow> inbox_ok (t_inbox db) \<and> leases_ok (t_leases db)"

lemma inbox_inv_frame:
  "inbox_inv db \<Longrightarrow> t_leases db' = t_leases db \<Longrightarrow> inbox_ok (t_inbox db') \<Longrightarrow> inbox_inv db'"
  by (simp add: inbox_inv_def)

lemma delete_oldest_inv:
  assumes "inbox_inv db" and "delete_oldest db cutoff n = (db', removed)"
  shows "inbox_inv db'"
proof -
  have d: "distinct (map ib_input_id (t_inbox db))"
    using assms(1) by (simp add: inbox_inv_def inbox_ok_def keys_ok_def)
  show ?thesis
    using assms(1) delete_oldest_inbox [OF d assms(2)]
    by (auto simp: inbox_inv_def same_frame_def inbox_ok_filter)
qed

lemma make_room_inv:
  assumes "inbox_inv db" and "make_room db k now = Inr (db', removed)"
  shows "inbox_inv db'"
  using assms(2)
proof (cases rule: make_room_cases)
  case (1 db1 rem1)
  then have "inbox_inv db1" using delete_oldest_inv [OF assms(1)] by blast
  with 1(3) show ?thesis using delete_oldest_inv by blast
qed

lemma inserts_keep:
  assumes "fold_result (insert_input x b inst lane epoch now) evs db = Inr db'"
    and "keys_ok (t_inbox db)" and "\<forall>r\<in>set (t_inbox db). attempt_ok r"
  shows "keys_ok (t_inbox db') \<and> (\<forall>r\<in>set (t_inbox db'). attempt_ok r) \<and> t_leases db' = t_leases db"
  using assms(1)
proof (rule fold_result_invariant [where P = "\<lambda>d. keys_ok (t_inbox d)
      \<and> (\<forall>r\<in>set (t_inbox d). attempt_ok r) \<and> t_leases d = t_leases db"])
  show "keys_ok (t_inbox db) \<and> (\<forall>r\<in>set (t_inbox db). attempt_ok r) \<and> t_leases db = t_leases db"
    using assms by simp
next
  fix ev d d'
  assume inv: "keys_ok (t_inbox d) \<and> (\<forall>r\<in>set (t_inbox d). attempt_ok r) \<and> t_leases d = t_leases db"
    and ins: "insert_input x b inst lane epoch now ev d = Inr d'"
  obtain r where "d' = d\<lparr>t_inbox := t_inbox d @ [r]\<rparr>" "inbox_unique (t_inbox d) r" "inbox_checks x r"
    using ins unfolding insert_input_def inbox_insert_def by (auto simp: result_simps split: if_split_asm)
  then show "keys_ok (t_inbox d') \<and> (\<forall>r\<in>set (t_inbox d'). attempt_ok r) \<and> t_leases d' = t_leases db"
    using inv keys_ok_append by (auto simp: inbox_checks_def attempt_ok_def)
qed

lemma receive_inv:
  assumes inv: "inbox_inv db" and rcv: "receive_ordinary x db input now = Inr (db', out)"
  shows "inbox_inv db'"
proof -
  obtain cur where page: "store_page x db input now cur = Inr (db', out)"
    by (rule receive_cases [OF rcv])
  obtain ids ps pending dups db1 removed db2 s where
    room: "make_room db (length pending) now = Inr (db1, removed)"
    and ins: "fold_result (insert_input x (rb_binding input) (rb_client_instance_id input) ''ordinary''
       (rb_stream_epoch input) now) pending db1 = Inr db2"
    and adv: "advance_message_sync_state db2 (received_state input now cur) = Inr (db', Ready s)"
    by (rule store_page_cases [OF page])
  have inv1: "inbox_inv db1" by (rule make_room_inv [OF inv room])
  have d: "distinct (map ib_input_id (t_inbox db))" "length (t_inbox db) \<le> 16384"
    using inv by (simp_all add: inbox_inv_def inbox_ok_def keys_ok_def)
  have keep: "keys_ok (t_inbox db2) \<and> (\<forall>r\<in>set (t_inbox db2). attempt_ok r) \<and> t_leases db2 = t_leases db1"
    using inserts_keep [OF ins] inv1 by (simp add: inbox_inv_def inbox_ok_def)
  have "length (t_inbox db2) \<le> 16384"
    using insert_inputs_ok [OF ins make_room_frame(3) [OF d(1) room]] make_room_length [OF d(1) room d(2)]
    by simp
  moreover obtain rows where "db' = db2\<lparr>t_sync_states := rows\<rparr>"
    using advance_effect(5) [OF adv] by blast
  ultimately show ?thesis using keep inv1 by (simp add: inbox_inv_def inbox_ok_def)
qed

lemma row_key_update [simp]:
  "row_key (r\<lparr>ib_attempt_token := t\<rparr>) = row_key r" "row_key (r\<lparr>ib_attempt_deadline := d\<rparr>) = row_key r"
  "row_key (r\<lparr>ib_closed_at := c\<rparr>) = row_key r" "row_key (r\<lparr>ib_next_attempt_at := n\<rparr>) = row_key r"
  "row_key (r\<lparr>ib_processing_error_code := e\<rparr>) = row_key r" "row_key (claim_update t' now r) = row_key r"
  by (simp_all add: row_key_def claim_update_def)

lemma attempt_ok_update [simp]:
  "attempt_ok (r\<lparr>ib_next_attempt_at := n\<rparr>) = attempt_ok r"
  "attempt_ok (r\<lparr>ib_processing_error_code := e\<rparr>) = attempt_ok r"
  "attempt_ok (claim_update t now r)"
  by (simp_all add: attempt_ok_def claim_update_def)

lemma reclaim_inv: "inbox_inv db \<Longrightarrow> inbox_inv (reclaim_own_echoes x b now db)"
  by (rule inbox_inv_frame, assumption, simp)
    (auto simp: reclaim_own_echoes_def Let_def inbox_inv_def intro!: inbox_ok_update)

lemma drop_expired_inv: "inbox_inv db \<Longrightarrow> inbox_inv (drop_expired_leases now db)"
  by (simp add: inbox_inv_def drop_expired_leases_def leases_ok_delete)

lemma claim_inv:
  assumes inv: "inbox_inv db" and cl: "claim_inputs x tok db b now limit = Inr (db', claims)"
  shows "inbox_inv db'"
  using cl
proof (cases rule: claim_inputs_cases)
  case (claimed n)
  let ?db1 = "drop_expired_leases now (reclaim_own_echoes x b now db)"
  have inv1: "inbox_inv ?db1" by (intro drop_expired_inv reclaim_inv inv)
  then have d: "distinct (map ib_input_id (t_inbox ?db1))"
    unfolding inbox_inv_def inbox_ok_def keys_ok_def by blast
  have ok: "map cl_input_id claims = map ib_input_id (claim_candidates ?db1 b now n)
    \<and> t_leases db' = t_leases ?db1 @ map (new_lease now) (map cl_token claims)
    \<and> (distinct (map le_attempt_token (t_leases ?db1)) \<longrightarrow> distinct (map le_attempt_token (t_leases db')))
    \<and> t_inbox db' = map (take_claims now claims) (t_inbox ?db1)"
    using claim_each_ok [OF claimed(3) distinct_candidates [OF d]] by blast
  have len: "length claims \<le> n"
    using ok length_candidates [of ?db1 b now n] by (metis length_map)
  have key: "row_key (take_claims now claims r) = row_key r" for r
    by (simp add: take_claims_def split: option.split)
  have "map row_key (t_inbox db') = map row_key (t_inbox ?db1)"
    using ok key by simp
  then have "keys_ok (t_inbox db')"
    using inv1 keys_ok_row_key unfolding inbox_inv_def inbox_ok_def by blast
  moreover have "attempt_ok r \<Longrightarrow> attempt_ok (take_claims now claims r)" for r
    by (simp add: take_claims_def split: option.split)
  moreover have "t_inbox db' = map (take_claims now claims) (t_inbox ?db1)" using ok by blast
  ultimately have "inbox_ok (t_inbox db')"
    using inv1 unfolding inbox_inv_def inbox_ok_def by auto
  moreover have "leases_ok (t_leases db')"
  proof -
    have "length (t_leases db') \<le> length (t_leases ?db1) + n" using ok len by simp
    also have "length (t_leases ?db1) + n \<le> 8"
    proof -
      have "length (t_leases ?db1) = count_rows (\<lambda>l. now < le_deadline l) (t_leases db)"
        by (simp add: count_rows_def)
      moreover have "length (t_leases ?db1) \<le> 8"
        using inv1 by (simp add: inbox_inv_def leases_ok_def)
      ultimately show ?thesis using claimed(1) by (simp add: MAX_ACTIVE_INPUTS_def)
    qed
    finally show ?thesis using ok inv1 unfolding inbox_inv_def leases_ok_def by blast
  qed
  ultimately show ?thesis by (simp add: inbox_inv_def)
qed (use inv in simp)

lemma renew_lease_inv: "inbox_inv db \<Longrightarrow> inbox_inv (renew_lease now t db)"
  by (auto simp: inbox_inv_def renew_lease_def intro!: leases_ok_update)

lemma renew_claim_inv: "inbox_inv db \<Longrightarrow> inbox_inv (renew_claim now c db)"
  using renew_lease_inv [of db now "cl_token c"]
  by (auto simp: inbox_inv_def renew_claim_def Let_def attempt_ok_def claim_row_def
      intro!: inbox_ok_update)

lemma fold_inv:
  assumes "\<And>a d. inbox_inv d \<Longrightarrow> inbox_inv (f a d)" and "inbox_inv db"
  shows "inbox_inv (fold f as db)"
  using assms by (induction as arbitrary: db) auto

lemma fail_inv: "inbox_inv db \<Longrightarrow> fail_claim db c code retry_at now = Inr db' \<Longrightarrow> inbox_inv db'"
  by (auto simp: fail_claim_def result_simps release_claim_lease_def release_processing_slot_def
      inbox_inv_def attempt_ok_def intro!: inbox_ok_update leases_ok_delete)

lemma park_inv: "inbox_inv db \<Longrightarrow> park_timeout db c now = (db', p) \<Longrightarrow> inbox_inv db'"
  by (auto simp: park_timeout_def inbox_inv_def attempt_ok_def claim_row_def
      intro!: inbox_ok_update)

lemma release_inv: "inbox_inv db \<Longrightarrow> release_timeout db c retry_at = (db', p) \<Longrightarrow> inbox_inv db'"
  by (auto simp: release_timeout_def Let_def inbox_inv_def attempt_ok_def intro!: inbox_ok_update)

lemma reserve_inv: "inbox_inv db \<Longrightarrow> reserve_processing_slot t db now = Inr (db', s) \<Longrightarrow> inbox_inv db'"
  using drop_expired_inv [of db now]
  by (auto simp: reserve_processing_slot_def Let_def result_simps insert_lease_ok inbox_inv_def
      leases_ok_def MAX_ACTIVE_INPUTS_def split: if_split_asm)

lemma retry_inv: "inbox_inv db \<Longrightarrow> retry_event db owner ev now = Inr (db', n) \<Longrightarrow> inbox_inv db'"
  by (auto simp: retry_event_def Let_def inbox_inv_def split: if_split_asm intro!: inbox_ok_update)

lemma record_completion_frame:
  assumes "record_completion c h now db = Inr db'"
  shows "t_inbox db' = t_inbox db \<and> t_leases db' = t_leases db \<and> t_bindings db' = t_bindings db"
  using assms by (auto simp: record_completion_def upsert_lane_receipt_def
      split: if_split_asm option.split_asm)

lemma wake_scope_inv: "inbox_inv db \<Longrightarrow> inbox_inv (wake_scope c now db)"
  by (auto simp: wake_scope_def inbox_inv_def intro!: inbox_ok_update)

lemma complete_claim_cases:
  assumes "complete_claim x db c now = Inr db'"
  obtains hash db1 where "claim_is_live db c now" "payload_hash x (cl_lane c) (cl_payload c) = Inr hash"
    "record_completion c hash now db = Inr db1"
    "db' = inbox_delete (claim_row c) (wake_scope c now db1)"
  using assms by (auto simp: complete_claim_def require_claim_def result_simps)

lemma complete_inv:
  assumes "inbox_inv db" and "complete_claim x db c now = Inr db'"
  shows "inbox_inv db'"
  using assms(2)
proof (rule complete_claim_cases)
  fix hash db1
  assume rec: "record_completion c hash now db = Inr db1"
    and db': "db' = inbox_delete (claim_row c) (wake_scope c now db1)"
  have "inbox_inv db1" using record_completion_frame [OF rec] assms(1) by (simp add: inbox_inv_def)
  then have "inbox_inv (wake_scope c now db1)" by (rule wake_scope_inv)
  then show ?thesis by (simp add: db' inbox_inv_def inbox_delete_def Let_def inbox_ok_delete)
qed

lemma purge_inv: "inbox_inv db \<Longrightarrow> purge_expired db now n = Inr (db', removed) \<Longrightarrow> inbox_inv db'"
  by (auto simp: purge_expired_def split: if_split_asm dest: delete_oldest_inv)

lemma free_inv: "inbox_inv db \<Longrightarrow> inbox_inv (release_processing_slot t db)"
  by (simp add: inbox_inv_def release_processing_slot_def leases_ok_delete)

lemma inbox_step_inv: "inbox_step x db db' \<Longrightarrow> inbox_inv db \<Longrightarrow> inbox_inv db'"
proof (induction rule: inbox_step.induct)
  case (renew db' db cs now)
  then show ?case by (auto simp: renew_claims_def intro!: fold_inv renew_claim_inv)
next
  case (renew_slots db' db ts now)
  then show ?case by (auto simp: renew_processing_slots_def intro!: fold_inv renew_lease_inv)
next
  case (elsewhere db' db)
  then show ?case by (simp add: inbox_inv_def)
qed (auto dest: receive_inv claim_inv fail_inv park_inv release_inv reserve_inv complete_inv purge_inv
       retry_inv free_inv)

lemma inbox_run_inv: "inbox_run x db db' \<Longrightarrow> inbox_inv db \<Longrightarrow> inbox_inv db'"
  by (induction rule: inbox_run.induct) (auto dest: inbox_step_inv)

lemma empty_db_inv: "inbox_inv empty_db"
  by (simp add: inbox_inv_def inbox_ok_def keys_ok_def leases_ok_def empty_db_def)


section \<open>Parked attempts\<close>

lemma claimed_was_due:
  assumes cl: "claim_inputs x tok db b now limit = Inr (db', claims)" and c: "c \<in> set claims"
    and d: "distinct (map ib_input_id (t_inbox db))"
  obtains i pre post payload t where "c = input_claim b t payload i"
    "t_inbox (reclaim_own_echoes x b now db) = pre @ i # post"
    "is_due (drop_expired_leases now (reclaim_own_echoes x b now db)) b now pre i"
proof -
  have split: "\<exists>pre post. rows = pre @ i # post \<and> is_due d b now (bef @ pre) i"
    if "i \<in> set (due_rows d b now bef rows)" for i d bef rows
    using that
  proof (induction rows arbitrary: bef)
    case (Cons r rows)
    then consider "i = r" "is_due d b now bef r" | "i \<in> set (due_rows d b now (bef @ [r]) rows)"
      by (auto split: if_split_asm)
    then show ?case
    proof cases
      case 2
      from Cons.IH [OF this] obtain pre post where
        "rows = pre @ i # post" "is_due d b now (bef @ r # pre) i" by auto
      then show ?thesis by (intro exI [of _ "r # pre"] exI [of _ post]) simp
    qed (intro exI [of _ "[]"] exI [of _ rows], simp)
  qed simp
  let ?db1 = "drop_expired_leases now (reclaim_own_echoes x b now db)"
  from cl c obtain n where each: "claim_each x tok b now 0 (claim_candidates ?db1 b now n) ?db1
      = Inr (db', claims)"
    by (cases rule: claim_inputs_cases) auto
  have d1: "distinct (map ib_input_id (t_inbox ?db1))" using d by simp
  obtain i payload t where i: "i \<in> set (claim_candidates ?db1 b now n)" "c = input_claim b t payload i"
    using claim_each_ok [OF each distinct_candidates [OF d1]] c by blast
  have "i \<in> set (due_rows ?db1 b now [] (t_inbox ?db1))"
    using i(1) unfolding claim_candidates_def Let_def by (rule subsetD [OF set_order_limit])
  from split [OF this] obtain pre post where at: "t_inbox ?db1 = pre @ i # post" "is_due ?db1 b now pre i"
    by (simp only: append_Nil) blast
  show thesis by (rule that [OF i(2) _ at(2)]) (use at(1) in simp)
qed

lemma count_rows_pos: "0 < count_rows P rows \<longleftrightarrow> (\<exists>r\<in>set rows. P r)"
  by (induction rows) (auto simp: count_rows_def)

text \<open>
  C29. An attempt that was parked after its timeout cannot be committed any more, and as long as
  its lease lasts, that is until the work it started has stopped, its input is not handed out
  again.
\<close>

theorem parked_input_waits_for_its_lease:
  assumes x: "limit_picks_rows x" and d: "distinct (map ib_input_id (t_inbox db))"
    and park: "park_timeout db c now = (db', True)"
    and l: "exists_row (\<lambda>l. le_attempt_token l = cl_token c \<and> t < le_deadline l) (t_leases db)"
    and cl: "claim_inputs x tok db' b t limit = Ok (db2, claims)"
  shows "require_claim db' c t = Err superseded_error \<and> cl_input_id c \<notin> cl_input_id ` set claims"
proof -
  let ?park = "\<lambda>r. r\<lparr>ib_next_attempt_at := None, ib_processing_error_code := Some ''sync.processing_timeout'',
                 ib_attempt_deadline := Some (saturating_add now CLAIM_SECONDS), ib_closed_at := None\<rparr>"
  have db': "db' = db\<lparr>t_inbox := update_rows (claim_row c) ?park (t_inbox db)\<rparr>"
    and one: "count_rows (claim_row c) (t_inbox db) = 1"
    using park by (simp_all add: park_timeout_def)
  from one obtain r where r: "r \<in> set (t_inbox db)" "claim_row c r"
    using count_rows_pos [of "claim_row c" "t_inbox db"] by auto
  have pr: "?park r \<in> set (t_inbox db')"
    unfolding db' using r by (auto simp: set_update_rows intro!: image_eqI [of _ _ r])
  have d': "distinct (map ib_input_id (t_inbox db'))"
    using d by (simp add: db' map_update_row_same)
  have parked: "ib_processing_error_code q = Some ''sync.processing_timeout'' \<and> ib_next_attempt_at q = None"
    if "q \<in> set (t_inbox db')" "claim_row c q" for q
    using that by (auto simp: db' set_update_rows claim_row_def)
  have "\<not> claim_is_live db' c t" using parked by (auto simp: claim_is_live_iff)
  from stale_claim_rejected(1) [OF this] have 1: "require_claim db' c t = Err superseded_error" .
  have "cl_input_id c \<noteq> cl_input_id e" if e: "e \<in> set claims" for e
  proof
    assume same: "cl_input_id c = cl_input_id e"
    obtain i pre post payload u where ie: "e = input_claim b u payload i"
      and i: "t_inbox (reclaim_own_echoes x b t db') = pre @ i # post"
      and due: "is_due (drop_expired_leases t (reclaim_own_echoes x b t db')) b t pre i"
      by (rule claimed_was_due [OF cl e d'])
    have 1: "?park r \<in> set (t_inbox (reclaim_own_echoes x b t db'))"
      using reclaim_keeps_attempts [OF x d' pr] r(2) by (simp add: claim_row_def)
    have 2: "i \<in> set (t_inbox (reclaim_own_echoes x b t db'))" using i by simp
    have 3: "ib_input_id i = ib_input_id (?park r)" using same r(2) ie by (simp add: claim_row_def)
    have 4: "distinct (map ib_input_id (t_inbox (reclaim_own_echoes x b t db')))" using d' by simp
    have "i = ?park r" by (rule keyed_unique [where key = ib_input_id, OF 4 2 1 3])
    moreover have "has_lease (drop_expired_leases t (reclaim_own_echoes x b t db')) (?park r)"
      using l r(2) by (auto simp: has_lease_def exists_row_iff claim_row_def db')
    ultimately show False using due by (simp add: is_due_def Let_def opt_any_def)
  qed
  with 1 show ?thesis by auto
qed

section \<open>The baseline goes first\<close>

lemma baseline_open_reclaim:
  "select_row (baseline_open owner cutoff) (t_inbox (reclaim_own_echoes x b now db)) = None \<longleftrightarrow>
     select_row (baseline_open owner cutoff) (t_inbox db) = None"
  "map_option ib_input_id (select_row (baseline_open owner cutoff) (t_inbox (reclaim_own_echoes x b now db))) =
     map_option ib_input_id (select_row (baseline_open owner cutoff) (t_inbox db))"
  unfolding reclaim_own_echoes_def Let_def
  by (simp_all add: select_row_update_rows baseline_open_def option.map_comp comp_def if_distrib
      cong: if_cong)

text \<open>
  C30. While an input of the baseline is open, no ordinary input of that identity is claimed, and
  the only baseline input that can be claimed is the one that was stored first.
\<close>

theorem baseline_comes_first:
  assumes d: "distinct (map ib_input_id (t_inbox db))"
    and cl: "claim_inputs x tok db b now limit = Ok (db', claims)"
    and first: "select_row (baseline_open (bd_owner_identity_id b) (saturating_sub now RETENTION_SECONDS))
       (t_inbox db) = Some bl"
    and c: "c \<in> set claims"
  shows "cl_lane c \<noteq> ''ordinary'' \<and> (cl_lane c = ''baseline'' \<longrightarrow> cl_input_id c = ib_input_id bl)"
proof -
  let ?P = "baseline_open (bd_owner_identity_id b) (saturating_sub now RETENTION_SECONDS)"
  let ?db1 = "drop_expired_leases now (reclaim_own_echoes x b now db)"
  obtain i pre post payload t where ci: "c = input_claim b t payload i"
    and at: "t_inbox (reclaim_own_echoes x b now db) = pre @ i # post" and due: "is_due ?db1 b now pre i"
    by (rule claimed_was_due [OF cl c d])
  have owner: "ib_owner_identity_id i = bd_owner_identity_id b" "ib_closed_at i = None"
    "saturating_sub now RETENTION_SECONDS < ib_created_at i"
    using due by (simp_all add: is_due_def Let_def)
  have lane: "ib_lane i \<in> {''ordinary'', ''baseline''} \<longrightarrow>
      \<not> exists_row ?P (if ib_lane i = ''ordinary'' then pre @ i # post else pre)"
    using due unfolding is_due_def Let_def drop_expired_tables at owner(1) by argo
  have sel: "map_option ib_input_id (select_row ?P (pre @ i # post)) = Some (ib_input_id bl)"
    using baseline_open_reclaim(2) [of "bd_owner_identity_id b"] first unfolding at [symmetric] by simp
  from sel obtain q where "select_row ?P (pre @ i # post) = Some q" by blast
  from select_row_Some [OF this] have "exists_row ?P (pre @ i # post)" unfolding exists_row_iff by blast
  then have "ib_lane i \<noteq> ''ordinary''" using lane by auto
  moreover have "ib_input_id i = ib_input_id bl" if bl: "ib_lane i = ''baseline''"
  proof -
    have "select_row ?P pre = None" using lane bl by (simp add: exists_row_iff select_row_None)
    moreover have "?P i" using owner bl by (simp add: baseline_open_def)
    ultimately show ?thesis using sel by (simp add: select_row_append)
  qed
  ultimately show ?thesis by (simp add: ci input_claim_def)
qed

section \<open>Completion and redelivery\<close>

text \<open>What the event of a claim has in the receipts: the receipt the apply wrote (ordinary and
  baseline), or no receipt of another epoch (secure lanes, whose receipt is written here).\<close>

definition receipt_in_epoch :: "sync_db \<Rightarrow> InputClaim \<Rightarrow> bool" where
  "receipt_in_epoch db c \<longleftrightarrow>
     (if cl_lane c \<in> {''ordinary'', ''baseline''}
      then exists_row (\<lambda>a. ae_owner_identity_id a = cl_owner_identity_id c \<and> ae_event_id a = cl_event_id c
             \<and> ae_stream_epoch a = cl_lane_epoch c) (t_applied db)
      else list_all (\<lambda>a. la_owner_identity_id a = cl_owner_identity_id c \<and> la_event_id a = cl_event_id c
             \<and> lane_as_str (la_lane a) = cl_lane c \<longrightarrow> la_stream_epoch a = cl_lane_epoch c)
             (t_lane_applied db))"

lemma parse_lane_as_str [simp]: "parse_lane s = Some l \<longleftrightarrow> s = lane_as_str l"
  by (cases l) (auto simp: parse_lane_def)

lemma lane_as_str_inject [simp]: "lane_as_str l = lane_as_str k \<longleftrightarrow> l = k"
  by (cases l; cases k) simp_all

definition lane_receipt :: "InputClaim \<Rightarrow> string \<Rightarrow> int \<Rightarrow> SyncLaneV3 \<Rightarrow> lane_applied_row" where
  "lane_receipt c hash now lane =
     \<lparr>la_owner_identity_id = cl_owner_identity_id c, la_lane = lane, la_event_id = cl_event_id c,
      la_stream_epoch = cl_lane_epoch c, la_event_seq = cl_position c, la_group_did = cl_group_did c,
      la_group_event_seq = group_sequence c, la_applied_at = now, la_payload_hash = Some hash\<rparr>"

lemma completion_stores_hash:
  assumes rec: "record_completion c hash now db = Inr db'" and r: "receipt_in_epoch db c"
  shows "stored_payload_hash db' (cl_owner_identity_id c) (cl_lane c) (cl_lane_epoch c) (cl_event_id c)
    = Some hash"
proof (cases "cl_lane c \<in> {''ordinary'', ''baseline''}")
  case True
  let ?E = "\<lambda>a. ae_owner_identity_id a = cl_owner_identity_id c \<and> ae_event_id a = cl_event_id c
             \<and> ae_stream_epoch a = cl_lane_epoch c"
  have "exists_row ?E (t_applied db)" using r True by (simp add: receipt_in_epoch_def)
  then obtain a where a: "select_row ?E (t_applied db) = Some a"
    by (cases "select_row ?E (t_applied db)") (auto simp: select_row_None exists_row_iff)
  moreover have "?E a" using select_row_Some [OF a] by blast
  moreover have "db' = db\<lparr>t_applied := update_rows
      (\<lambda>a. ae_owner_identity_id a = cl_owner_identity_id c \<and> ae_event_id a = cl_event_id c)
      (\<lambda>a. a\<lparr>ae_payload_hash := Some hash\<rparr>) (t_applied db)\<rparr>"
    using rec True by (simp add: record_completion_def)
  ultimately show ?thesis
    using True by (simp add: stored_payload_hash_def select_row_update_rows)
next
  case False
  then obtain lane where lane: "cl_lane c = lane_as_str lane"
    and up: "upsert_lane_receipt (lane_receipt c hash now lane) db = Inr db'"
    using rec by (auto simp: record_completion_def lane_receipt_def split: option.split_asm)
  let ?new = "lane_receipt c hash now lane"
  let ?rows = "upsert_row lane_applied_key lane_applied_merge ?new (t_lane_applied db)"
  have db': "db' = db\<lparr>t_lane_applied := ?rows\<rparr>"
    using up by (simp add: upsert_lane_receipt_def split: if_split_asm)
  have epoch: "la_stream_epoch a = cl_lane_epoch c"
    if "a \<in> set ?rows" "lane_applied_key a = lane_applied_key ?new" for a
  proof -
    have old: "la_stream_epoch q = cl_lane_epoch c"
      if "q \<in> set (t_lane_applied db)" "lane_applied_key q = lane_applied_key ?new" for q
      using that r False by (simp add: receipt_in_epoch_def list_all_iff lane lane_applied_key_def lane_receipt_def)
    from subsetD [OF set_upsert_row that(1)] have "a = ?new \<or> a \<in> set (t_lane_applied db)
        \<or> (\<exists>q\<in>set (t_lane_applied db). lane_applied_key q = lane_applied_key ?new
             \<and> a = lane_applied_merge q ?new)" by blast
    then show ?thesis
    proof (elim disjE bexE conjE)
      fix q assume "q \<in> set (t_lane_applied db)" "lane_applied_key q = lane_applied_key ?new"
        "a = lane_applied_merge q ?new"
      with old show ?thesis by (simp add: lane_applied_merge_def)
    qed (use old that(2) in \<open>simp_all add: lane_receipt_def\<close>)
  qed
  have "select_row (\<lambda>a. la_owner_identity_id a = cl_owner_identity_id c
            \<and> lane_as_str (la_lane a) = cl_lane c \<and> la_event_id a = cl_event_id c
            \<and> la_stream_epoch a = cl_lane_epoch c) ?rows
      = select_row (\<lambda>a. lane_applied_key a = lane_applied_key ?new) ?rows"
    by (rule select_row_cong) (use epoch in \<open>auto simp: lane lane_applied_key_def lane_receipt_def\<close>)
  then show ?thesis
    using False unfolding db'
    by (simp add: stored_payload_hash_def lane_applied_table.lookup_upsert_same lane_applied_merge_def
        lane_receipt_def split: option.split)
qed

text \<open>The claim names the event and the position of its row.\<close>

definition claim_matches :: "InputClaim \<Rightarrow> inbox_row \<Rightarrow> bool" where
  "claim_matches c r \<longleftrightarrow> ib_lane r = cl_lane c \<and> ib_lane_epoch r = cl_lane_epoch c
     \<and> ib_event_id r = cl_event_id c \<and> ib_position r = cl_position c"

lemma wake_scope_rows:
  "map row_key (t_inbox (wake_scope c now db)) = map row_key (t_inbox db)"
  "r \<in> set (t_inbox (wake_scope c now db)) \<Longrightarrow>
     \<exists>q\<in>set (t_inbox db). row_key r = row_key q \<and> ib_attempt_token r = ib_attempt_token q"
  "t_applied (wake_scope c now db) = t_applied db" "t_lane_applied (wake_scope c now db) = t_lane_applied db"
  by (auto simp: wake_scope_def map_update_row_same set_update_rows split: if_split_asm)


section \<open>Concrete runs\<close>


theorem parked_input_waits_for_its_lease_witness:
  "\<exists>db' claims. park_timeout sample_claimed_db (sample_claim ''t1'') 1005 = (db', True)
     \<and> claim_inputs sample_x (\<lambda>_. ''t2'') db' (sample_binding ''did:a'' ''9'') 1030 8 = Ok (db', claims)
     \<and> require_claim db' (sample_claim ''t1'') 1030 = Err superseded_error
     \<and> cl_input_id (sample_claim ''t1'') \<notin> cl_input_id ` set claims"
proof -
  let ?db' = "fst (park_timeout sample_claimed_db (sample_claim ''t1'') 1005)"
  have p: "park_timeout sample_claimed_db (sample_claim ''t1'') 1005 = (?db', True)" by code_simp
  have l: "exists_row (\<lambda>l. le_attempt_token l = cl_token (sample_claim ''t1'') \<and> 1030 < le_deadline l)
    (t_leases sample_claimed_db)" by code_simp
  have cl: "claim_inputs sample_x (\<lambda>_. ''t2'') ?db' (sample_binding ''did:a'' ''9'') 1030 8 = Ok (?db', [])"
    by code_simp
  from parked_input_waits_for_its_lease [OF sample_x_picks_rows sample_claimed_db_distinct(2) p l cl] p cl
  show ?thesis by blast
qed

definition sample_baseline_row :: inbox_row where
  "sample_baseline_row = sample_row\<lparr>ib_input_id := ''b'', ib_lane := ''baseline'', ib_event_id := ''e0'',
     ib_position := ''4''\<rparr>"

theorem baseline_comes_first_witness:
  "\<exists>db' c. claim_inputs sample_x (\<lambda>_. ''t1'')
       (sample_received_db\<lparr>t_inbox := [sample_row, sample_baseline_row]\<rparr>)
       (sample_binding ''did:a'' ''9'') 1030 8 = Ok (db', [c])
     \<and> cl_lane c \<noteq> ''ordinary'' \<and> cl_input_id c = ''b''"
proof -
  let ?db = "sample_received_db\<lparr>t_inbox := [sample_row, sample_baseline_row]\<rparr>"
  let ?b = "sample_binding ''did:a'' ''9''"
  let ?c = "input_claim ?b ''t1'' sample_payload sample_baseline_row"
  have cl: "claim_inputs sample_x (\<lambda>_. ''t1'') ?db ?b 1030 8 =
    Ok (?db\<lparr>t_inbox := [sample_row, claim_update ''t1'' 1030 sample_baseline_row],
            t_leases := [new_lease 1030 ''t1'']\<rparr>, [?c])" by code_simp
  have d: "distinct (map ib_input_id (t_inbox ?db))" by code_simp
  have first: "select_row (baseline_open (bd_owner_identity_id ?b) (saturating_sub 1030 RETENTION_SECONDS))
       (t_inbox ?db) = Some sample_baseline_row" by code_simp
  have "cl_lane ?c = ''baseline''" "ib_input_id sample_baseline_row = ''b''" by code_simp+
  with baseline_comes_first [OF d cl first, of ?c] cl show ?thesis by auto
qed

definition sample_applied_db :: sync_db where
  "sample_applied_db = sample_claimed_db\<lparr>t_applied := [\<lparr>ae_owner_identity_id = ''owner'', ae_event_id = ''e1'',
     ae_stream_epoch = ''3'', ae_event_seq = ''10'', ae_applied_at = 1001, ae_payload_hash = None\<rparr>]\<rparr>"


end
