(* ===== verification/Lane_Safety.thy ===== *)
theory Lane_Safety
  imports Sync_Lanes Inbox_Protocol
begin

text \<open>
  What the operations on the secure lanes guarantee: the cursors of a lane move forward only, an
  event is handed to the inbox once however often it is delivered, a closed outcome stays closed,
  the negotiated capabilities are read back as they were recorded, and the receipt of an event is
  written once.
\<close>

section \<open>Cursors\<close>

lemma check_each_ok:
  "check_each check rows = Inr rs \<longleftrightarrow> rs = rows \<and> (\<forall>r\<in>set rows. check r = Inr ())"
proof -
  have "fold_result (\<lambda>r _. check r) rows () = Inr u \<longleftrightarrow> (\<forall>r\<in>set rows. check r = Inr ())" for u
    by (induction rows) (auto simp: result_simps)
  then show ?thesis by (auto simp: check_each_def result_simps)
qed

lemma validate_lane_sync_state_ok:
  "validate_lane_sync_state s = Inr u \<longleftrightarrow>
     validate_required ''owner_identity_id'' (ls_owner_identity_id s) = Inr ()
   \<and> canonical_decimal (ls_stream_epoch s) \<and> ls_stream_epoch s \<noteq> ''0''
   \<and> canonical_decimal (ls_scan_seq s) \<and> canonical_decimal (ls_committed_seq s)
   \<and> dec_val (ls_committed_seq s) \<le> dec_val (ls_scan_seq s)"
  by (auto simp: validate_lane_sync_state_def result_simps compare_decimal_eq_Inr
      validate_positive_decimal_eq_Inr not_less)

lemma load_all_ok:
  "load_all_lane_sync_states db owner = Inr ss \<longleftrightarrow>
     validate_required ''owner_identity_id'' owner = Inr ()
   \<and> load_identity_account_binding db owner \<noteq> None
   \<and> ss = sort_key lane_rank_of (filter (\<lambda>s. ls_owner_identity_id s = owner) (t_lane_states db))
   \<and> (\<forall>s\<in>set (t_lane_states db). ls_owner_identity_id s = owner \<longrightarrow> validate_lane_sync_state s = Inr ())"
  by (auto simp: load_all_lane_sync_states_def result_simps check_each_ok)

lemma find_sorted_lane:
  assumes "distinct (map lane_state_key rows)"
  shows "List.find (\<lambda>s. ls_lane s = lane) (sort_key f (filter (\<lambda>s. ls_owner_identity_id s = owner) rows)) =
    select_row (\<lambda>s. lane_state_key s = (owner, lane)) rows"
    (is "List.find ?P ?sorted = ?sel")
proof (cases "?sel")
  case None
  then have "\<forall>s\<in>set ?sorted. \<not> ?P s" by (auto simp: select_row_None lane_state_key_def)
  with None show ?thesis by (simp add: find_None_iff)
next
  case (Some s)
  have s: "s \<in> set rows" "ls_owner_identity_id s = owner" "ls_lane s = lane"
    using select_row_Some [OF Some] by (simp_all add: lane_state_key_def)
  then have "s \<in> set ?sorted" "?P s" by simp_all
  then obtain t where t: "List.find ?P ?sorted = Some t"
    by (cases "List.find ?P ?sorted") (simp_all add: find_None_iff)
  have "t \<in> set ?sorted \<and> ?P t" by (rule select_row_Some) (use t in \<open>simp add: select_row_def\<close>)
  then have "t \<in> set rows" "lane_state_key t = lane_state_key s"
    using s by (simp_all add: lane_state_key_def)
  then have "t = s" using keyed_unique [where key = lane_state_key, OF assms _ s(1)] by blast
  with t Some show ?thesis by simp
qed

lemma count_keyed:
  assumes "distinct (map key rows)" and "s \<in> set rows" and "P s"
    and "\<And>t. t \<in> set rows \<Longrightarrow> P t \<Longrightarrow> key t = key s"
  shows "count_rows P rows = 1"
proof -
  have "\<forall>t\<in>set rows. P t \<longrightarrow> t = s"
    using keyed_unique [where key = key, OF assms(1) _ assms(2)] assms(4) by blast
  then have "set (filter P rows) = {s}" using assms(2,3) unfolding set_filter by blast
  moreover have "distinct (filter P rows)" using assms(1) by (simp add: distinct_map)
  ultimately have "length (filter P rows) = 1" using distinct_card [of "filter P rows"] by simp
  then show ?thesis by (simp add: count_rows_def)
qed

text \<open>The cursor of a lane.\<close>

definition lane_state :: "sync_db \<Rightarrow> string \<Rightarrow> SyncLaneV3 \<Rightarrow> LaneSyncState option" where
  "lane_state db owner lane = select_row (\<lambda>s. lane_state_key s = (owner, lane)) (t_lane_states db)"

lemma lane_state_mem:
  assumes "lane_state db owner lane = Some s"
  shows "s \<in> set (t_lane_states db)" and "lane_state_key s = (owner, lane)"
    and "ls_owner_identity_id s = owner" and "ls_lane s = lane"
  using select_row_Some [OF assms [unfolded lane_state_def]] by (simp_all add: lane_state_key_def)

lemma advance_lane_from_iff:
  assumes "canonical_decimal (ls_scan_seq next)" "canonical_decimal (ls_committed_seq next)"
    and "canonical_decimal (ls_scan_seq cur)" "canonical_decimal (ls_committed_seq cur)"
  shows "advance_lane_from next cur db = Inr db' \<longleftrightarrow>
     ls_stream_epoch cur = ls_stream_epoch next
   \<and> dec_val (ls_scan_seq cur) \<le> dec_val (ls_scan_seq next)
   \<and> dec_val (ls_committed_seq cur) \<le> dec_val (ls_committed_seq next)
   \<and> count_rows (lane_cursor_row next) (t_lane_states db) = 1
   \<and> db' = db\<lparr>t_lane_states := update_rows (lane_cursor_row next) (move_lane_cursor next) (t_lane_states db)\<rparr>"
  using assms by (auto simp: advance_lane_from_def compare_decimal_eq not_less split: if_split_asm)

lemma advance_lane_iff:
  assumes d: "distinct (map lane_state_key (t_lane_states db))"
  shows "advance_lane_sync_state_in_transaction next db = Inr db' \<longleftrightarrow>
     validate_lane_sync_state next = Inr ()
   \<and> load_identity_account_binding db (ls_owner_identity_id next) \<noteq> None
   \<and> (\<forall>s\<in>set (t_lane_states db). ls_owner_identity_id s = ls_owner_identity_id next
        \<longrightarrow> validate_lane_sync_state s = Inr ())
   \<and> (\<exists>cur. lane_state db (ls_owner_identity_id next) (ls_lane next) = Some cur
        \<and> ls_stream_epoch cur = ls_stream_epoch next
        \<and> dec_val (ls_scan_seq cur) \<le> dec_val (ls_scan_seq next)
        \<and> dec_val (ls_committed_seq cur) \<le> dec_val (ls_committed_seq next))
   \<and> db' = db\<lparr>t_lane_states := update_rows (lane_cursor_row next) (move_lane_cursor next) (t_lane_states db)\<rparr>"
    (is "?lhs \<longleftrightarrow> ?valid \<and> ?bound \<and> ?all \<and> ?fwd \<and> ?db'")
proof -
  let ?o = "ls_owner_identity_id next" and ?sel = "lane_state db (ls_owner_identity_id next) (ls_lane next)"
  have one: "count_rows (lane_cursor_row next) (t_lane_states db) = 1"
    if "?sel = Some cur" "ls_stream_epoch cur = ls_stream_epoch next" for cur
  proof (rule count_keyed [OF d])
    show "cur \<in> set (t_lane_states db)" "lane_cursor_row next cur"
      using lane_state_mem [OF that(1)] that(2) by (simp_all add: lane_cursor_row_def)
    then show "\<And>t. t \<in> set (t_lane_states db) \<Longrightarrow> lane_cursor_row next t \<Longrightarrow>
        lane_state_key t = lane_state_key cur"
      by (simp add: lane_cursor_row_def lane_state_key_def)
  qed
  have "?lhs \<longleftrightarrow> ?valid \<and> ?bound \<and> ?all \<and> (\<exists>cur. ?sel = Some cur \<and> advance_lane_from next cur db = Inr db')"
    unfolding advance_lane_sync_state_in_transaction_def
    using find_sorted_lane [OF d, of "ls_lane next" lane_rank_of ?o]
    by (auto simp: result_simps load_all_ok validate_lane_sync_state_ok lane_state_def)
  also have "\<dots> \<longleftrightarrow> ?valid \<and> ?bound \<and> ?all \<and> ?fwd \<and> ?db'"
  proof (cases "?valid \<and> ?all")
    case True
    then have canon: "advance_lane_from next cur db = Inr db' \<longleftrightarrow>
       ls_stream_epoch cur = ls_stream_epoch next
       \<and> dec_val (ls_scan_seq cur) \<le> dec_val (ls_scan_seq next)
       \<and> dec_val (ls_committed_seq cur) \<le> dec_val (ls_committed_seq next)
       \<and> count_rows (lane_cursor_row next) (t_lane_states db) = 1 \<and> ?db'" if "?sel = Some cur" for cur
      using lane_state_mem [OF that] by (intro advance_lane_from_iff) (auto simp: validate_lane_sync_state_ok)
    show ?thesis using one canon by blast
  qed blast
  finally show ?thesis .
qed

definition lanes_ok :: "sync_db \<Rightarrow> bool" where
  "lanes_ok db \<longleftrightarrow> distinct (map lane_state_key (t_lane_states db))"

lemma lane_state_advance:
  assumes "lanes_ok db" and adv: "advance_lane_sync_state_in_transaction next db = Inr db'"
  shows "lanes_ok db'"
    and "lane_state db' owner lane =
      (if owner = ls_owner_identity_id next \<and> lane = ls_lane next
       then Some next else lane_state db owner lane)"
proof -
  note d = assms(1) [unfolded lanes_ok_def]
  note iff = adv [unfolded advance_lane_iff [OF d]]
  have db': "t_lane_states db' = update_rows (lane_cursor_row next) (move_lane_cursor next) (t_lane_states db)"
    using iff by simp
  have key: "lane_state_key (move_lane_cursor next s) = lane_state_key s" for s
    by (simp add: move_lane_cursor_def lane_state_key_def)
  show "lanes_ok db'" using d by (simp add: lanes_ok_def db' map_update_row_same key)
  obtain cur where cur: "lane_state db (ls_owner_identity_id next) (ls_lane next) = Some cur"
    "ls_stream_epoch cur = ls_stream_epoch next" using iff by blast
  have sel: "lane_state db' owner lane =
      map_option (\<lambda>s. if lane_cursor_row next s then move_lane_cursor next s else s) (lane_state db owner lane)"
    unfolding lane_state_def db' by (rule select_row_update_rows) (simp add: key)
  show "lane_state db' owner lane =
      (if owner = ls_owner_identity_id next \<and> lane = ls_lane next then Some next else lane_state db owner lane)"
  proof (cases "owner = ls_owner_identity_id next \<and> lane = ls_lane next")
    case True
    have "lane_cursor_row next cur" "move_lane_cursor next cur = next"
      using lane_state_mem [OF cur(1)] cur(2) by (simp_all add: lane_cursor_row_def move_lane_cursor_def)
    with True cur(1) sel show ?thesis by simp
  next
    case False
    show ?thesis
    proof (cases "lane_state db owner lane")
      case (Some s)
      then have "\<not> lane_cursor_row next s" using lane_state_mem [OF Some] False by (auto simp: lane_cursor_row_def)
      with Some sel False show ?thesis by auto
    qed (use sel False in auto)
  qed
qed

text \<open>A cursor is at or after another one of the same epoch.\<close>

definition lane_forward :: "LaneSyncState option \<Rightarrow> LaneSyncState option \<Rightarrow> bool" where
  "lane_forward a b \<longleftrightarrow>
     (case a of None \<Rightarrow> b = None
      | Some s \<Rightarrow> (\<exists>t. b = Some t \<and> ls_stream_epoch t = ls_stream_epoch s
          \<and> dec_val (ls_scan_seq s) \<le> dec_val (ls_scan_seq t)
          \<and> dec_val (ls_committed_seq s) \<le> dec_val (ls_committed_seq t)))"

lemma lane_forward_refl [simp]: "lane_forward a a"
  by (simp add: lane_forward_def split: option.split)

lemma lane_forward_trans: "lane_forward a b \<Longrightarrow> lane_forward b c \<Longrightarrow> lane_forward a c"
  by (auto simp: lane_forward_def split: option.split_asm)

lemma advance_lane_forward:
  assumes "lanes_ok db" and "advance_lane_sync_state_in_transaction next db = Inr db'"
  shows "lane_forward (lane_state db owner lane) (lane_state db' owner lane)"
proof -
  obtain cur where "lane_state db (ls_owner_identity_id next) (ls_lane next) = Some cur"
    "ls_stream_epoch cur = ls_stream_epoch next"
    "dec_val (ls_scan_seq cur) \<le> dec_val (ls_scan_seq next)"
    "dec_val (ls_committed_seq cur) \<le> dec_val (ls_committed_seq next)"
    using assms(2) unfolding advance_lane_iff [OF assms(1) [unfolded lanes_ok_def]] by blast
  then show ?thesis
    unfolding lane_state_advance(2) [OF assms]
    by (cases "owner = ls_owner_identity_id next \<and> lane = ls_lane next")
      (simp add: lane_forward_def, simp only: if_False lane_forward_refl)
qed

inductive lane_step :: "externs \<Rightarrow> sync_db \<Rightarrow> sync_db \<Rightarrow> bool" for x where
  handoff: "commit_sync_lane_handoff x db input now = Ok (db', out) \<Longrightarrow> lane_step x db db'"
| event: "commit_sync_lane_event db r next resolve = Ok db' \<Longrightarrow> lane_step x db db'"
| blocker: "record_p6_lane_blocker_and_advance x db b next' = Ok db' \<Longrightarrow> lane_step x db db'"
| outcome: "write_sync_lane_domain_state db s now = Ok db' \<Longrightarrow> lane_step x db db'"
| migrate: "migrate_legacy_p6_blockers_to_inbox x now db = (db', report) \<Longrightarrow> lane_step x db db'"
| elsewhere: "t_lane_states db' = t_lane_states db \<Longrightarrow> lane_step x db db'"

text \<open>Statements on the other tables.\<close>

lemma transport_frame:
  assumes "upsert_transport t db = Inr db'"
  shows "t_lane_states db' = t_lane_states db \<and> t_inbox db' = t_inbox db \<and> t_bindings db' = t_bindings db
    \<and> t_installations db' = t_installations db \<and> t_lane_applied db' = t_lane_applied db
    \<and> t_leases db' = t_leases db \<and> t_blockers db' = t_blockers db"
  using assms by (auto simp: upsert_transport_def split: if_split_asm)

lemma finish_handoff_cases:
  assumes "finish_handoff now input db = Inr db'"
  obtains db1 where "advance_lane_sync_state_in_transaction (handoff_cursor input) db = Inr db1"
    "clear_lane_transport_error_in_transaction (hi_owner_identity_id input) (hi_lane input) now db1 = Inr db'"
  using assms by (auto simp: finish_handoff_def result_simps)

lemma advance_frame:
  assumes "advance_lane_sync_state_in_transaction next db = Inr db'"
  shows "\<exists>rows. db' = db\<lparr>t_lane_states := rows\<rparr>"
  using assms unfolding advance_lane_sync_state_in_transaction_def advance_lane_from_def
  by (auto simp: result_simps split: if_split_asm)

lemma finish_handoff_effect:
  assumes "lanes_ok db" and fin: "finish_handoff now input db = Inr db'"
  shows "t_inbox db' = t_inbox db" and "t_bindings db' = t_bindings db"
    and "t_installations db' = t_installations db" and "lanes_ok db'"
    and "lane_state db' owner lane =
      (if owner = hi_owner_identity_id input \<and> lane = hi_lane input
       then Some (handoff_cursor input) else lane_state db owner lane)"
    and "lane_forward (lane_state db owner lane) (lane_state db' owner lane)"
    and "t_leases db' = t_leases db"
proof -
  obtain db1 where adv: "advance_lane_sync_state_in_transaction (handoff_cursor input) db = Inr db1"
    and clear: "clear_lane_transport_error_in_transaction (hi_owner_identity_id input) (hi_lane input) now db1 = Inr db'"
    by (rule finish_handoff_cases [OF fin])
  note fr = transport_frame [OF clear [unfolded clear_lane_transport_error_in_transaction_def]]
  obtain rows where db1: "db1 = db\<lparr>t_lane_states := rows\<rparr>" using advance_frame [OF adv] by blast
  show "t_inbox db' = t_inbox db" "t_bindings db' = t_bindings db"
    "t_installations db' = t_installations db" "t_leases db' = t_leases db"
    using fr by (simp_all add: db1)
  have same: "lane_state db' o' l = lane_state db1 o' l" for o' l using fr by (simp add: lane_state_def)
  show "lanes_ok db'" using lane_state_advance(1) [OF assms(1) adv] fr by (simp add: lanes_ok_def)
  show "lane_state db' owner lane =
      (if owner = hi_owner_identity_id input \<and> lane = hi_lane input
       then Some (handoff_cursor input) else lane_state db owner lane)"
    unfolding same lane_state_advance(2) [OF assms(1) adv] by (simp add: handoff_cursor_def)
  show "lane_forward (lane_state db owner lane) (lane_state db' owner lane)"
    unfolding same by (rule advance_lane_forward [OF assms(1) adv])
qed

lemma handoff_cases:
  assumes "commit_sync_lane_handoff x db input now = Inr (db', out)"
  obtains (duplicate) r where "out = Duplicate" "finish_handoff now input db = Inr db'"
      "r \<in> set (t_inbox db)" "ib_owner_identity_id r = hi_owner_identity_id input"
      "ib_lane r = lane_as_str (hi_lane input)" "ib_lane_epoch r = hi_lane_epoch input"
      "ib_event_id r = hi_event_id input" "ib_position r = hi_position input"
      "ib_event_type r = hi_event_type input" "x_json_from_str x (ib_raw_payload_json r) = Some (hi_raw_payload input)"
  | (inserted) input_id payload where "out = Inserted"
      "insert_handoff x input_id payload now input db = Inr db'"
      "x_json_to_string x (hi_raw_payload input) = Some payload"
      "stable_sync_lane_input_id x (hi_owner_identity_id input) (hi_lane input) (hi_lane_epoch input)
         (hi_event_id input) = Inr input_id"
      "\<forall>r\<in>set (t_inbox db). \<not> (ib_owner_identity_id r = hi_owner_identity_id input
         \<and> ib_lane r = lane_as_str (hi_lane input) \<and> ib_lane_epoch r = hi_lane_epoch input
         \<and> (ib_event_id r = hi_event_id input \<or> ib_position r = hi_position input))"
proof -
  let ?same = "\<lambda>r. ib_owner_identity_id r = hi_owner_identity_id input
             \<and> ib_lane r = lane_as_str (hi_lane input) \<and> ib_lane_epoch r = hi_lane_epoch input"
  let ?sel = "select_row (\<lambda>r. ?same r \<and> ib_event_id r = hi_event_id input) (t_inbox db)"
  obtain payload input_id where enc: "x_json_to_string x (hi_raw_payload input) = Some payload"
    and sid: "stable_sync_lane_input_id x (hi_owner_identity_id input) (hi_lane input) (hi_lane_epoch input)
         (hi_event_id input) = Inr input_id"
    and rest: "(case ?sel of
            Some r \<Rightarrow>
              bind_result (ok_or (sync_error ''LANE_INPUT_CONFLICT'' ''stored lane payload is invalid'')
                  (x_json_from_str x (ib_raw_payload_json r))) (\<lambda>stored.
                if ib_position r \<noteq> hi_position input \<or> ib_event_type r \<noteq> hi_event_type input
                   \<or> stored \<noteq> hi_raw_payload input then
                  Err (sync_error ''LANE_INPUT_CONFLICT''
                    ''lane event identity is already bound to another position or payload'')
                else bind_result (finish_handoff now input db) (\<lambda>db'. Ok (db', Duplicate)))
          | None \<Rightarrow>
              if exists_row (\<lambda>r. ?same r \<and> ib_position r = hi_position input) (t_inbox db) then
                Err (sync_error ''LANE_INPUT_CONFLICT'' ''lane position is already bound to another event'')
              else
                bind_result (insert_handoff x input_id payload now input db) (\<lambda>db'. Ok (db', Inserted)))
      = Inr (db', out)"
    using assms unfolding commit_sync_lane_handoff_def Let_def bind_result_eq_Inr ok_or_eq_Inr by blast
  show thesis
  proof (cases ?sel)
    case None
    then have "\<forall>r\<in>set (t_inbox db). \<not> (?same r \<and> ib_event_id r = hi_event_id input)"
      by (simp only: select_row_None)
    moreover have "\<forall>r\<in>set (t_inbox db). \<not> (?same r \<and> ib_position r = hi_position input)"
      "insert_handoff x input_id payload now input db = Inr db'" "out = Inserted"
      using rest unfolding None by (auto simp: exists_row_iff result_simps split: if_split_asm)
    ultimately show thesis using inserted [of input_id payload] enc sid by blast
  next
    case (Some r)
    have "r \<in> set (t_inbox db)" "?same r" "ib_event_id r = hi_event_id input"
      using select_row_Some [OF Some] by simp_all
    moreover have "out = Duplicate" "finish_handoff now input db = Inr db'" "ib_position r = hi_position input"
      "ib_event_type r = hi_event_type input" "x_json_from_str x (ib_raw_payload_json r) = Some (hi_raw_payload input)"
      using rest unfolding Some by (auto simp: result_simps split: if_split_asm)
    ultimately show thesis using duplicate by blast
  qed
qed

lemma insert_handoff_effect:
  assumes l: "lanes_ok db" and d: "distinct (map ib_input_id (t_inbox db))"
    and ins: "insert_handoff x input_id payload now input db = Inr db'"
  shows "\<exists>kept. set kept \<subseteq> set (t_inbox db) \<and> input_id \<notin> ib_input_id ` set kept
      \<and> t_inbox db' = kept @ [(handoff_row input_id payload now input)
           \<lparr>ib_processing_scope := handoff_scope input\<rparr>]"
    and "t_bindings db' = t_bindings db" and "t_installations db' = t_installations db" and "lanes_ok db'"
    and "lane_state db' owner lane =
      (if owner = hi_owner_identity_id input \<and> lane = hi_lane input
       then Some (handoff_cursor input) else lane_state db owner lane)"
    and "lane_forward (lane_state db owner lane) (lane_state db' owner lane)"
proof -
  let ?row = "handoff_row input_id payload now input"
  obtain db1 removed where room: "make_room db 1 now = Inr (db1, removed)"
    and step: "bind_result (inbox_insert x ?row db1) (\<lambda>db2.
       finish_handoff now input (db2\<lparr>t_inbox := update_rows (\<lambda>r. ib_input_id r = input_id)
           (\<lambda>r. r\<lparr>ib_processing_scope := handoff_scope input\<rparr>) (t_inbox db2)\<rparr>)) = Inr db'"
    using ins unfolding insert_handoff_def by (auto simp: result_simps)
  obtain db2 where ins2: "inbox_insert x ?row db1 = Inr db2"
    and fin: "finish_handoff now input (db2\<lparr>t_inbox := update_rows (\<lambda>r. ib_input_id r = input_id)
           (\<lambda>r. r\<lparr>ib_processing_scope := handoff_scope input\<rparr>) (t_inbox db2)\<rparr>) = Inr db'"
    using step unfolding bind_result_eq_Inr by blast
  let ?db3 = "db2\<lparr>t_inbox := update_rows (\<lambda>r. ib_input_id r = input_id)
           (\<lambda>r. r\<lparr>ib_processing_scope := handoff_scope input\<rparr>) (t_inbox db2)\<rparr>"
  have db2: "db2 = db1\<lparr>t_inbox := t_inbox db1 @ [?row]\<rparr>" and uniq: "inbox_unique (t_inbox db1) ?row"
    using ins2 by (auto simp: inbox_insert_def split: if_split_asm)
  have id: "ib_input_id ?row = input_id" by (simp add: handoff_row_def)
  have fresh: "input_id \<notin> ib_input_id ` set (t_inbox db1)"
    using uniq id unfolding inbox_unique_def exists_row_iff by auto
  note fr = make_room_frame(1) [OF d room, unfolded same_frame_def]
  have inbox3: "t_inbox ?db3 = t_inbox db1 @ [?row\<lparr>ib_processing_scope := handoff_scope input\<rparr>]"
    using fresh id by (simp add: db2 update_rows_def) (rule map_idI, auto)
  have lanes3: "t_lane_states ?db3 = t_lane_states db" "t_bindings ?db3 = t_bindings db"
    "t_installations ?db3 = t_installations db"
    using fr by (simp_all add: db2)
  then have l3: "lanes_ok ?db3" "lane_state ?db3 o' l' = lane_state db o' l'" for o' l'
    using l by (simp_all add: lanes_ok_def lane_state_def)
  note eff = finish_handoff_effect [OF l3(1) fin]
  show "\<exists>kept. set kept \<subseteq> set (t_inbox db) \<and> input_id \<notin> ib_input_id ` set kept
      \<and> t_inbox db' = kept @ [?row\<lparr>ib_processing_scope := handoff_scope input\<rparr>]"
    using make_room_frame(2) [OF d room] fresh unfolding eff(1) inbox3 by blast
  show "t_bindings db' = t_bindings db" "t_installations db' = t_installations db"
    using eff(2,3) lanes3 by simp_all
  show "lanes_ok db'" by (rule eff(4))
  show "lane_state db' owner lane =
      (if owner = hi_owner_identity_id input \<and> lane = hi_lane input
       then Some (handoff_cursor input) else lane_state db owner lane)"
    unfolding eff(5) l3(2) ..
  show "lane_forward (lane_state db owner lane) (lane_state db' owner lane)"
    using eff(6) unfolding l3(2) .
qed

lemma delete_oldest_frame: "delete_oldest db cutoff n = (db', removed) \<Longrightarrow> same_frame db db'"
  using fold_delete_removed by (auto simp: delete_oldest_def Let_def)

lemma make_room_same_frame:
  assumes "make_room db k now = Inr (db', removed)"
  shows "same_frame db db'"
  using assms by (cases rule: make_room_cases) (auto dest: delete_oldest_frame same_frame_trans)

lemma insert_handoff_finish:
  assumes "insert_handoff x input_id payload now input db = Inr db'"
  obtains db0 where "t_lane_states db0 = t_lane_states db" "finish_handoff now input db0 = Inr db'"
proof -
  obtain db1 removed db2 where room: "make_room db 1 now = Inr (db1, removed)"
    and ins2: "inbox_insert x (handoff_row input_id payload now input) db1 = Inr db2"
    and fin: "finish_handoff now input (db2\<lparr>t_inbox := update_rows (\<lambda>r. ib_input_id r = input_id)
           (\<lambda>r. r\<lparr>ib_processing_scope := handoff_scope input\<rparr>) (t_inbox db2)\<rparr>) = Inr db'"
    using assms unfolding insert_handoff_def by (auto simp: result_simps)
  have "t_lane_states db2 = t_lane_states db"
    using make_room_same_frame [OF room] ins2
    by (auto simp: inbox_insert_def same_frame_def split: if_split_asm)
  then show thesis using that [OF _ fin] by simp
qed

text \<open>The inbox row of a handed-over event.\<close>

definition holds_handoff :: "SyncLaneHandoffInput \<Rightarrow> inbox_row \<Rightarrow> bool" where
  "holds_handoff input r \<longleftrightarrow> ib_owner_identity_id r = hi_owner_identity_id input
     \<and> ib_lane r = lane_as_str (hi_lane input) \<and> ib_lane_epoch r = hi_lane_epoch input
     \<and> ib_event_id r = hi_event_id input \<and> ib_position r = hi_position input
     \<and> ib_event_type r = hi_event_type input"

text \<open>
  C31. When the handoff of a lane event succeeds, the event is in the inbox with its position and
  its payload and the cursor of the lane is at that position; a first delivery adds the event, a
  repeated one leaves the inbox as it was, and the other cursors do not move.
\<close>

theorem handoff_stores_and_advances:
  assumes l: "lanes_ok db" and d: "distinct (map ib_input_id (t_inbox db))"
    and ok: "commit_sync_lane_handoff x db input now = Ok (db', out)"
  shows "(\<exists>r\<in>set (t_inbox db'). holds_handoff input r
        \<and> (x_json_to_string x (hi_raw_payload input) = Some (ib_raw_payload_json r)
           \<or> x_json_from_str x (ib_raw_payload_json r) = Some (hi_raw_payload input)))
    \<and> lane_state db' (hi_owner_identity_id input) (hi_lane input) = Some (handoff_cursor input)
    \<and> (\<forall>owner lane. (owner, lane) \<noteq> (hi_owner_identity_id input, hi_lane input) \<longrightarrow>
         lane_state db' owner lane = lane_state db owner lane)
    \<and> (out = Inserted \<longleftrightarrow> \<not> (\<exists>r\<in>set (t_inbox db). holds_handoff input r))
    \<and> (out = Duplicate \<longrightarrow> t_inbox db' = t_inbox db)"
  using ok
proof (cases rule: handoff_cases)
  case (duplicate r)
  note eff = finish_handoff_effect [OF l duplicate(2)]
  have "holds_handoff input r" using duplicate by (simp add: holds_handoff_def)
  with duplicate(1,3,10) eff(1,5) show ?thesis by auto
next
  case (inserted input_id payload)
  note eff = insert_handoff_effect [OF l d inserted(2)]
  let ?row = "(handoff_row input_id payload now input)\<lparr>ib_processing_scope := handoff_scope input\<rparr>"
  have row: "?row \<in> set (t_inbox db')" using eff(1) by auto
  have "holds_handoff input ?row" "ib_raw_payload_json ?row = payload"
    by (simp_all add: holds_handoff_def handoff_row_def)
  moreover have "\<not> (\<exists>r\<in>set (t_inbox db). holds_handoff input r)"
    using inserted(5) by (auto simp: holds_handoff_def)
  ultimately show ?thesis using inserted(1,3) row eff(5) by auto
qed

lemma finish_handoff_again:
  assumes l: "lanes_ok db" and fin: "finish_handoff now input db = Inr db'"
    and inbox: "t_lane_states db2 = t_lane_states db'" "t_bindings db2 = t_bindings db'"
  shows "\<exists>db3. finish_handoff now2 input db2 = Inr db3"
proof -
  let ?next = "handoff_cursor input"
  obtain db1 where adv: "advance_lane_sync_state_in_transaction ?next db = Inr db1"
    and clear: "clear_lane_transport_error_in_transaction (hi_owner_identity_id input) (hi_lane input) now db1 = Inr db'"
    by (rule finish_handoff_cases [OF fin])
  note fr = transport_frame [OF clear [unfolded clear_lane_transport_error_in_transaction_def]]
  note iff = adv [unfolded advance_lane_iff [OF l [unfolded lanes_ok_def]]]
  have db1: "db1 = db\<lparr>t_lane_states := update_rows (lane_cursor_row ?next) (move_lane_cursor ?next) (t_lane_states db)\<rparr>"
    using iff by blast
  have lanes2: "t_lane_states db2 = t_lane_states db1" using inbox fr by simp
  have bind2: "t_bindings db2 = t_bindings db" using inbox fr by (simp add: db1)
  have l2: "lanes_ok db2" using lane_state_advance(1) [OF l adv] lanes2 by (simp add: lanes_ok_def)
  have cur: "lane_state db2 (ls_owner_identity_id ?next) (ls_lane ?next) = Some ?next"
    using lane_state_advance(2) [OF l adv] lanes2 by (simp add: lane_state_def)
  have valid: "validate_lane_sync_state s = Inr ()"
    if "s \<in> set (t_lane_states db2)" "ls_owner_identity_id s = ls_owner_identity_id ?next" for s
  proof -
    from that(1) obtain q where q: "q \<in> set (t_lane_states db)"
      "s = (if lane_cursor_row ?next q then move_lane_cursor ?next q else q)"
      unfolding lanes2 db1 by (auto simp: update_rows_def)
    show ?thesis
    proof (cases "lane_cursor_row ?next q")
      case True
      then have "s = ?next" using q(2) by (simp add: lane_cursor_row_def move_lane_cursor_def)
      with iff show ?thesis by blast
    next
      case False
      with q that(2) iff show ?thesis by auto
    qed
  qed
  have bound: "load_identity_account_binding db2 (ls_owner_identity_id ?next) \<noteq> None"
    using iff bind2 by (simp add: load_identity_account_binding_def)
  obtain db3 where adv2: "advance_lane_sync_state_in_transaction ?next db2 = Inr db3"
    using advance_lane_iff [OF l2 [unfolded lanes_ok_def], of ?next] iff bound valid cur by auto
  have "has_binding db3 (hi_owner_identity_id input)"
    using advance_frame [OF adv2] bound
    by (auto simp: has_binding_def load_identity_account_binding_def exists_row_iff handoff_cursor_def
        select_row_None)
  with adv2 show ?thesis
    by (simp add: finish_handoff_def clear_lane_transport_error_in_transaction_def upsert_transport_def)
qed

lemma handoff_valid:
  assumes "commit_sync_lane_handoff x db input now = Inr (db', out)"
  obtains payload input_id where "validate_sync_lane_handoff_input input = Inr ()"
    "x_json_to_string x (hi_raw_payload input) = Some payload"
    "utf8_len payload \<le> i64_max" "utf8_len payload \<le> SYNC_LANE_INPUT_MAX_BYTES"
    "stable_sync_lane_input_id x (hi_owner_identity_id input) (hi_lane input) (hi_lane_epoch input)
         (hi_event_id input) = Inr input_id"
    "validate_sync_lane_handoff_binding db input = Inr ()"
  using assms unfolding commit_sync_lane_handoff_def bind_result_eq_Inr ok_or_eq_Inr require_eq_Inr
  by auto

lemma handoff_found:
  assumes v: "validate_sync_lane_handoff_input input = Inr ()"
      "x_json_to_string x (hi_raw_payload input) = Some payload"
      "utf8_len payload \<le> i64_max" "utf8_len payload \<le> SYNC_LANE_INPUT_MAX_BYTES"
      "stable_sync_lane_input_id x (hi_owner_identity_id input) (hi_lane input) (hi_lane_epoch input)
         (hi_event_id input) = Inr input_id"
      "validate_sync_lane_handoff_binding db input = Inr ()"
    and r: "r \<in> set (t_inbox db)" "holds_handoff input r"
      "x_json_from_str x (ib_raw_payload_json r) = Some (hi_raw_payload input)"
    and uniq: "\<forall>q\<in>set (t_inbox db). holds_handoff input q \<or> ib_event_id q \<noteq> hi_event_id input
       \<or> ib_owner_identity_id q \<noteq> hi_owner_identity_id input \<or> ib_lane q \<noteq> lane_as_str (hi_lane input)
       \<or> ib_lane_epoch q \<noteq> hi_lane_epoch input"
      "\<forall>q\<in>set (t_inbox db). holds_handoff input q \<longrightarrow> ib_raw_payload_json q = ib_raw_payload_json r"
  shows "commit_sync_lane_handoff x db input now =
    bind_result (finish_handoff now input db) (\<lambda>db'. Ok (db', Duplicate))"
proof -
  let ?P = "\<lambda>r. (ib_owner_identity_id r = hi_owner_identity_id input
             \<and> ib_lane r = lane_as_str (hi_lane input) \<and> ib_lane_epoch r = hi_lane_epoch input)
             \<and> ib_event_id r = hi_event_id input"
  have "select_row ?P (t_inbox db) \<noteq> None" using r by (auto simp: select_row_None holds_handoff_def)
  then obtain q where sel: "select_row ?P (t_inbox db) = Some q" by blast
  have q: "q \<in> set (t_inbox db)" "?P q" using select_row_Some [OF sel] by blast+
  then have "holds_handoff input q" "ib_raw_payload_json q = ib_raw_payload_json r" using uniq by blast+
  then have pos: "ib_position q = hi_position input" "ib_event_type q = hi_event_type input"
    "x_json_from_str x (ib_raw_payload_json q) = Some (hi_raw_payload input)"
    using r(3) by (simp_all add: holds_handoff_def)
  show ?thesis unfolding commit_sync_lane_handoff_def Let_def sel using v pos by simp
qed

lemma event_key_handoff:
  "event_key q = (hi_owner_identity_id input, lane_as_str (hi_lane input), hi_lane_epoch input, hi_event_id input)
   \<longleftrightarrow> ib_event_id q = hi_event_id input \<and> ib_owner_identity_id q = hi_owner_identity_id input
     \<and> ib_lane q = lane_as_str (hi_lane input) \<and> ib_lane_epoch q = hi_lane_epoch input"
  by (auto simp: event_key_def)

lemma handoff_row_holds:
  "holds_handoff input ((handoff_row input_id payload now input)\<lparr>ib_processing_scope := scope\<rparr>)"
  "ib_raw_payload_json ((handoff_row input_id payload now input)\<lparr>ib_processing_scope := scope\<rparr>) = payload"
  by (simp_all add: holds_handoff_def handoff_row_def)

lemma validate_handoff_binding_cong:
  assumes "t_bindings db' = t_bindings db" and "t_installations db' = t_installations db"
  shows "validate_sync_lane_handoff_binding db' input = validate_sync_lane_handoff_binding db input"
  using assms by (simp add: validate_sync_lane_handoff_binding_def load_identity_account_binding_def
      installed_client_def)

lemma handoff_result:
  assumes l: "lanes_ok db" and d: "distinct (map ib_input_id (t_inbox db))"
    and k: "distinct (map event_key (t_inbox db))"
    and ok: "commit_sync_lane_handoff x db input now = Inr (db', out)"
    and json: "opt_all (\<lambda>s. x_json_from_str x s = Some (hi_raw_payload input))
       (x_json_to_string x (hi_raw_payload input))"
  shows "\<exists>db0 r. lanes_ok db0 \<and> finish_handoff now input db0 = Inr db'
    \<and> t_bindings db' = t_bindings db \<and> t_installations db' = t_installations db
    \<and> r \<in> set (t_inbox db') \<and> holds_handoff input r
    \<and> x_json_from_str x (ib_raw_payload_json r) = Some (hi_raw_payload input)
    \<and> (\<forall>q\<in>set (t_inbox db'). event_key q = event_key r \<longrightarrow> q = r)"
  using ok
proof (cases rule: handoff_cases)
  case (duplicate r)
  note eff = finish_handoff_effect [OF l duplicate(2)]
  have "\<forall>q\<in>set (t_inbox db). event_key q = event_key r \<longrightarrow> q = r"
    using keyed_unique [where key = event_key, OF k _ duplicate(3)] by blast
  moreover have "holds_handoff input r" using duplicate by (simp add: holds_handoff_def)
  ultimately show ?thesis
    using l duplicate(2,3,10) eff(1-3) by (intro exI [of _ db] exI [of _ r]) simp
next
  case (inserted input_id payload)
  note eff = insert_handoff_effect [OF l d inserted(2)]
  let ?row = "(handoff_row input_id payload now input)\<lparr>ib_processing_scope := handoff_scope input\<rparr>"
  obtain db0 where "t_lane_states db0 = t_lane_states db" "finish_handoff now input db0 = Inr db'"
    by (rule insert_handoff_finish [OF inserted(2)])
  then have "lanes_ok db0" "finish_handoff now input db0 = Inr db'" using l by (simp_all add: lanes_ok_def)
  moreover have "?row \<in> set (t_inbox db')" using eff(1) by auto
  moreover have "event_key q \<noteq> event_key ?row" if "q \<in> set (t_inbox db)" for q
    using inserted(5) that by (auto simp: event_key_def handoff_row_def)
  then have "\<forall>q\<in>set (t_inbox db'). event_key q = event_key ?row \<longrightarrow> q = ?row"
    using eff(1) by auto
  ultimately show ?thesis
    using eff(2,3) handoff_row_holds json inserted(3) by (intro exI [of _ db0] exI [of _ ?row]) simp
qed

text \<open>
  C32. A lane event that was handed over is handed over again without effect: after any successful
  handoff, the same delivery succeeds as a duplicate and leaves the inbox and the cursors as they
  are.  It rests on the JSON parser reading back what the encoder wrote for this payload.
\<close>

theorem handoff_retry_is_duplicate:
  assumes l: "lanes_ok db" and d: "distinct (map ib_input_id (t_inbox db))"
    and k: "distinct (map event_key (t_inbox db))"
    and ok: "commit_sync_lane_handoff x db input now = Ok (db', out)"
    and json: "opt_all (\<lambda>s. x_json_from_str x s = Some (hi_raw_payload input))
       (x_json_to_string x (hi_raw_payload input))"
  shows "\<exists>db2. commit_sync_lane_handoff x db' input now2 = Ok (db2, Duplicate)
    \<and> t_inbox db2 = t_inbox db' \<and> (\<forall>owner lane. lane_state db2 owner lane = lane_state db' owner lane)"
proof -
  from handoff_result [OF l d k ok json] obtain db0 r where l0: "lanes_ok db0" and fin: "finish_handoff now input db0 = Inr db'"
    and same: "t_bindings db' = t_bindings db" "t_installations db' = t_installations db"
    and r: "r \<in> set (t_inbox db')" "holds_handoff input r"
      "x_json_from_str x (ib_raw_payload_json r) = Some (hi_raw_payload input)"
    and uniq: "\<forall>q\<in>set (t_inbox db'). event_key q = event_key r \<longrightarrow> q = r" by blast
  obtain payload input_id where v: "validate_sync_lane_handoff_input input = Inr ()"
      "x_json_to_string x (hi_raw_payload input) = Some payload"
      "utf8_len payload \<le> i64_max" "utf8_len payload \<le> SYNC_LANE_INPUT_MAX_BYTES"
      "stable_sync_lane_input_id x (hi_owner_identity_id input) (hi_lane input) (hi_lane_epoch input)
         (hi_event_id input) = Inr input_id"
      "validate_sync_lane_handoff_binding db input = Inr ()"
    by (rule handoff_valid [OF ok])
  have key: "event_key r = (hi_owner_identity_id input, lane_as_str (hi_lane input), hi_lane_epoch input,
      hi_event_id input)" using r(2) by (simp add: event_key_def holds_handoff_def)
  have "commit_sync_lane_handoff x db' input now2 =
      bind_result (finish_handoff now2 input db') (\<lambda>db'. Ok (db', Duplicate))"
  proof (rule handoff_found [OF v(1-5) _ r])
    show "validate_sync_lane_handoff_binding db' input = Inr ()"
      using v(6) validate_handoff_binding_cong [OF same] by simp
    show "\<forall>q\<in>set (t_inbox db'). holds_handoff input q \<or> ib_event_id q \<noteq> hi_event_id input
       \<or> ib_owner_identity_id q \<noteq> hi_owner_identity_id input \<or> ib_lane q \<noteq> lane_as_str (hi_lane input)
       \<or> ib_lane_epoch q \<noteq> hi_lane_epoch input"
      using uniq r(2) unfolding key event_key_handoff by blast
    show "\<forall>q\<in>set (t_inbox db'). holds_handoff input q \<longrightarrow> ib_raw_payload_json q = ib_raw_payload_json r"
      using uniq unfolding key event_key_handoff holds_handoff_def by blast
  qed
  moreover obtain db2 where fin2: "finish_handoff now2 input db' = Inr db2"
    using finish_handoff_again [OF l0 fin refl refl] by blast
  moreover have "lanes_ok db'" by (rule finish_handoff_effect(4) [OF l0 fin])
  note eff2 = finish_handoff_effect [OF this fin2]
  moreover have "lane_state db' (hi_owner_identity_id input) (hi_lane input) = Some (handoff_cursor input)"
    using finish_handoff_effect(5) [OF l0 fin] by simp
  ultimately show ?thesis using eff2(1,5) by auto
qed

section \<open>Cursors only move forward\<close>

lemma store_lane_receipt_frame:
  assumes "store_lane_receipt r db = Inr db'"
  shows "\<exists>rows. db' = db\<lparr>t_lane_applied := rows\<rparr>"
proof -
  obtain m where m: "(case m of Missing \<Rightarrow> insert_lane_receipt r db | Exact \<Rightarrow> Ok db
      | Conflict \<Rightarrow> Err (sync_error ''SYNC_LANE_EVENT_CONFLICT''
           ''lane event identity conflicts with a committed receipt'')) = Inr db'"
    using assms by (auto simp: store_lane_receipt_def result_simps)
  show ?thesis
  proof (cases m)
    case Missing
    with m show ?thesis by (auto simp: insert_lane_receipt_def Let_def split: if_split_asm)
  next
    case Exact
    with m show ?thesis by (intro exI [of _ "t_lane_applied db"]) simp
  qed (use m in simp)
qed

lemma commit_event_cases:
  assumes "commit_sync_lane_event db r next resolve = Inr db'"
  obtains db1 db2 where "store_lane_receipt r db = Inr db1"
    "db2 = (if resolve then delete_blocker (la_owner_identity_id r) (la_event_id r) db1 else db1)"
    "case next of None \<Rightarrow> db' = db2 | Some n \<Rightarrow> advance_lane_sync_state_in_transaction n db2 = Inr db'"
    "validate_sync_lane_event_receipt r = Inr ()"
  using assms by (auto simp: commit_sync_lane_event_def result_simps Let_def split: option.split_asm)

lemma migrate_blocker_lanes:
  assumes "migrate_blocker x now b db = (db', step)"
  shows "t_lane_states db' = t_lane_states db"
proof -
  have repair: "t_lane_states d' = t_lane_states d" if "migration_repair q reason d = (d', s)" for q reason d d' s
    using that unfolding migration_repair_def record_legacy_p6_migration_repair_def
      record_lane_transport_error_def Let_def
    by (auto simp: result_simps split: if_split_asm sum.split_asm prod.split_asm dest!: transport_frame)
  have ins: "t_lane_states d' = t_lane_states d" if "insert_migrated x now bd c i q d = Inr d'" for bd c i q d d'
    using that make_room_same_frame unfolding insert_migrated_def
    by (fastforce simp: result_simps Let_def delete_blocker_def inbox_insert_def same_frame_def
        split: if_split_asm)
  show ?thesis
    using assms unfolding migrate_blocker_def migrate_valid_blocker_def
    by (auto simp: delete_blocker_def dest: repair ins
        split: prod.split_asm option.split_asm if_split_asm sum.split_asm)
qed

lemma migrate_lanes:
  "migrate_blockers x now bs db report = (db', r) \<Longrightarrow> t_lane_states db' = t_lane_states db"
  by (induction bs arbitrary: db report)
    (auto split: prod.split_asm sum.split_asm dest: migrate_blocker_lanes)

lemma write_outcome_lanes:
  "write_sync_lane_domain_state db s now = Inr db' \<Longrightarrow> t_lane_states db' = t_lane_states db"
  unfolding write_sync_lane_domain_state_def store_outcome_def set_outcomes_def Let_def
  by (auto simp: result_simps split: option.split_asm if_split_asm SyncLaneV3.split_asm)

lemma lane_state_cong:
  "t_lane_states db' = t_lane_states db \<Longrightarrow> lane_state db' owner lane = lane_state db owner lane"
  "t_lane_states db' = t_lane_states db \<Longrightarrow> lanes_ok db' = lanes_ok db"
  by (simp_all add: lane_state_def lanes_ok_def)

lemma lane_step_forward:
  assumes "lane_step x db db'" and "lanes_ok db"
  shows "lanes_ok db' \<and> lane_forward (lane_state db owner lane) (lane_state db' owner lane)"
  using assms
proof (induction rule: lane_step.induct)
  case (handoff db input now db' out)
  from handoff(1) show ?case
  proof (cases rule: handoff_cases)
    case (duplicate r)
    then show ?thesis using finish_handoff_effect(4,6) [OF handoff(2)] by blast
  next
    case (inserted input_id payload)
    obtain db2 where "t_lane_states db2 = t_lane_states db" "finish_handoff now input db2 = Inr db'"
      by (rule insert_handoff_finish [OF inserted(2)])
    then show ?thesis using finish_handoff_effect(4,6) [of db2] handoff(2) lane_state_cong by metis
  qed
next
  case (event db r "next" resolve db')
  from event(1) obtain db1 db2 where
    1: "store_lane_receipt r db = Inr db1" and
    2: "db2 = (if resolve then delete_blocker (la_owner_identity_id r) (la_event_id r) db1 else db1)" and
    3: "case next of None \<Rightarrow> db' = db2 | Some n \<Rightarrow> advance_lane_sync_state_in_transaction n db2 = Inr db'"
    by (rule commit_event_cases)
  have "t_lane_states db2 = t_lane_states db"
    using store_lane_receipt_frame [OF 1] by (auto simp: 2 delete_blocker_def)
  note same = lane_state_cong [OF this]
  show ?case
  proof (cases "next")
    case None
    with 3 event(2) show ?thesis by (simp add: same)
  next
    case (Some n)
    then have adv: "advance_lane_sync_state_in_transaction n db2 = Inr db'" using 3 by simp
    have "lanes_ok db2" using event(2) by (simp add: same)
    from lane_state_advance(1) [OF this adv] advance_lane_forward [OF this adv] show ?thesis
      unfolding same by blast
  qed
next
  case (blocker db b next' db')
  then obtain db1 where "upsert_blocker b db = Inr db1"
    and adv: "advance_lane_sync_state_in_transaction next' db1 = Inr db'"
    by (auto simp: record_p6_lane_blocker_and_advance_def result_simps)
  then have same: "t_lane_states db1 = t_lane_states db" by (auto simp: upsert_blocker_def split: if_split_asm)
  then have "lanes_ok db1" using blocker(2) lane_state_cong by blast
  from lane_state_advance(1) [OF this adv] advance_lane_forward [OF this adv] show ?case
    unfolding lane_state_cong(1) [OF same] by blast
next
  case (migrate now db db' report)
  then show ?case
    using migrate_lanes lane_state_cong unfolding migrate_legacy_p6_blockers_to_inbox_def
    by (metis lane_forward_refl)
next
  case (outcome db s now db')
  from lane_state_cong [OF write_outcome_lanes [OF outcome(1)]] outcome(2) show ?case by simp
next
  case (elsewhere db' db)
  from lane_state_cong [OF elsewhere(1)] elsewhere(2) show ?case by simp
qed

inductive lane_run :: "externs \<Rightarrow> sync_db \<Rightarrow> sync_db \<Rightarrow> bool" for x db where
  start: "lane_run x db db"
| step: "lane_run x db db1 \<Longrightarrow> lane_step x db1 db2 \<Longrightarrow> lane_run x db db2"

lemma lane_run_forward:
  "lane_run x db db' \<Longrightarrow> lanes_ok db \<Longrightarrow>
     lanes_ok db' \<and> lane_forward (lane_state db owner lane) (lane_state db' owner lane)"
  by (induction rule: lane_run.induct) (auto dest: lane_step_forward lane_forward_trans)

text \<open>
  C7. Between two bootstraps of a lane, whatever is handed over, committed, deferred, migrated or
  processed, and in whatever order, the cursor of every lane keeps its epoch and neither its
  position nor its committed watermark moves backwards.
\<close>

theorem lane_cursor_only_advances:
  assumes "lane_run x db db'" and "lanes_ok db" and "lane_state db owner lane = Some s"
  shows "\<exists>t. lane_state db' owner lane = Some t \<and> ls_stream_epoch t = ls_stream_epoch s
    \<and> dec_val (ls_scan_seq s) \<le> dec_val (ls_scan_seq t)
    \<and> dec_val (ls_committed_seq s) \<le> dec_val (ls_committed_seq t)"
  using lane_run_forward [OF assms(1,2), of owner lane] assms(3) by (simp add: lane_forward_def)

section \<open>Outcomes\<close>

text \<open>
  The stored name of a lane and of a status of an input is read back as the lane and the
  status it was written for, and no other text is accepted.
\<close>

lemma stored_names_roundtrip:
  "(parse_lane_name text = Ok lane \<longleftrightarrow> text = lane_as_str lane)
   \<and> (parse_lane_domain_status text = Ok status \<longleftrightarrow> text = domain_status_as_str status)"
  by (cases lane; cases status) (auto simp: parse_lane_name_def parse_lane_domain_status_def)

definition outcome_for :: "SyncLaneV3 \<Rightarrow> sync_db \<Rightarrow> string \<Rightarrow> outcome_row option" where
  "outcome_for lane db i = select_row (\<lambda>o'. oc_input_id o' = i) (outcomes lane db)"

lemma outcomes_set [simp]:
  "outcomes lane (set_outcomes lane' rows db) = (if lane = lane' then rows else outcomes lane db)"
  by (cases lane; cases lane') (simp_all add: outcomes_def set_outcomes_def)

lemma outcomes_inbox [simp]: "outcomes lane (db\<lparr>t_inbox := rows\<rparr>) = outcomes lane db"
  by (cases lane) (simp_all add: outcomes_def)

interpretation outcome_table: keyed_upsert oc_input_id outcome_merge
  by unfold_locales (simp add: outcome_merge_def)

lemma write_outcome_cases:
  assumes "write_sync_lane_domain_state db s now = Inr db'"
  obtains (same) o' where "outcome_for (ds_lane s) db (ds_input_id s) = Some o'"
      "is_closed (oc_status o')" "oc_status o' = ds_status s" "db' = db"
  | (stored) owner where "store_outcome owner s now db = Inr db'"
      "\<forall>o'. outcome_for (ds_lane s) db (ds_input_id s) = Some o' \<longrightarrow> \<not> is_closed (oc_status o')"
proof -
  obtain owner where cs: "(case outcome_for (ds_lane s) db (ds_input_id s) of
                 None \<Rightarrow> store_outcome owner s now db
               | Some existing \<Rightarrow>
                   if is_closed (oc_status existing) then
                     (if oc_status existing = ds_status s then Ok db
                      else Err (sync_error ''LANE_DOMAIN_STATE_CONFLICT''
                        ''closed lane domain outcome cannot be reopened or rewritten''))
                   else store_outcome owner s now db) = Inr db'"
    using assms unfolding write_sync_lane_domain_state_def bind_result_eq_Inr outcome_for_def
    by (auto simp: bind_result_eq_Inr split: option.split_asm if_split_asm)
  then show thesis
    using that by (cases "outcome_for (ds_lane s) db (ds_input_id s)") (auto split: if_split_asm)
qed

lemma store_outcome_table:
  assumes "store_outcome owner s now db = Inr db'"
  shows "outcomes lane db' = (if lane = ds_lane s
        then upsert_row oc_input_id outcome_merge (outcome_of owner now s) (outcomes (ds_lane s) db)
        else outcomes lane db)"
  using assms by (auto simp: store_outcome_def Let_def split: if_split_asm)

lemma store_outcome_lookup:
  assumes "store_outcome owner s now db = Inr db'"
  shows "\<exists>o'. outcome_for (ds_lane s) db' (ds_input_id s) = Some o' \<and> oc_status o' = ds_status s"
    and "lane \<noteq> ds_lane s \<or> i \<noteq> ds_input_id s \<Longrightarrow> outcome_for lane db' i = outcome_for lane db i"
proof -
  let ?new = "outcome_of owner now s"
  have id: "oc_input_id ?new = ds_input_id s" "oc_status ?new = ds_status s" by (simp_all add: outcome_of_def)
  show "\<exists>o'. outcome_for (ds_lane s) db' (ds_input_id s) = Some o' \<and> oc_status o' = ds_status s"
    unfolding outcome_for_def store_outcome_table [OF assms]
    using outcome_table.lookup_upsert_same [of ?new "outcomes (ds_lane s) db"] id
    by (simp add: outcome_merge_def split: option.split)
  show "outcome_for lane db' i = outcome_for lane db i" if "lane \<noteq> ds_lane s \<or> i \<noteq> ds_input_id s"
    unfolding outcome_for_def store_outcome_table [OF assms]
    using outcome_table.lookup_upsert_other [of i ?new "outcomes (ds_lane s) db"] id that by auto
qed

lemma write_keeps_closed:
  assumes closed: "outcome_for lane db i = Some o'" "is_closed (oc_status o')"
    and w: "write_sync_lane_domain_state db s now = Inr db'"
  shows "outcome_for lane db' i = Some o'"
  using w
proof (cases rule: write_outcome_cases)
  case (stored owner)
  then have "lane \<noteq> ds_lane s \<or> i \<noteq> ds_input_id s" using closed by blast
  then show ?thesis using store_outcome_lookup(2) [OF stored(1)] closed(1) by metis
qed (use closed in simp)

text \<open>A write that is refused leaves the store unchanged.\<close>

definition try_write :: "SyncLaneDomainState \<times> int \<Rightarrow> sync_db \<Rightarrow> sync_db" where
  "try_write w db = (case write_sync_lane_domain_state db (fst w) (snd w) of Inl e \<Rightarrow> db | Inr db' \<Rightarrow> db')"

lemma try_write_closed:
  assumes "outcome_for lane db i = Some o'" and "is_closed (oc_status o')"
  shows "outcome_for lane (try_write w db) i = Some o'"
  using write_keeps_closed [OF assms] assms(1) unfolding try_write_def by (simp split: sum.split)

lemma fold_try_write_closed:
  assumes "is_closed (oc_status o')" and "outcome_for lane db i = Some o'"
  shows "outcome_for lane (fold try_write ws db) i = Some o'"
  using assms(2)
proof (induction ws arbitrary: db)
  case (Cons w ws)
  from Cons.IH [OF try_write_closed [OF Cons.prems assms(1)]] show ?case by simp
qed simp


section \<open>Negotiated capabilities\<close>

fun capability_name :: "SyncLaneV3 \<Rightarrow> string" where
  "capability_name P5Device = ''lanes.p5_device.v1''"
| "capability_name P6Group = ''lanes.p6_group.v1''"

lemma capability_name_inject [simp]: "capability_name l = capability_name k \<longleftrightarrow> l = k"
  by (cases l; cases k) simp_all

lemma check_capability_ok:
  assumes "check_capability v seen = Inr s"
  shows "\<exists>l. v = JString (capability_name l) \<and> capability_name l \<notin> seen \<and> s = insert (capability_name l) seen"
proof -
  obtain c where v: "v = JString c" and c: "c \<in> {''lanes.p5_device.v1'', ''lanes.p6_group.v1''}" "c \<notin> seen"
    and s: "s = insert c seen"
    using assms unfolding check_capability_def by (cases v) (auto split: if_split_asm)
  from c(1) have "c = capability_name P5Device \<or> c = capability_name P6Group" by auto
  with v c(2) s show ?thesis by blast
qed

lemma parse_capability_name:
  "l \<notin> lanes \<Longrightarrow> parse_capability (JString (capability_name l)) lanes = Inr (insert l lanes)"
  by (cases l) (simp_all add: parse_capability_def)

lemma parse_checked_capabilities:
  assumes "fold_result check_capability vs (capability_name ` lanes) = Inr s"
  shows "fold_result parse_capability vs lanes = Inr (lanes \<union> {l. JString (capability_name l) \<in> set vs})"
  using assms
proof (induction vs arbitrary: lanes)
  case (Cons v vs)
  obtain t where t: "check_capability v (capability_name ` lanes) = Inr t" "fold_result check_capability vs t = Inr s"
    using Cons.prems by (auto simp: bind_result_eq_Inr)
  obtain l where v: "v = JString (capability_name l)" and l: "l \<notin> lanes"
    and "t = capability_name ` insert l lanes"
    using check_capability_ok [OF t(1)] by auto
  with t(2) Cons.IH [of "insert l lanes"] have
    "fold_result parse_capability vs (insert l lanes) =
      Inr (insert l lanes \<union> {l. JString (capability_name l) \<in> set vs})" by simp
  then show ?case by (simp add: v parse_capability_name [OF l]) (auto simp: v)
qed simp

lemma upsert_capability_ok:
  assumes "upsert_capability merge c db = Inr db'"
  shows "db' = db\<lparr>t_capabilities := upsert_row cp_owner_identity_id merge c (t_capabilities db)\<rparr>"
  using assms by (simp add: upsert_capability_def split: if_split_asm)

interpretation capability_table: keyed_upsert cp_owner_identity_id capability_merge
  by unfold_locales (simp add: capability_merge_def)

interpretation lane_state_table: keyed_upsert lane_state_key lane_state_merge
  by unfold_locales (simp add: lane_state_merge_def lane_state_key_def)

lemma upsert_lane_states:
  assumes "fold_result upsert_lane_state states db = Inr db'" and "distinct (map ls_lane states)"
    and "\<forall>s\<in>set states. ls_owner_identity_id s = owner"
  shows "t_bindings db' = t_bindings db \<and> t_installations db' = t_installations db
    \<and> t_capabilities db' = t_capabilities db
    \<and> (\<forall>s\<in>set states. lane_state db' owner (ls_lane s) = Some s)
    \<and> (\<forall>l. l \<notin> ls_lane ` set states \<longrightarrow> lane_state db' owner l = lane_state db owner l)"
  using assms
proof (induction states arbitrary: db)
  case (Cons s states)
  obtain db1 where up: "upsert_lane_state s db = Inr db1"
    and rest: "fold_result upsert_lane_state states db1 = Inr db'"
    using Cons.prems(1) by (auto simp: bind_result_eq_Inr)
  have db1: "db1 = db\<lparr>t_lane_states := upsert_row lane_state_key lane_state_merge s (t_lane_states db)\<rparr>"
    using up by (simp add: upsert_lane_state_def split: if_split_asm)
  have key: "lane_state_key s = (owner, ls_lane s)" using Cons.prems(3) by (simp add: lane_state_key_def)
  have "lane_state db1 owner (ls_lane s) = Some s"
    using lane_state_table.lookup_upsert_same [of s "t_lane_states db"]
    unfolding lane_state_def db1 key
    by (auto simp: lane_state_merge_def split: option.split_asm dest!: select_row_Some
        simp flip: key) (simp add: lane_state_key_def)
  moreover have "lane_state db1 owner l = lane_state db owner l" if "l \<noteq> ls_lane s" for l
    using lane_state_table.lookup_upsert_other [of "(owner, l)" s "t_lane_states db"] that
    by (simp add: lane_state_def db1 key)
  moreover have "t_bindings db1 = t_bindings db" "t_installations db1 = t_installations db"
    "t_capabilities db1 = t_capabilities db" by (simp_all add: db1)
  ultimately show ?case using Cons.IH [OF rest] Cons.prems(2,3) by auto
qed simp

lemma check_lane_states_ok:
  assumes "fold_result (check_lane_state owner) states lanes = Inr t"
  shows "distinct (map ls_lane states) \<and> (\<forall>s\<in>set states. ls_owner_identity_id s = owner \<and> ls_lane s \<notin> lanes)"
  using assms
proof (induction states arbitrary: lanes)
  case (Cons s states)
  obtain l where one: "check_lane_state owner s lanes = Inr l"
    and rest: "fold_result (check_lane_state owner) states l = Inr t"
    using Cons.prems by (auto simp: bind_result_eq_Inr)
  have "ls_owner_identity_id s = owner" "ls_lane s \<notin> lanes" "l = insert (ls_lane s) lanes"
    using one by (auto simp: check_lane_state_def bind_result_eq_Inr split: if_split_asm)
  with Cons.IH [OF rest] show ?case by auto
qed simp

lemma select_row_strengthen:
  "select_row P rows = Some q \<Longrightarrow> E q \<Longrightarrow> select_row (\<lambda>r. P r \<and> E r) rows = Some q"
  by (induction rows) (auto split: if_split_asm)

lemma reconcile_effect:
  assumes ok: "reconcile_sync_lane_capability_v1a x db owner states generation client caps = Inr db'"
    and json: "x_json_from_str x caps = Some (JArray vs)"
  obtains q t where "t_bindings db' = t_bindings db" "t_installations db' = t_installations db"
    "\<forall>s\<in>set states. lane_state db' owner (ls_lane s) = Some s"
    "fold_result check_capability vs {} = Inr t"
    "select_row (\<lambda>c. cp_owner_identity_id c = owner) (t_capabilities db') = Some q"
    "cp_negotiated_device_auth_generation q = generation" "cp_client_instance_id q = Some client"
    "cp_negotiated_capabilities_json q = Some caps"
    "validate_required ''owner_identity_id'' owner = Inr ()"
    "validate_positive_decimal ''device_auth_generation'' generation = Inr ()"
proof -
  obtain db1 where rep: "replace_lane_sync_states db owner states = Inr db1"
    and rec: "record_sync_lane_capability_negotiation_v1a x db1 owner generation client caps = Inr db'"
    using ok unfolding reconcile_sync_lane_capability_v1a_def bind_result_eq_Inr by blast
  obtain db0 lanes c0 where chk: "fold_result (check_lane_state owner) states {} = Inr lanes"
    and up: "fold_result upsert_lane_state states db = Inr db0"
    and cap0: "upsert_capability capability_merge_generation c0 db0 = Inr db1"
    using rep unfolding replace_lane_sync_states_def bind_result_eq_Inr by blast
  let ?c = "\<lparr>cp_owner_identity_id = owner, cp_negotiated_device_auth_generation = generation,
          cp_client_instance_id = Some client, cp_negotiated_capabilities_json = Some caps\<rparr>"
  obtain t where caps: "fold_result check_capability vs {} = Inr t"
    and cap: "upsert_capability capability_merge ?c db1 = Inr db'"
    and valid: "validate_required ''owner_identity_id'' owner = Inr ()"
      "validate_positive_decimal ''device_auth_generation'' generation = Inr ()"
    using rec json unfolding record_sync_lane_capability_negotiation_v1a_def bind_result_eq_Inr ok_or_eq_Inr
    by auto
  have st: "t_bindings db0 = t_bindings db" "t_installations db0 = t_installations db"
    "\<forall>s\<in>set states. lane_state db0 owner (ls_lane s) = Some s"
    using upsert_lane_states [OF up] check_lane_states_ok [OF chk] by blast+
  have tabs: "t_bindings db' = t_bindings db" "t_installations db' = t_installations db"
    "t_lane_states db' = t_lane_states db0"
    using st upsert_capability_ok [OF cap0] upsert_capability_ok [OF cap] by simp_all
  moreover have "\<forall>s\<in>set states. lane_state db' owner (ls_lane s) = Some s"
    using st(3) tabs(3) by (simp add: lane_state_def)
  moreover obtain q where "select_row (\<lambda>c. cp_owner_identity_id c = owner) (t_capabilities db') = Some q"
      "cp_negotiated_device_auth_generation q = generation" "cp_client_instance_id q = Some client"
      "cp_negotiated_capabilities_json q = Some caps"
    using capability_table.lookup_upsert_same [of ?c "t_capabilities db1"] upsert_capability_ok [OF cap]
    by (auto simp: capability_merge_def split: option.split_asm)
  ultimately show thesis using that caps valid by blast
qed

text \<open>
  C33. A negotiation that was recorded is read back: for the device generation and the
  installation it was made with, the lanes in force are exactly those named in the recorded
  capabilities, no new negotiation is asked for, and every lane has the cursor of its bootstrap.
\<close>

theorem negotiated_lanes_roundtrip:
  assumes ok: "reconcile_sync_lane_capability_v1a x db owner states generation client caps = Ok db'"
    and b: "load_identity_account_binding db owner = Some binding"
      "bd_device_auth_generation binding = generation"
    and inst: "installed_client db owner = Some client"
    and json: "x_json_from_str x caps = Some (JArray vs)"
  shows "load_negotiated_lanes_v1a x db' binding = Ok (Some {l. JString (capability_name l) \<in> set vs})
    \<and> lane_capability_negotiation_required x db' owner generation = Ok False
    \<and> (\<forall>s\<in>set states. lane_state db' owner (ls_lane s) = Some s)"
proof -
  obtain q t where tabs: "t_bindings db' = t_bindings db" "t_installations db' = t_installations db"
    and st: "\<forall>s\<in>set states. lane_state db' owner (ls_lane s) = Some s"
    and caps: "fold_result check_capability vs {} = Inr t"
    and q: "select_row (\<lambda>c. cp_owner_identity_id c = owner) (t_capabilities db') = Some q"
      "cp_negotiated_device_auth_generation q = generation" "cp_client_instance_id q = Some client"
      "cp_negotiated_capabilities_json q = Some caps"
    and valid: "validate_required ''owner_identity_id'' owner = Inr ()"
      "validate_positive_decimal ''device_auth_generation'' generation = Inr ()"
    by (rule reconcile_effect [OF ok json])
  have owner: "bd_owner_identity_id binding = owner" using load_binding_owner [OF b(1)] by blast
  have "installed_client db' owner = Some client" using inst tabs by (simp add: installed_client_def)
  then have lanes: "load_negotiated_lanes_v1a x db' binding = Ok (Some {l. JString (capability_name l) \<in> set vs})"
    using q b(2) json parse_checked_capabilities [of vs "{}" t] caps
    by (simp add: load_negotiated_lanes_v1a_def owner)
  have "\<exists>i\<in>set (t_installations db'). is_owner_identity_id i = owner \<and> is_client_instance_id i = client"
    using inst tabs(2) unfolding installed_client_def by (auto dest!: select_row_Some)
  then have "exists_row (\<lambda>i. is_owner_identity_id i = owner
      \<and> cp_client_instance_id q = Some (is_client_instance_id i)) (t_installations db')"
    using q(3) unfolding exists_row_iff by auto
  from select_row_strengthen [where E = "\<lambda>c. exists_row (\<lambda>i. is_owner_identity_id i = owner
      \<and> cp_client_instance_id c = Some (is_client_instance_id i)) (t_installations db')", OF q(1) this]
  have "lane_capability_negotiation_required x db' owner generation = Ok False"
    using valid b q(2) tabs(1)
    by (simp add: lane_capability_negotiation_required_def lane_capability_negotiation_required_with_lanes_def
        load_identity_account_binding_def)
  with lanes st show ?thesis by simp
qed

section \<open>Receipts\<close>

lemma receipt_match_cong:
  "t_lane_applied db' = t_lane_applied db \<Longrightarrow>
     sync_lane_event_receipt_match db' r = sync_lane_event_receipt_match db r"
  by (simp only: sync_lane_event_receipt_match_def group_position_exists_def)

lemma stored_receipt_matches:
  assumes "store_lane_receipt r db = Inr db'"
  shows "sync_lane_event_receipt_match db' r = Inr Exact"
proof -
  obtain m where m: "sync_lane_event_receipt_match db r = Inr m"
    and st: "(case m of Missing \<Rightarrow> insert_lane_receipt r db | Exact \<Rightarrow> Ok db
      | Conflict \<Rightarrow> Err (sync_error ''SYNC_LANE_EVENT_CONFLICT''
           ''lane event identity conflicts with a committed receipt'')) = Inr db'"
    using assms unfolding store_lane_receipt_def bind_result_eq_Inr by blast
  let ?P = "\<lambda>a. la_owner_identity_id a = la_owner_identity_id r \<and> la_lane a = la_lane r
      \<and> la_event_id a = la_event_id r"
  show ?thesis
  proof (cases m)
    case Missing
    let ?a = "SyncLaneEventReceipt.extend r \<lparr>la_payload_hash = None\<rparr>"
    have v: "validate_sync_lane_event_receipt r = Inr ()"
      and none: "select_row ?P (t_lane_applied db) = None"
      using m Missing unfolding sync_lane_event_receipt_match_def
      by (auto simp: bind_result_eq_Inr split: option.split_asm if_split_asm)
    have "t_lane_applied db' = t_lane_applied db @ [?a]"
      using st Missing by (auto simp: insert_lane_receipt_def Let_def split: if_split_asm)
    moreover have "?P ?a" "receipt_equal r ?a"
      by (simp_all add: SyncLaneEventReceipt.defs receipt_equal_def)
    ultimately have "select_row ?P (t_lane_applied db') = Some ?a"
      using none by (simp add: select_row_append)
    with v \<open>receipt_equal r ?a\<close> show ?thesis by (simp add: sync_lane_event_receipt_match_def)
  qed (use m st in simp_all)
qed


section \<open>Concrete values\<close>

definition sample_lane :: "string \<Rightarrow> LaneSyncState" where
  "sample_lane seq = \<lparr>ls_owner_identity_id = ''owner'', ls_lane = P5Device, ls_stream_epoch = ''3'',
     ls_scan_seq = seq, ls_committed_seq = seq\<rparr>"

definition sample_lane_db :: sync_db where
  "sample_lane_db = sample_ready_db\<lparr>t_lane_states := [sample_lane ''5'']\<rparr>"

definition sample_handoff :: SyncLaneHandoffInput where
  "sample_handoff = \<lparr>hi_owner_identity_id = ''owner'', hi_account_id_snapshot = ''acct'',
     hi_device_id_snapshot = ''dev'', hi_auth_generation_snapshot = ''1'',
     hi_client_instance_id_snapshot = ''core'', hi_lane = P5Device, hi_lane_epoch = ''3'',
     hi_position = ''7'', hi_event_id = ''p1'', hi_event_type = ''p5.delivery.created'',
     hi_raw_payload = sample_payload, hi_group_did = None, hi_received_at = ''t'',
     hi_source_created_at = None, hi_source_expires_at = None\<rparr>"

definition sample_handed_db :: sync_db where
  "sample_handed_db = (case commit_sync_lane_handoff sample_x sample_lane_db sample_handoff 1000 of
     Inl e \<Rightarrow> sample_lane_db | Inr (db', out) \<Rightarrow> db')"

lemma sample_handoff_ok:
  "commit_sync_lane_handoff sample_x sample_lane_db sample_handoff 1000 = Ok (sample_handed_db, Inserted)"
  by code_simp

lemma sample_lane_db_ok:
  "lanes_ok sample_lane_db" "distinct (map ib_input_id (t_inbox sample_lane_db))"
  "distinct (map event_key (t_inbox sample_lane_db))"
  by code_simp+

theorem handoff_stores_and_advances_witness:
  "lane_state sample_handed_db ''owner'' P5Device = Some (sample_lane ''7'')
   \<and> (\<exists>r\<in>set (t_inbox sample_handed_db). holds_handoff sample_handoff r)"
proof -
  have "hi_owner_identity_id sample_handoff = ''owner''" "hi_lane sample_handoff = P5Device"
    "handoff_cursor sample_handoff = sample_lane ''7''" by code_simp+
  with handoff_stores_and_advances [OF sample_lane_db_ok(1,2) sample_handoff_ok] show ?thesis by auto
qed

theorem handoff_retry_is_duplicate_witness:
  "\<exists>db2. commit_sync_lane_handoff sample_x sample_handed_db sample_handoff 2000 = Ok (db2, Duplicate)
     \<and> t_inbox db2 = t_inbox sample_handed_db"
proof -
  have "opt_all (\<lambda>s. x_json_from_str sample_x s = Some (hi_raw_payload sample_handoff))
       (x_json_to_string sample_x (hi_raw_payload sample_handoff))" by code_simp
  from handoff_retry_is_duplicate [OF sample_lane_db_ok sample_handoff_ok this] show ?thesis by blast
qed

theorem lane_cursor_only_advances_witness:
  "\<exists>t. lane_state sample_handed_db ''owner'' P5Device = Some t \<and> dec_val ''5'' \<le> dec_val (ls_scan_seq t)"
proof -
  have "lane_step sample_x sample_lane_db sample_handed_db" by (rule lane_step.handoff [OF sample_handoff_ok])
  then have run: "lane_run sample_x sample_lane_db sample_handed_db" by (blast intro: lane_run.intros)
  have s: "lane_state sample_lane_db ''owner'' P5Device = Some (sample_lane ''5'')" by code_simp
  have "ls_scan_seq (sample_lane ''5'') = ''5''" by (simp add: sample_lane_def)
  with lane_cursor_only_advances [OF run sample_lane_db_ok(1) s] show ?thesis by auto
qed

definition sample_outcome :: "SyncLaneDomainStatus \<Rightarrow> SyncLaneDomainState" where
  "sample_outcome st = \<lparr>ds_input_id = ''owner/p5_device/3/p1'', ds_lane = P5Device, ds_scope = ''peer'',
     ds_status = st, ds_retryable = False, ds_attempt_count = 1, ds_next_retry_at = None,
     ds_operation_ref = None, ds_last_error_code = None\<rparr>"


definition sample_caps_x :: externs where
  "sample_caps_x = sample_x\<lparr>x_json_from_str :=
     (\<lambda>s. if s = ''c'' then Some (JArray [JString ''lanes.p5_device.v1'']) else None)\<rparr>"

theorem negotiated_lanes_roundtrip_witness:
  "\<exists>db'. reconcile_sync_lane_capability_v1a sample_caps_x sample_ready_db ''owner'' [sample_lane ''5'']
       ''1'' ''core'' ''c'' = Ok db'
     \<and> load_negotiated_lanes_v1a sample_caps_x db' (sample_binding ''did:a'' ''9'') = Ok (Some {P5Device})
     \<and> lane_state db' ''owner'' P5Device = Some (sample_lane ''5'')"
proof -
  let ?r = "reconcile_sync_lane_capability_v1a sample_caps_x sample_ready_db ''owner'' [sample_lane ''5'']
       ''1'' ''core'' ''c''"
  have "case ?r of Inl e \<Rightarrow> False | Inr d \<Rightarrow> True" by code_simp
  then obtain db' where ok: "?r = Ok db'" by (cases ?r) simp_all
  have b: "load_identity_account_binding sample_ready_db ''owner'' = Some (sample_binding ''did:a'' ''9'')"
    "bd_device_auth_generation (sample_binding ''did:a'' ''9'') = ''1''"
    "installed_client sample_ready_db ''owner'' = Some ''core''"
    "x_json_from_str sample_caps_x ''c'' = Some (JArray [JString ''lanes.p5_device.v1''])"
    "ls_lane (sample_lane ''5'') = P5Device" by code_simp+
  have "{l. JString (capability_name l) \<in> set [JString ''lanes.p5_device.v1'']} = {P5Device}"
    using capability_name_inject [of _ P5Device] by auto
  with negotiated_lanes_roundtrip [OF ok b(1-4)] ok b(5) show ?thesis by auto
qed

definition sample_receipt :: SyncLaneEventReceipt where
  "sample_receipt = \<lparr>la_owner_identity_id = ''owner'', la_lane = P5Device, la_event_id = ''p1'',
     la_stream_epoch = ''3'', la_event_seq = ''7'', la_group_did = None, la_group_event_seq = None,
     la_applied_at = 1000\<rparr>"


end
