(* ===== verification/Sync_Receipts.thy ===== *)
theory Sync_Receipts
  imports Sync_Inbox
begin

text \<open>
  What the sync store remembers of finished work, in \<open>local_state/sync_v2.rs\<close>: the receipts of
  applied events and their pruning, the state of a snapshot recovery, the diagnostics, the
  bounded cleanup of terminal rows, and the repair of work interrupted by a restart.
\<close>

section \<open>Receipts of applied events\<close>

definition APPLIED_EVENT_MIN_RECEIPTS_PER_OWNER :: int where
  "APPLIED_EVENT_MIN_RECEIPTS_PER_OWNER = 10000"

definition APPLIED_EVENT_SAFETY_WINDOW :: nat where "APPLIED_EVENT_SAFETY_WINDOW = 1000"

definition TERMINAL_SYNC_STATE_RETENTION_SECONDS :: int where
  "TERMINAL_SYNC_STATE_RETENTION_SECONDS = 7 * 24 * 60 * 60"

definition applied_key :: "applied_row \<Rightarrow> string \<times> string" where
  "applied_key a = (ae_owner_identity_id a, ae_event_id a)"

text \<open>The constraints of \<open>sync_applied_events\<close>, with the reference to the binding.\<close>

definition applied_ok :: "sync_db \<Rightarrow> applied_row \<Rightarrow> bool" where
  "applied_ok db a \<longleftrightarrow>
     sql_nonblank (ae_owner_identity_id a) \<and> sql_nonblank (ae_event_id a)
   \<and> sql_positive_decimal (ae_stream_epoch a) \<and> sql_positive_decimal (ae_event_seq a)
   \<and> \<not> exists_row (\<lambda>r. applied_key r = applied_key a) (t_applied db)
   \<and> exists_row (\<lambda>b. bd_owner_identity_id b = ae_owner_identity_id a) (t_bindings db)"

definition applied_event_position ::
  "sync_db \<Rightarrow> string \<Rightarrow> string \<Rightarrow> (string \<times> string) option" where
  "applied_event_position db owner event_id =
     map_option (\<lambda>a. (ae_stream_epoch a, ae_event_seq a))
       (select_row (\<lambda>a. ae_owner_identity_id a = owner \<and> ae_event_id a = event_id) (t_applied db))"

definition receipt_row :: "AppliedEventReceipt \<Rightarrow> applied_row" where
  "receipt_row r = \<lparr>ae_owner_identity_id = ae_owner_identity_id r, ae_event_id = ae_event_id r,
     ae_stream_epoch = ae_stream_epoch r, ae_event_seq = ae_event_seq r,
     ae_applied_at = ae_applied_at r, ae_payload_hash = None\<rparr>"

definition record_applied_event ::
  "sync_db \<Rightarrow> AppliedEventReceipt \<Rightarrow> (sync_db \<times> bool) ImResult" where
  "record_applied_event db r =
     bind_result (validate_required ''owner_identity_id'' (ae_owner_identity_id r)) (\<lambda>_.
     bind_result (validate_required ''event_id'' (ae_event_id r)) (\<lambda>_.
     bind_result (validate_positive_decimal ''stream_epoch'' (ae_stream_epoch r)) (\<lambda>_.
     bind_result (validate_positive_decimal ''event_seq'' (ae_event_seq r)) (\<lambda>_.
       case select_row (\<lambda>a. ae_owner_identity_id a = ae_owner_identity_id r
              \<and> ae_event_id a = ae_event_id r) (t_applied db) of
         Some a \<Rightarrow>
           if ae_stream_epoch a = ae_stream_epoch r \<and> ae_event_seq a = ae_event_seq r
           then Ok (db, False)
           else Err (binding_conflict
                  ''sync event id was already applied at a different stream position'')
       | None \<Rightarrow>
           if applied_ok db (receipt_row r)
           then Ok (db\<lparr>t_applied := t_applied db @ [receipt_row r]\<rparr>, True)
           else Err constraint_failed))))"

section \<open>The state of a recovery\<close>

definition validate_recovery_mode :: "string \<Rightarrow> unit ImResult" where
  "validate_recovery_mode value =
     (if value = ''compact_recovery'' then Ok ()
      else Err (invalid_input (Some ''mode'') ''recovery mode is not supported''))"

definition validate_recovery_status :: "string \<Rightarrow> unit ImResult" where
  "validate_recovery_status value =
     (if value \<in> {''recovering'', ''downloading'', ''applying'', ''retryable'', ''completed'',
          ''permanent_failure''} then Ok ()
      else Err (invalid_input (Some ''status'') ''recovery status is not supported''))"

text \<open>The constraints of \<open>sync_recovery_state\<close>, with the reference to the binding.\<close>

definition recovery_ok :: "sync_db \<Rightarrow> RecoveryState \<Rightarrow> bool" where
  "recovery_ok db s \<longleftrightarrow>
     rc_mode s = ''compact_recovery''
   \<and> rc_status s \<in> {''recovering'', ''downloading'', ''applying'', ''retryable'', ''completed'',
        ''permanent_failure''}
   \<and> rc_retry_count s \<ge> 0
   \<and> sql_positive_decimal (rc_requested_from_epoch s)
   \<and> sql_decimal (rc_requested_from_seq s)
   \<and> opt_all sql_decimal (rc_snapshot_scan_seq s)
   \<and> exists_row (\<lambda>b. bd_owner_identity_id b = rc_owner_identity_id s) (t_bindings db)"

definition recovery_merge :: "RecoveryState \<Rightarrow> RecoveryState \<Rightarrow> RecoveryState" where
  "recovery_merge old new = new\<lparr>rc_owner_identity_id := rc_owner_identity_id old\<rparr>"

definition upsert_recovery_state :: "sync_db \<Rightarrow> RecoveryState \<Rightarrow> sync_db ImResult" where
  "upsert_recovery_state db s =
     bind_result (validate_required ''owner_identity_id'' (rc_owner_identity_id s)) (\<lambda>_.
     bind_result (validate_recovery_mode (rc_mode s)) (\<lambda>_.
     bind_result (validate_recovery_status (rc_status s)) (\<lambda>_.
     bind_result (validate_positive_decimal ''requested_from_epoch'' (rc_requested_from_epoch s)) (\<lambda>_.
     bind_result (validate_decimal ''requested_from_seq'' (rc_requested_from_seq s)) (\<lambda>_.
     bind_result (case rc_snapshot_scan_seq s of None \<Rightarrow> Ok ()
         | Some seq \<Rightarrow> validate_decimal ''snapshot_scan_seq'' seq) (\<lambda>_.
       if rc_retry_count s < 0
       then Err (invalid_input (Some ''retry_count'') ''retry_count must not be negative'')
       else if recovery_ok db s
       then Ok (db\<lparr>t_recoveries :=
              upsert_row rc_owner_identity_id recovery_merge s (t_recoveries db)\<rparr>)
       else Err constraint_failed))))))"

definition load_recovery_state :: "sync_db \<Rightarrow> string \<Rightarrow> RecoveryState option" where
  "load_recovery_state db owner =
     select_row (\<lambda>s. rc_owner_identity_id s = owner) (t_recoveries db)"

text \<open>\<open>matches!(status, "completed" | "permanent_failure")\<close>, of a recovery and of a mutation.\<close>

definition is_terminal :: "string \<Rightarrow> bool" where
  "is_terminal status \<longleftrightarrow> status = ''completed'' \<or> status = ''permanent_failure''"

definition is_settled :: "string \<Rightarrow> bool" where
  "is_settled status \<longleftrightarrow> status = ''committed'' \<or> status = ''permanent_failure''"

section \<open>Pruning\<close>

text \<open>The columns of \<open>ORDER BY length(stream_epoch), stream_epoch, length(event_seq), event_seq\<close>.\<close>

definition prune_order :: "applied_row \<Rightarrow> nat \<times> string \<times> nat \<times> string" where
  "prune_order a = (sql_length (ae_stream_epoch a), ae_stream_epoch a,
     sql_length (ae_event_seq a), ae_event_seq a)"

definition before_position :: "string \<Rightarrow> string \<Rightarrow> applied_row \<Rightarrow> bool" where
  "before_position epoch seq a \<longleftrightarrow>
     sql_length (ae_stream_epoch a) < sql_length epoch
   \<or> sql_length (ae_stream_epoch a) = sql_length epoch \<and> ae_stream_epoch a < epoch
   \<or> ae_stream_epoch a = epoch
      \<and> (sql_length (ae_event_seq a) < sql_length seq
         \<or> sql_length (ae_event_seq a) = sql_length seq \<and> ae_event_seq a < seq)"

text \<open>The subquery for the newest receipts, in descending order; equal positions come in
  descending \<open>rowid\<close> order, as the index is read backwards.\<close>

definition newest_receipts :: "sync_db \<Rightarrow> string \<Rightarrow> string list" where
  "newest_receipts db owner =
     map ae_event_id (take 10000
       (rev (sort_key prune_order
         (filter (\<lambda>a. ae_owner_identity_id a = owner) (t_applied db)))))"

definition prune_candidates :: "sync_db \<Rightarrow> string \<Rightarrow> string \<Rightarrow> string \<Rightarrow> nat \<Rightarrow> string list" where
  "prune_candidates db owner epoch seq limit =
     (let newest = newest_receipts db owner
      in map ae_event_id (order_limit prune_order limit
           (filter (\<lambda>a. ae_owner_identity_id a = owner \<and> before_position epoch seq a
                      \<and> ae_event_id a \<notin> set newest) (t_applied db))))"

text \<open>The position receipts may be pruned below: a window behind the cursor, and not past the
  start of an unfinished recovery.\<close>

definition safe_position ::
  "sync_db \<Rightarrow> string \<Rightarrow> string \<Rightarrow> string \<Rightarrow> (string \<times> string) ImResult" where
  "safe_position db owner epoch safe_seq =
     (case load_recovery_state db owner of
        None \<Rightarrow> Ok (epoch, safe_seq)
      | Some recovery \<Rightarrow>
          if is_terminal (rc_status recovery) then Ok (epoch, safe_seq)
          else bind_result (compare_stream_position (rc_requested_from_epoch recovery)
                 (rc_requested_from_seq recovery) epoch safe_seq) (\<lambda>ord.
            if ord = Less
            then Ok (rc_requested_from_epoch recovery, rc_requested_from_seq recovery)
            else Ok (epoch, safe_seq)))"

definition delete_receipt :: "string \<Rightarrow> string \<Rightarrow> sync_db \<Rightarrow> sync_db" where
  "delete_receipt owner event_id db =
     db\<lparr>t_applied := delete_rows (\<lambda>a. ae_owner_identity_id a = owner \<and> ae_event_id a = event_id)
        (t_applied db)\<rparr>"

definition prune_applied_events ::
  "sync_db \<Rightarrow> string \<Rightarrow> string \<Rightarrow> string \<Rightarrow> nat \<Rightarrow> (sync_db \<times> nat) ImResult" where
  "prune_applied_events db owner epoch scan_seq max_delete =
     bind_result (validate_required ''owner_identity_id'' owner) (\<lambda>_.
     bind_result (validate_positive_decimal ''stream_epoch'' epoch) (\<lambda>_.
     bind_result (validate_decimal ''scan_seq'' scan_seq) (\<lambda>_.
       if max_delete = 0 then Ok (db, 0)
       else
         let count = int (count_rows (\<lambda>a. ae_owner_identity_id a = owner) (t_applied db)) in
         if count \<le> APPLIED_EVENT_MIN_RECEIPTS_PER_OWNER then Ok (db, 0)
         else bind_result (subtract_small_decimal scan_seq APPLIED_EVENT_SAFETY_WINDOW) (\<lambda>safe.
           case safe of
             None \<Rightarrow> Ok (db, 0)
           | Some safe_seq \<Rightarrow>
               bind_result (safe_position db owner epoch safe_seq) (\<lambda>(safe_epoch, safe_seq).
               let delete_limit =
                     min (int max_delete) (count - APPLIED_EVENT_MIN_RECEIPTS_PER_OWNER);
                   event_ids = prune_candidates db owner safe_epoch safe_seq (nat delete_limit)
               in Ok (fold (delete_receipt owner) event_ids db, length event_ids))))))"

section \<open>Diagnostics\<close>

record SyncDiagnosticsState =
  dg_last_success_at :: "int option"
  dg_bootstrap_state :: "string option"
  dg_recovery_status :: "string option"
  dg_pending_mutation_count :: nat
  dg_pending_count :: nat
  dg_in_flight_count :: nat
  dg_retryable_count :: nat
  dg_permanent_failure_count :: nat
  dg_next_retry_at :: "int option"

text \<open>\<open>u32::try_from(count).unwrap_or(u32::MAX)\<close> of a non-negative count.\<close>

definition u32_or_max :: "int \<Rightarrow> nat" where
  "u32_or_max n = (if n < 2 ^ 32 then nat n else 2 ^ 32 - 1)"

definition load_sync_diagnostics :: "sync_db \<Rightarrow> string \<Rightarrow> SyncDiagnosticsState ImResult" where
  "load_sync_diagnostics db owner =
     bind_result (validate_required ''owner_identity_id'' owner) (\<lambda>_.
     let sync_state = select_row (\<lambda>s. ss_owner_identity_id s = owner) (t_sync_states db);
         rows = filter (\<lambda>r. mu_owner_identity_id r = owner) (t_outbox db);
         in_status = (\<lambda>status. int (count_rows (\<lambda>r. mu_status r = status) rows));
         pending = in_status ''pending''; in_flight = in_status ''in_flight'';
         retryable = in_status ''retryable''
     in Ok \<lparr>dg_last_success_at = Option.bind sync_state ss_last_success_at,
            dg_bootstrap_state = map_option ss_bootstrap_state sync_state,
            dg_recovery_status = map_option rc_status (load_recovery_state db owner),
            dg_pending_mutation_count =
              u32_or_max (saturating_add (saturating_add pending in_flight) retryable),
            dg_pending_count = u32_or_max pending,
            dg_in_flight_count = u32_or_max in_flight,
            dg_retryable_count = u32_or_max retryable,
            dg_permanent_failure_count = u32_or_max (in_status ''permanent_failure''),
            dg_next_retry_at = min_option (List.map_filter mu_retry_at
              (filter (\<lambda>r. mu_status r = ''retryable'') rows))\<rparr>)"

section \<open>Cleanup of terminal rows\<close>

record SyncCleanupOutcome =
  cu_applied_events_deleted :: nat
  cu_terminal_mutations_deleted :: nat
  cu_terminal_recovery_deleted :: bool

definition mutation_key :: "LocalMutationRecord \<Rightarrow> string \<times> string" where
  "mutation_key r = (mu_owner_identity_id r, mu_mutation_id r)"

definition terminal_mutations :: "sync_db \<Rightarrow> string \<Rightarrow> int \<Rightarrow> nat \<Rightarrow> LocalMutationRecord list" where
  "terminal_mutations db owner cutoff limit =
     order_limit (\<lambda>r. (mu_updated_at r, mu_mutation_id r)) limit
       (filter (\<lambda>r. mu_owner_identity_id r = owner \<and> is_settled (mu_status r)
                  \<and> mu_updated_at r \<le> cutoff) (t_outbox db))"

definition anchor_is_covered :: "RecoveryState \<Rightarrow> string \<Rightarrow> string \<Rightarrow> int \<Rightarrow> bool ImResult" where
  "anchor_is_covered recovery epoch scan_seq cutoff =
     (if is_terminal (rc_status recovery) \<and> rc_updated_at recovery \<le> cutoff
      then map_ok (\<lambda>ord. ord \<noteq> Greater)
             (compare_stream_position (rc_requested_from_epoch recovery)
               (case rc_snapshot_scan_seq recovery of
                  None \<Rightarrow> rc_requested_from_seq recovery | Some seq \<Rightarrow> seq) epoch scan_seq)
      else Ok False)"

definition cleanup_recovery ::
  "sync_db \<Rightarrow> string \<Rightarrow> string \<Rightarrow> string \<Rightarrow> bool \<Rightarrow> int \<Rightarrow> (sync_db \<times> bool) ImResult" where
  "cleanup_recovery db owner epoch scan_seq has_recovery_budget cutoff =
     (case load_recovery_state db owner of
        None \<Rightarrow> Ok (db, False)
      | Some recovery \<Rightarrow>
          bind_result (anchor_is_covered recovery epoch scan_seq cutoff) (\<lambda>covered.
            if has_recovery_budget \<and> covered
            then let P = (\<lambda>s. rc_owner_identity_id s = owner \<and> is_terminal (rc_status s))
                 in Ok (db\<lparr>t_recoveries := delete_rows P (t_recoveries db)\<rparr>,
                        count_rows P (t_recoveries db) = 1)
            else Ok (db, False)))"

definition cleanup_terminal_sync_state ::
  "sync_db \<Rightarrow> string \<Rightarrow> string \<Rightarrow> string \<Rightarrow> nat \<Rightarrow> int \<Rightarrow> (sync_db \<times> SyncCleanupOutcome) ImResult" where
  "cleanup_terminal_sync_state db owner epoch scan_seq max_delete now =
     bind_result (validate_required ''owner_identity_id'' owner) (\<lambda>_.
     bind_result (validate_positive_decimal ''stream_epoch'' epoch) (\<lambda>_.
     bind_result (validate_decimal ''scan_seq'' scan_seq) (\<lambda>_.
       if max_delete = 0
       then Ok (db, \<lparr>cu_applied_events_deleted = 0, cu_terminal_mutations_deleted = 0,
                     cu_terminal_recovery_deleted = False\<rparr>)
       else
         let cutoff = saturating_sub now TERMINAL_SYNC_STATE_RETENTION_SECONDS in
         bind_result (prune_applied_events db owner epoch scan_seq max_delete) (\<lambda>(db1, applied).
         let rows = terminal_mutations db1 owner cutoff (max_delete - applied);
             db2 = db1\<lparr>t_outbox := delete_rows (\<lambda>r. mutation_key r \<in> mutation_key ` set rows)
                     (t_outbox db1)\<rparr>
         in bind_result (cleanup_recovery db2 owner epoch scan_seq
                (applied + length rows < max_delete) cutoff) (\<lambda>(db3, recovered).
            Ok (db3, \<lparr>cu_applied_events_deleted = applied,
                      cu_terminal_mutations_deleted = length rows,
                      cu_terminal_recovery_deleted = recovered\<rparr>))))))"

section \<open>Interrupted work\<close>

definition interrupted_recovery :: "RecoveryState \<Rightarrow> bool" where
  "interrupted_recovery s \<longleftrightarrow> rc_status s \<in> {''recovering'', ''downloading'', ''applying''}"

definition recover_interrupted_work :: "sync_db \<Rightarrow> int \<Rightarrow> sync_db" where
  "recover_interrupted_work db recovered_at =
     db\<lparr>t_recoveries := update_rows interrupted_recovery
          (\<lambda>s. s\<lparr>rc_status := ''retryable'', rc_updated_at := recovered_at\<rparr>) (t_recoveries db),
        t_outbox := update_rows (\<lambda>r. mu_status r = ''in_flight'')
          (\<lambda>r. r\<lparr>mu_status := ''retryable'', mu_in_flight_since := None,
                 mu_updated_at := recovered_at\<rparr>) (t_outbox db)\<rparr>"

section \<open>Positions as numbers\<close>

definition receipt_pos :: "applied_row \<Rightarrow> nat \<times> nat" where
  "receipt_pos a = (dec_val (ae_stream_epoch a), dec_val (ae_event_seq a))"

text \<open>What the constraints and the validations of the writers keep: a receipt per event, and
  canonical positions.\<close>

definition receipts_ok :: "sync_db \<Rightarrow> bool" where
  "receipts_ok db \<longleftrightarrow>
     distinct (map applied_key (t_applied db))
   \<and> (\<forall>a\<in>set (t_applied db). canonical_decimal (ae_stream_epoch a) \<and> canonical_decimal (ae_event_seq a))
   \<and> (\<forall>s\<in>set (t_recoveries db). canonical_decimal (rc_requested_from_epoch s)
        \<and> canonical_decimal (rc_requested_from_seq s))"

lemma sql_length_canonical: "canonical_decimal s \<Longrightarrow> sql_length s = length s"
  using canonical_decimal_digits [of s]
  by (auto simp: sql_length_def list_all_iff is_ascii_digit_def intro!: arg_cong [where f = length] c_text_id)

lemma decimal_text_less:
  assumes "canonical_decimal l" and "canonical_decimal r"
  shows "(sql_length l < sql_length r \<or> sql_length l = sql_length r \<and> l < r) \<longleftrightarrow> dec_val l < dec_val r"
  using decimal_order_correct [OF assms]
  by (auto simp: sql_length_canonical assms decimal_order_def cmp_def split: if_splits)

lemma before_position_iff:
  assumes "canonical_decimal epoch" "canonical_decimal seq"
    and "canonical_decimal (ae_stream_epoch a)" "canonical_decimal (ae_event_seq a)"
  shows "before_position epoch seq a \<longleftrightarrow> receipt_pos a < (dec_val epoch, dec_val seq)"
  using decimal_text_less [OF assms(3,1)] decimal_text_less [OF assms(4,2)]
    dec_val_inj [OF assms(3,1)]
  by (auto simp: before_position_def receipt_pos_def)

lemma prune_order_pos:
  assumes "canonical_decimal (ae_stream_epoch a)" "canonical_decimal (ae_event_seq a)"
    and "canonical_decimal (ae_stream_epoch q)" "canonical_decimal (ae_event_seq q)"
    and "prune_order a \<le> prune_order q"
  shows "receipt_pos a \<le> receipt_pos q"
proof (rule ccontr)
  assume "\<not> ?thesis"
  then have "receipt_pos q < receipt_pos a" by simp
  then have "prune_order q < prune_order a"
    using decimal_text_less [OF assms(3,1)] decimal_text_less [OF assms(4,2)]
      dec_val_inj [OF assms(3,1)]
    by (auto simp: prune_order_def receipt_pos_def)
  with assms(5) show False by simp
qed

lemma take_rev_sorted_greatest:
  assumes "a \<in> set F" and "a \<notin> set (take n (rev (sort_key f F)))"
    and "q \<in> set (take n (rev (sort_key f F)))"
  shows "f a \<le> f q"
proof -
  let ?xs = "rev (sort_key f F)"
  have "set (take n ?xs) \<union> set (drop n ?xs) = set ?xs"
    by (simp add: set_append [symmetric] del: set_append set_sort set_rev)
  then have a: "a \<in> set (drop n ?xs)" using assms by auto
  have "map f (take n ?xs) @ map f (drop n ?xs) = map f ?xs"
    by (simp add: map_append [symmetric] del: map_append)
  moreover have "sorted (rev (map f ?xs))" by (simp add: rev_map)
  ultimately have "sorted (rev (map f (drop n ?xs)) @ rev (map f (take n ?xs)))"
    by (metis rev_append)
  then show ?thesis using assms(3) a unfolding sorted_append by auto
qed

section \<open>What pruning deletes\<close>

lemma t_applied_delete_fold:
  "t_applied (fold (delete_receipt owner) ids db) =
     filter (\<lambda>a. \<not> (ae_owner_identity_id a = owner \<and> ae_event_id a \<in> set ids)) (t_applied db)"
  by (induction ids arbitrary: db)
    (auto simp: delete_receipt_def delete_rows_def intro!: filter_cong)

lemma safe_position_bounds:
  assumes "safe_position db owner epoch seq = Ok (e, s)"
    and "canonical_decimal epoch" "canonical_decimal seq" and "receipts_ok db"
  shows "canonical_decimal e \<and> canonical_decimal s
    \<and> (dec_val e, dec_val s) \<le> (dec_val epoch, dec_val seq)
    \<and> (\<forall>r. load_recovery_state db owner = Some r \<and> \<not> is_terminal (rc_status r) \<longrightarrow>
          (dec_val e, dec_val s) \<le>
          (dec_val (rc_requested_from_epoch r), dec_val (rc_requested_from_seq r)))"
proof (cases "load_recovery_state db owner")
  case None
  with assms show ?thesis by (simp add: safe_position_def)
next
  case (Some r)
  then have "r \<in> set (t_recoveries db)"
    by (auto simp: load_recovery_state_def dest: select_row_Some)
  then have "canonical_decimal (rc_requested_from_epoch r)" "canonical_decimal (rc_requested_from_seq r)"
    using assms(4) by (auto simp: receipts_ok_def)
  with Some assms(1-3) show ?thesis
    by (auto simp: safe_position_def compare_stream_position_def compare_decimal_eq cmp_def
        split: if_splits)
qed

lemma prune_cases:
  assumes "prune_applied_events db owner epoch scan_seq max_delete = Ok (db', n)"
  shows "db' = db \<and> n = 0 \<or>
    (\<exists>e s. safe_position db owner epoch (show_nat (dec_val scan_seq - 1000)) = Ok (e, s)
       \<and> canonical_decimal epoch
       \<and> 10000 < count_rows (\<lambda>a. ae_owner_identity_id a = owner) (t_applied db)
       \<and> (let ids = prune_candidates db owner e s
               (min max_delete (count_rows (\<lambda>a. ae_owner_identity_id a = owner) (t_applied db) - 10000))
          in db' = fold (delete_receipt owner) ids db \<and> n = length ids))"
proof -
  let ?c = "count_rows (\<lambda>a. ae_owner_identity_id a = owner) (t_applied db)"
  have lim: "nat (min (int max_delete) (int ?c - 10000)) = min max_delete (?c - 10000)" by simp
  have scan: "canonical_decimal scan_seq" "canonical_decimal epoch"
    using assms by (auto simp: prune_applied_events_def validate_positive_decimal_eq_Inr result_simps)
  show ?thesis
    using assms
    by (auto simp: prune_applied_events_def result_simps Let_def scan lim subtract_small_decimal_correct
        APPLIED_EVENT_SAFETY_WINDOW_def APPLIED_EVENT_MIN_RECEIPTS_PER_OWNER_def
        split: if_splits prod.splits)
qed

lemma applied_key_inj:
  assumes "receipts_ok db" "a \<in> set (t_applied db)" "b \<in> set (t_applied db)"
    and "ae_owner_identity_id a = ae_owner_identity_id b" "ae_event_id a = ae_event_id b"
  shows "a = b"
  using assms keyed_unique [where key = applied_key, of "t_applied db" a b]
  by (simp add: receipts_ok_def applied_key_def)

lemma distinct_applied: "receipts_ok db \<Longrightarrow> distinct (t_applied db)"
  by (auto simp: receipts_ok_def distinct_map)

text \<open>The rows behind the pruned ids: each is below the safe position and not among the newest.\<close>

definition pruned_rows :: "sync_db \<Rightarrow> string \<Rightarrow> string \<Rightarrow> string \<Rightarrow> nat \<Rightarrow> applied_row list" where
  "pruned_rows db owner e s limit = order_limit prune_order limit
     (filter (\<lambda>a. ae_owner_identity_id a = owner \<and> before_position e s a
        \<and> ae_event_id a \<notin> set (newest_receipts db owner)) (t_applied db))"

lemma prune_candidates_eq: "prune_candidates db owner e s limit = map ae_event_id (pruned_rows db owner e s limit)"
  by (simp add: prune_candidates_def pruned_rows_def Let_def)

lemma pruned_rowsD:
  assumes "a \<in> set (pruned_rows db owner e s limit)"
  shows "a \<in> set (t_applied db) \<and> ae_owner_identity_id a = owner \<and> before_position e s a
    \<and> ae_event_id a \<notin> set (newest_receipts db owner)"
  using subsetD [OF set_order_limit assms [unfolded pruned_rows_def]] by simp

lemma deleted_is_pruned:
  assumes "receipts_ok db" and "a \<in> set (t_applied db)" and "ae_owner_identity_id a = owner"
    and "ae_event_id a \<in> set (prune_candidates db owner e s limit)"
  shows "a \<in> set (pruned_rows db owner e s limit)"
proof -
  obtain b where b: "b \<in> set (pruned_rows db owner e s limit)" "ae_event_id b = ae_event_id a"
    using assms(4) by (auto simp: prune_candidates_eq)
  have "b \<in> set (t_applied db)" "ae_owner_identity_id b = owner" using pruned_rowsD [OF b(1)] by auto
  then have "a = b" using assms(3) b(2) by (intro applied_key_inj [OF assms(1,2)]) simp_all
  with b(1) show ?thesis by simp
qed

lemma pruned_count:
  assumes "receipts_ok db"
  shows "length (t_applied (fold (delete_receipt owner) (prune_candidates db owner e s limit) db))
    + length (prune_candidates db owner e s limit) = length (t_applied db)"
proof -
  let ?ids = "prune_candidates db owner e s limit"
  let ?P = "\<lambda>a. ae_owner_identity_id a = owner \<and> ae_event_id a \<in> set ?ids"
  have "set (filter ?P (t_applied db)) = set (pruned_rows db owner e s limit)"
  proof (intro subset_antisym subsetI)
    fix a assume "a \<in> set (filter ?P (t_applied db))"
    then show "a \<in> set (pruned_rows db owner e s limit)"
      by (intro deleted_is_pruned [OF assms]) simp_all
  next
    fix a assume a: "a \<in> set (pruned_rows db owner e s limit)"
    from pruned_rowsD [OF a] a show "a \<in> set (filter ?P (t_applied db))"
      by (simp add: prune_candidates_eq)
  qed
  moreover have "distinct (pruned_rows db owner e s limit)"
    using distinct_applied [OF assms] by (simp add: pruned_rows_def order_limit_def distinct_take)
  moreover have "distinct (filter ?P (t_applied db))" using distinct_applied [OF assms] by simp
  ultimately have "length (filter ?P (t_applied db)) = length (pruned_rows db owner e s limit)"
    by (metis distinct_card)
  then show ?thesis
    using sum_length_filter_compl [of ?P "t_applied db"] by (simp add: t_applied_delete_fold prune_candidates_eq)
qed

text \<open>The newest ten thousand receipts of the owner outlive every pruned one.\<close>

lemma newest_survive:
  fixes db owner
  defines "F \<equiv> filter (\<lambda>a. ae_owner_identity_id a = owner) (t_applied db)"
  assumes ok: "receipts_ok db" and a: "a \<in> set (pruned_rows db owner e s limit)"
    and n: "10000 < length F"
  shows "10000 \<le> count_rows (\<lambda>q. ae_owner_identity_id q = owner \<and> receipt_pos a \<le> receipt_pos q)
     (t_applied (fold (delete_receipt owner) (prune_candidates db owner e s limit) db))"
proof -
  let ?N = "take 10000 (rev (sort_key prune_order F))"
  let ?D = "t_applied (fold (delete_receipt owner) (prune_candidates db owner e s limit) db)"
  let ?P = "\<lambda>q. ae_owner_identity_id q = owner \<and> receipt_pos a \<le> receipt_pos q"
  have dist: "distinct ?N" using distinct_applied [OF ok] by (simp add: F_def distinct_take)
  have sub: "set ?N \<subseteq> set F" using set_take_subset [of 10000 "rev (sort_key prune_order F)"] by simp
  have aF: "a \<in> set F" and aN: "a \<notin> set ?N"
    using pruned_rowsD [OF a] by (auto simp: F_def newest_receipts_def)
  have "q \<in> set (filter ?P ?D)" if "q \<in> set ?N" for q
  proof -
    have qF: "q \<in> set (t_applied db)" "ae_owner_identity_id q = owner" using sub that by (auto simp: F_def)
    have "ae_event_id q \<in> set (newest_receipts db owner)" using that by (simp add: newest_receipts_def F_def)
    then have "ae_event_id q \<notin> set (prune_candidates db owner e s limit)"
      by (auto simp: prune_candidates_eq dest: pruned_rowsD)
    moreover have "prune_order a \<le> prune_order q" by (rule take_rev_sorted_greatest [OF aF aN that])
    then have "receipt_pos a \<le> receipt_pos q"
      using ok qF pruned_rowsD [OF a] by (intro prune_order_pos) (auto simp: receipts_ok_def)
    ultimately show ?thesis using qF by (simp add: t_applied_delete_fold)
  qed
  then have "set ?N \<subseteq> set (filter ?P ?D)" by blast
  then have "card (set ?N) \<le> card (set (filter ?P ?D))" by (intro card_mono) auto
  also have "\<dots> \<le> length (filter ?P ?D)" by (rule card_length)
  finally show ?thesis using n by (simp add: distinct_card [OF dist] count_rows_def)
qed

text \<open>
  C39. Pruning the receipts of applied events deletes no more rows than it was allowed, and only
  receipts of the owner that lie more than the safety window behind the cursor and before the
  starting point of an unfinished recovery; and for each receipt it deletes, ten thousand
  receipts of that owner at the same or later positions are still stored.
\<close>

theorem pruning_keeps_recent_receipts:
  assumes "receipts_ok db"
    and "prune_applied_events db owner epoch scan_seq max_delete = Ok (db', n)"
  shows "n \<le> max_delete \<and> length (t_applied db') + n = length (t_applied db)
    \<and> set (t_applied db') \<subseteq> set (t_applied db)
    \<and> (\<forall>a\<in>set (t_applied db) - set (t_applied db').
         ae_owner_identity_id a = owner
       \<and> receipt_pos a < (dec_val epoch, dec_val scan_seq - 1000)
       \<and> (\<forall>r. load_recovery_state db owner = Some r \<and> \<not> is_terminal (rc_status r) \<longrightarrow>
            receipt_pos a < (dec_val (rc_requested_from_epoch r), dec_val (rc_requested_from_seq r)))
       \<and> 10000 \<le> count_rows (\<lambda>q. ae_owner_identity_id q = owner \<and> receipt_pos a \<le> receipt_pos q)
            (t_applied db'))"
  using prune_cases [OF assms(2)]
proof
  assume "\<exists>e s. safe_position db owner epoch (show_nat (dec_val scan_seq - 1000)) = Ok (e, s)
       \<and> canonical_decimal epoch
       \<and> 10000 < count_rows (\<lambda>a. ae_owner_identity_id a = owner) (t_applied db)
       \<and> (let ids = prune_candidates db owner e s
               (min max_delete (count_rows (\<lambda>a. ae_owner_identity_id a = owner) (t_applied db) - 10000))
          in db' = fold (delete_receipt owner) ids db \<and> n = length ids)"
  then obtain e s limit where
      sp: "safe_position db owner epoch (show_nat (dec_val scan_seq - 1000)) = Ok (e, s)"
    and ep: "canonical_decimal epoch" and lim: "limit \<le> max_delete"
    and big: "10000 < length (filter (\<lambda>a. ae_owner_identity_id a = owner) (t_applied db))"
    and db': "db' = fold (delete_receipt owner) (prune_candidates db owner e s limit) db"
    and n: "n = length (prune_candidates db owner e s limit)"
    unfolding Let_def count_rows_def by (metis min.cobounded1)
  note b = safe_position_bounds [OF sp ep canonical_show_nat assms(1), unfolded dec_val_show_nat]
  have "n \<le> max_delete"
    using lim by (simp add: n prune_candidates_eq pruned_rows_def length_order_limit)
  moreover have "ae_owner_identity_id a = owner \<and> receipt_pos a < (dec_val epoch, dec_val scan_seq - 1000)
       \<and> (\<forall>r. load_recovery_state db owner = Some r \<and> \<not> is_terminal (rc_status r) \<longrightarrow>
            receipt_pos a < (dec_val (rc_requested_from_epoch r), dec_val (rc_requested_from_seq r)))
       \<and> 10000 \<le> count_rows (\<lambda>q. ae_owner_identity_id q = owner \<and> receipt_pos a \<le> receipt_pos q)
            (t_applied db')"
    if a: "a \<in> set (t_applied db) - set (t_applied db')" for a
  proof -
    have pr: "a \<in> set (pruned_rows db owner e s limit)"
      using a by (intro deleted_is_pruned [OF assms(1)]) (auto simp: db' t_applied_delete_fold)
    have "receipt_pos a < (dec_val e, dec_val s)"
      using pruned_rowsD [OF pr] assms(1) b by (subst before_position_iff [symmetric]) (auto simp: receipts_ok_def)
    then show ?thesis
      using b pruned_rowsD [OF pr] newest_survive [OF assms(1) pr big] unfolding db'
      by (meson order_less_le_trans)
  qed
  ultimately show ?thesis
    using pruned_count [OF assms(1), of owner e s limit] by (auto simp: db' n t_applied_delete_fold)
qed simp

definition sample_old_receipt :: "nat \<Rightarrow> applied_row" where
  "sample_old_receipt i = \<lparr>ae_owner_identity_id = ''owner'', ae_event_id = show_nat i,
     ae_stream_epoch = ''7'', ae_event_seq = show_nat (Suc i), ae_applied_at = 0,
     ae_payload_hash = None\<rparr>"

definition sample_receipts_db :: sync_db where
  "sample_receipts_db = empty_db\<lparr>t_applied := map sample_old_receipt [0..<10001]\<rparr>"

lemma sample_receipts_ok: "receipts_ok sample_receipts_db"
proof -
  have "inj show_nat" by (rule injI) (metis dec_val_show_nat)
  then have "inj (\<lambda>i. applied_key (sample_old_receipt i))"
    by (auto simp: inj_def applied_key_def sample_old_receipt_def)
  then have "distinct (map applied_key (t_applied sample_receipts_db))"
    by (simp add: sample_receipts_db_def comp_def distinct_map inj_on_def inj_def del: upt_Suc)
  moreover have "canonical_decimal ''7''" by code_simp
  ultimately show ?thesis
    by (auto simp: receipts_ok_def sample_receipts_db_def empty_db_def sample_old_receipt_def simp del: upt_Suc)
qed

theorem pruning_keeps_recent_receipts_witness:
  "\<exists>db' n. prune_applied_events sample_receipts_db ''owner'' ''7'' ''20000'' 5 = Ok (db', n)
     \<and> n \<le> 5 \<and> length (t_applied db') + n = 10001"
proof -
  have v: "validate_required ''owner_identity_id'' ''owner'' = Ok ()"
    "validate_positive_decimal ''stream_epoch'' ''7'' = Ok ()" "canonical_decimal ''20000''"
    by code_simp+
  have d: "dec_val ''20000'' = 20000" by (simp add: dec_val_def digit_val_def)
  have r: "load_recovery_state sample_receipts_db ''owner'' = None"
    by (simp add: load_recovery_state_def sample_receipts_db_def empty_db_def)
  have len: "length (t_applied sample_receipts_db) = 10001"
    by (simp add: sample_receipts_db_def del: upt_Suc)
  have "filter (\<lambda>a. ae_owner_identity_id a = ''owner'') (t_applied sample_receipts_db) =
      t_applied sample_receipts_db"
    by (simp add: sample_receipts_db_def sample_old_receipt_def filter_map comp_def del: upt_Suc)
  then have "count_rows (\<lambda>a. ae_owner_identity_id a = ''owner'') (t_applied sample_receipts_db) = 10001"
    by (simp add: count_rows_def len)
  then obtain db' n where p: "prune_applied_events sample_receipts_db ''owner'' ''7'' ''20000'' 5 = Ok (db', n)"
    by (simp add: prune_applied_events_def validate_decimal_def v r d safe_position_def Let_def
        subtract_small_decimal_correct APPLIED_EVENT_MIN_RECEIPTS_PER_OWNER_def
        APPLIED_EVENT_SAFETY_WINDOW_def digit_val_def)
  from pruning_keeps_recent_receipts [OF sample_receipts_ok this] len show ?thesis
    using p by auto
qed

section \<open>The budget of a cleanup\<close>

lemma delete_fold_frame:
  "t_outbox (fold (delete_receipt owner) ids db) = t_outbox db"
  "t_recoveries (fold (delete_receipt owner) ids db) = t_recoveries db"
  by (induction ids arbitrary: db) (simp_all add: delete_receipt_def)

lemma prune_frame:
  assumes "prune_applied_events db owner epoch scan_seq max_delete = Ok (db', n)"
  shows "t_outbox db' = t_outbox db" "t_recoveries db' = t_recoveries db" "n \<le> max_delete"
  using prune_cases [OF assms]
  by (auto simp: delete_fold_frame Let_def prune_candidates_eq pruned_rows_def length_order_limit)

lemma cleanup_recovery_frame:
  assumes "cleanup_recovery db owner epoch scan_seq budget cutoff = Ok (db', recovered)"
  shows "t_outbox db' = t_outbox db"
    and "recovered \<Longrightarrow> budget"
    and "\<forall>s\<in>set (t_recoveries db) - set (t_recoveries db'). rc_owner_identity_id s = owner \<and> is_terminal (rc_status s)"
  using assms
  by (auto simp: cleanup_recovery_def result_simps Let_def set_delete_rows split: option.splits if_splits)

lemma terminal_mutationsD:
  assumes "r \<in> set (terminal_mutations db owner cutoff limit)"
  shows "r \<in> set (t_outbox db) \<and> mu_owner_identity_id r = owner \<and> is_settled (mu_status r)
    \<and> mu_updated_at r \<le> cutoff"
  using subsetD [OF set_order_limit assms [unfolded terminal_mutations_def]] by simp

lemma delete_terminal_mutations:
  fixes db owner cutoff limit
  assumes dist: "distinct (map mutation_key (t_outbox db))"
  defines "rows \<equiv> terminal_mutations db owner cutoff limit"
  defines "rest \<equiv> delete_rows (\<lambda>r. mutation_key r \<in> mutation_key ` set rows) (t_outbox db)"
  shows "length rest + length rows = length (t_outbox db)"
    and "set (t_outbox db) - set rest = set rows"
proof -
  let ?P = "\<lambda>r. mutation_key r \<in> mutation_key ` set rows"
  have mem: "r \<in> set rows" if r: "r \<in> set (t_outbox db)" "?P r" for r
  proof -
    obtain q where q: "q \<in> set rows" "mutation_key r = mutation_key q" using r(2) by blast
    then have "q \<in> set (t_outbox db)" using terminal_mutationsD by (auto simp: rows_def)
    then have "r = q" using r(1) q(2) by (intro keyed_unique [where key = mutation_key, OF dist]) auto
    with q show ?thesis by simp
  qed
  have set_eq: "set (filter ?P (t_outbox db)) = set rows"
    using mem by (auto simp: rows_def dest: terminal_mutationsD)
  have "distinct (t_outbox db)" using dist by (simp add: distinct_map)
  then have "distinct rows" "distinct (filter ?P (t_outbox db))"
    by (simp_all add: rows_def terminal_mutations_def order_limit_def distinct_take)
  then have "length (filter ?P (t_outbox db)) = length rows" using set_eq by (metis distinct_card)
  then show "length rest + length rows = length (t_outbox db)"
    using sum_length_filter_compl [of ?P "t_outbox db"] by (simp add: rest_def delete_rows_def)
  show "set (t_outbox db) - set rest = set rows"
    using set_eq by (auto simp: rest_def set_delete_rows)
qed


definition sample_mutation :: "string \<Rightarrow> string \<Rightarrow> string \<Rightarrow> LocalMutationRecord" where
  "sample_mutation mutation_id aggregate status = \<lparr>mu_owner_identity_id = ''owner'',
     mu_mutation_id = mutation_id, mu_operation_id = ''op-'' @ mutation_id,
     mu_mutation_type = ''read_state_mark_read'', mu_aggregate_id = aggregate,
     mu_payload_json = ''{}'', mu_status = status, mu_attempt_count = 1, mu_retry_at = None,
     mu_in_flight_since = None, mu_last_error_code = None, mu_created_at = 0, mu_updated_at = 0\<rparr>"

definition sample_recovery :: RecoveryState where
  "sample_recovery = \<lparr>rc_owner_identity_id = ''owner'', rc_mode = ''compact_recovery'',
     rc_requested_from_epoch = ''1'', rc_requested_from_seq = ''0'', rc_recovery_id_hash = None,
     rc_snapshot_scan_seq = Some ''5'', rc_status = ''completed'', rc_retry_count = 0,
     rc_last_error_code = None, rc_started_at = 0, rc_updated_at = 0\<rparr>"

definition sample_cleanup_db :: sync_db where
  "sample_cleanup_db = sample_db\<lparr>t_recoveries := [sample_recovery],
     t_outbox := [sample_mutation ''a'' ''t1'' ''committed'', sample_mutation ''b'' ''t1'' ''pending'',
       sample_mutation ''c'' ''t2'' ''permanent_failure'']\<rparr>"


section \<open>Receipts and recoveries are read back\<close>

lemma record_applied_event_cases:
  assumes "record_applied_event db r = Ok (db', new)"
  shows "canonical_decimal (ae_stream_epoch r) \<and> canonical_decimal (ae_event_seq r)
    \<and> (new \<and> db' = db\<lparr>t_applied := t_applied db @ [receipt_row r]\<rparr>
          \<and> applied_ok db (receipt_row r)
       \<or> \<not> new \<and> db' = db
          \<and> applied_event_position db (ae_owner_identity_id r) (ae_event_id r) =
              Some (ae_stream_epoch r, ae_event_seq r))"
  using assms
  by (auto simp: record_applied_event_def result_simps applied_event_position_def
      validate_positive_decimal_eq_Inr split: option.splits if_splits)

lemma receipt_row_simps [simp]:
  "ae_owner_identity_id (receipt_row r) = ae_owner_identity_id r"
  "ae_event_id (receipt_row r) = ae_event_id r"
  "ae_stream_epoch (receipt_row r) = ae_stream_epoch r"
  "ae_event_seq (receipt_row r) = ae_event_seq r"
  by (simp_all add: receipt_row_def)

lemma new_receipt_position:
  assumes "applied_ok db (receipt_row r)"
  shows "applied_event_position (db\<lparr>t_applied := t_applied db @ [receipt_row r]\<rparr>)
    (ae_owner_identity_id r) (ae_event_id r) = Some (ae_stream_epoch r, ae_event_seq r)"
proof -
  have "select_row (\<lambda>a. ae_owner_identity_id a = ae_owner_identity_id r \<and> ae_event_id a = ae_event_id r)
      (t_applied db) = None"
    using assms by (auto simp: applied_ok_def applied_key_def select_row_None exists_row_iff)
  then show ?thesis by (simp add: applied_event_position_def select_row_append)
qed

lemma position_answers_receipt:
  assumes "record_applied_event db r = Ok (db', new)"
    and "applied_event_position db2 (ae_owner_identity_id s) (ae_event_id s) = Some (e, q)"
    and "ae_owner_identity_id s = ae_owner_identity_id r" "ae_event_id s = ae_event_id r"
    and "canonical_decimal (ae_stream_epoch s)" "ae_stream_epoch s \<noteq> ''0''"
    and "canonical_decimal (ae_event_seq s)" "ae_event_seq s \<noteq> ''0''"
  shows "record_applied_event db2 s =
    (if e = ae_stream_epoch s \<and> q = ae_event_seq s then Ok (db2, False)
     else Err (binding_conflict ''sync event id was already applied at a different stream position''))"
proof -
  have "validate_required ''owner_identity_id'' (ae_owner_identity_id s) = Ok ()"
    "validate_required ''event_id'' (ae_event_id s) = Ok ()"
    using assms(1,3,4) by (auto simp: record_applied_event_def result_simps)
  then show ?thesis
    using assms(2,5-8)
    by (auto simp: record_applied_event_def applied_event_position_def validate_positive_decimal_def
        validate_decimal_def)
qed

text \<open>
  Once an event is recorded as applied, recording it again at the same stream position
  changes nothing and reports that it is not new, and recording it at any other position of the
  stream is refused as a conflict.
\<close>

lemma applied_event_is_recorded_once:
  assumes "record_applied_event db r = Ok (db', new)"
    and "0 < e" and "0 < q"
    and "s = r\<lparr>ae_stream_epoch := show_nat e, ae_event_seq := show_nat q, ae_applied_at := t\<rparr>"
  shows "record_applied_event db' s =
    (if (e, q) = (dec_val (ae_stream_epoch r), dec_val (ae_event_seq r)) then Ok (db', False)
     else Err (IdentityBindingConflict
            ''sync event id was already applied at a different stream position''))"
proof -
  note c = record_applied_event_cases [OF assms(1)]
  have pos: "applied_event_position db' (ae_owner_identity_id s) (ae_event_id s) =
      Some (ae_stream_epoch r, ae_event_seq r)"
    using c new_receipt_position [of db r] by (auto simp: assms(4))
  have nz: "show_nat e \<noteq> ''0''" "show_nat q \<noteq> ''0''"
    using hd_show_nat [OF assms(2)] hd_show_nat [OF assms(3)] by auto
  have eq: "ae_stream_epoch r = show_nat e \<longleftrightarrow> dec_val (ae_stream_epoch r) = e"
    "ae_event_seq r = show_nat q \<longleftrightarrow> dec_val (ae_event_seq r) = q"
    using c by (metis dec_val_show_nat show_nat_dec_val)+
  from position_answers_receipt [OF assms(1) pos] nz eq show ?thesis
    by (auto simp: assms(4) binding_conflict_def)
qed

definition sample_applied_receipt :: AppliedEventReceipt where
  "sample_applied_receipt = \<lparr>ae_owner_identity_id = ''owner'', ae_event_id = ''e1'',
     ae_stream_epoch = ''3'', ae_event_seq = ''12'', ae_applied_at = 5\<rparr>"

lemma applied_event_is_recorded_once_example:
  "\<exists>db'. record_applied_event sample_db sample_applied_receipt = Ok (db', True)
     \<and> record_applied_event db' sample_applied_receipt = Ok (db', False)
     \<and> (\<exists>e. record_applied_event db' (sample_applied_receipt\<lparr>ae_event_seq := ''13''\<rparr>) = Err e)"
proof -
  have "case record_applied_event sample_db sample_applied_receipt of
      Inl _ \<Rightarrow> False | Inr (db', new) \<Rightarrow> new" by code_simp
  then obtain db' where r: "record_applied_event sample_db sample_applied_receipt = Ok (db', True)"
    by (auto split: sum.splits)
  have d: "dec_val ''3'' = 3" "dec_val ''12'' = 12" "show_nat 3 = ''3''" "show_nat 12 = ''12''"
    "show_nat 13 = ''13''" by code_simp+
  have s: "sample_applied_receipt = sample_applied_receipt\<lparr>ae_stream_epoch := show_nat 3,
      ae_event_seq := show_nat 12, ae_applied_at := 5\<rparr>"
    "sample_applied_receipt\<lparr>ae_event_seq := ''13''\<rparr> = sample_applied_receipt\<lparr>ae_stream_epoch := show_nat 3,
      ae_event_seq := show_nat 13, ae_applied_at := 5\<rparr>"
    unfolding d by (simp_all add: sample_applied_receipt_def)
  show ?thesis
    using r applied_event_is_recorded_once [OF r _ _ s(1)] applied_event_is_recorded_once [OF r _ _ s(2)]
    by (simp add: sample_applied_receipt_def d digit_val_def)
qed

interpretation recovery_table: keyed_upsert rc_owner_identity_id recovery_merge
  by unfold_locales (simp add: recovery_merge_def)

lemma load_upserted_recovery:
  assumes "upsert_recovery_state db s = Ok db'"
  shows "load_recovery_state db' owner =
    (if owner = rc_owner_identity_id s then Some s else load_recovery_state db owner)"
proof -
  have "db' = db\<lparr>t_recoveries := upsert_row rc_owner_identity_id recovery_merge s (t_recoveries db)\<rparr>"
    using assms by (auto simp: upsert_recovery_state_def result_simps split: if_splits)
  then show ?thesis
    using recovery_table.lookup_upsert_same [of s "t_recoveries db"]
      recovery_table.lookup_upsert_other [of owner s "t_recoveries db"]
    by (auto simp: load_recovery_state_def recovery_merge_def split: option.splits dest: select_row_Some)
qed

lemma recover_interrupted_work_rows:
  "r \<in> set (t_outbox (recover_interrupted_work db t)) \<Longrightarrow> mu_status r \<noteq> ''in_flight''"
  "s \<in> set (t_recoveries (recover_interrupted_work db t)) \<Longrightarrow> \<not> interrupted_recovery s"
  by (auto simp: recover_interrupted_work_def set_update_rows interrupted_recovery_def split: if_splits)

end
