(* ===== verification/Read_State.thy ===== *)
theory Read_State
  imports Sync_Inbox
begin

text \<open>
  The read state of the conversations, \<open>local_state/read_state.rs\<close>: how far each thread has been
  read, whether the server knows it, and the version of the state the server last sent.  A write
  either replaces the row or merges into it, keeping the further watermark.
\<close>

section \<open>Operations\<close>

definition rs_required :: "string \<Rightarrow> string \<Rightarrow> string ImResult" where
  "rs_required field value =
     (let value = trim value in
      if value = [] then Err (invalid_input (Some field) (field @ '' is required'')) else Ok value)"

definition nullable_option :: "string option \<Rightarrow> string option" where
  "nullable_option value = filter_option (\<lambda>v. v \<noteq> []) (map_option trim value)"

definition read_state_key :: "ThreadReadStateRecord \<Rightarrow> string \<times> string \<times> string" where
  "read_state_key r = (rs_owner_identity_id r, rs_thread_scope r, rs_thread_id r)"

text \<open>The row that the parameters of both statements stand for.\<close>

definition read_state_params :: "ThreadReadStateRecord \<Rightarrow> ThreadReadStateRecord ImResult" where
  "read_state_params r =
     bind_result (rs_required ''owner_identity_id'' (rs_owner_identity_id r)) (\<lambda>owner.
     bind_result (rs_required ''thread_scope'' (rs_thread_scope r)) (\<lambda>scope.
     bind_result (rs_required ''thread_id'' (rs_thread_id r)) (\<lambda>thread.
     bind_result (rs_required ''updated_at'' (rs_updated_at r)) (\<lambda>updated_at.
       Ok \<lparr>rs_owner_identity_id = owner, rs_owner_did = trim (rs_owner_did r),
           rs_thread_scope = scope, rs_thread_id = thread,
           rs_conversation_id = trim (rs_conversation_id r),
           rs_read_watermark_message_id = nullable_option (rs_read_watermark_message_id r),
           rs_read_watermark_seq = nullable_option (rs_read_watermark_seq r),
           rs_read_watermark_at = nullable_option (rs_read_watermark_at r),
           rs_pending_remote_ack = rs_pending_remote_ack r,
           rs_remote_ack_at = nullable_option (rs_remote_ack_at r),
           rs_remote_state_version = nullable_option (rs_remote_state_version r),
           rs_updated_at = updated_at\<rparr>))))"

definition cast_seq :: "externs \<Rightarrow> string \<Rightarrow> int" where
  "cast_seq x s = x_cast_integer x (SqlText s)"

text \<open>The \<open>CASE\<close> of the columns that follow the watermark: the old row has none, or the new one
  is at least as far.\<close>

definition watermark_reached :: "externs \<Rightarrow> string option \<Rightarrow> string option \<Rightarrow> bool" where
  "watermark_reached x old new \<longleftrightarrow>
     (case old of None \<Rightarrow> True
      | Some o_seq \<Rightarrow> opt_any (\<lambda>n_seq. cast_seq x n_seq \<ge> cast_seq x o_seq) new)"

definition merged_watermark :: "externs \<Rightarrow> string option \<Rightarrow> string option \<Rightarrow> string option" where
  "merged_watermark x old new =
     (case old of None \<Rightarrow> new
      | Some o_seq \<Rightarrow>
          (case new of None \<Rightarrow> old
           | Some n_seq \<Rightarrow> if cast_seq x n_seq > cast_seq x o_seq then new else old))"

definition merged_version :: "string option \<Rightarrow> string option \<Rightarrow> string option" where
  "merged_version old new =
     (case old of None \<Rightarrow> new
      | Some o_ver \<Rightarrow>
          (case new of None \<Rightarrow> old
           | Some n_ver \<Rightarrow>
               if sql_length n_ver > sql_length o_ver
                  \<or> sql_length n_ver = sql_length o_ver \<and> n_ver \<ge> o_ver
               then new else old))"

definition read_state_merge ::
  "externs \<Rightarrow> ThreadReadStateRecord \<Rightarrow> ThreadReadStateRecord \<Rightarrow> ThreadReadStateRecord" where
  "read_state_merge x old new =
     (let reached = watermark_reached x (rs_read_watermark_seq old) (rs_read_watermark_seq new)
      in old\<lparr>rs_owner_did := rs_owner_did new,
         rs_conversation_id := (if sql_trim (rs_conversation_id new) \<noteq> [] then rs_conversation_id new
                                else rs_conversation_id old),
         rs_read_watermark_message_id := (if reached then rs_read_watermark_message_id new
                                          else rs_read_watermark_message_id old),
         rs_read_watermark_seq :=
           merged_watermark x (rs_read_watermark_seq old) (rs_read_watermark_seq new),
         rs_read_watermark_at := (if reached then rs_read_watermark_at new else rs_read_watermark_at old),
         rs_pending_remote_ack := (if reached then rs_pending_remote_ack new
                                   else rs_pending_remote_ack old),
         rs_remote_ack_at := (if reached then rs_remote_ack_at new else rs_remote_ack_at old),
         rs_remote_state_version :=
           merged_version (rs_remote_state_version old) (rs_remote_state_version new),
         rs_updated_at := (if reached then rs_updated_at new else rs_updated_at old)\<rparr>)"

definition upsert_thread_read_state ::
  "externs \<Rightarrow> sync_db \<Rightarrow> ThreadReadStateRecord \<Rightarrow> sync_db ImResult" where
  "upsert_thread_read_state x db r =
     bind_result (read_state_params r) (\<lambda>row.
       Ok (db\<lparr>t_read_states := upsert_row read_state_key (read_state_merge x) row (t_read_states db)\<rparr>))"

definition read_state_replace ::
  "ThreadReadStateRecord \<Rightarrow> ThreadReadStateRecord \<Rightarrow> ThreadReadStateRecord" where
  "read_state_replace old new = new\<lparr>rs_owner_identity_id := rs_owner_identity_id old,
     rs_thread_scope := rs_thread_scope old, rs_thread_id := rs_thread_id old\<rparr>"

definition replace_thread_read_state :: "sync_db \<Rightarrow> ThreadReadStateRecord \<Rightarrow> sync_db ImResult" where
  "replace_thread_read_state db r =
     bind_result (read_state_params r) (\<lambda>row.
       Ok (db\<lparr>t_read_states := upsert_row read_state_key read_state_replace row (t_read_states db)\<rparr>))"

definition get_thread_read_state ::
  "sync_db \<Rightarrow> string \<Rightarrow> string \<Rightarrow> string \<Rightarrow> ThreadReadStateRecord option ImResult" where
  "get_thread_read_state db owner scope thread =
     bind_result (rs_required ''owner_identity_id'' owner) (\<lambda>owner.
     bind_result (rs_required ''thread_scope'' scope) (\<lambda>scope.
     bind_result (rs_required ''thread_id'' thread) (\<lambda>thread.
       Ok (select_row (\<lambda>r. rs_owner_identity_id r = owner \<and> rs_thread_scope r = scope
             \<and> rs_thread_id r = thread) (t_read_states db)))))"

section \<open>The two tables\<close>

interpretation merged_read_states: keyed_upsert read_state_key "read_state_merge x" for x
  by unfold_locales (simp add: read_state_merge_def read_state_key_def Let_def)

interpretation replaced_read_states: keyed_upsert read_state_key read_state_replace
  by unfold_locales (simp add: read_state_replace_def read_state_key_def)

text \<open>What the row of a thread says about how far it has been read.\<close>

definition stored_watermark :: "sync_db \<Rightarrow> string \<times> string \<times> string \<Rightarrow> string option" where
  "stored_watermark db k =
     Option.bind (select_row (\<lambda>r. read_state_key r = k) (t_read_states db)) rs_read_watermark_seq"

text \<open>SQLite reads the decimal text of a 64-bit number as that number.\<close>

definition casts_decimals :: "externs \<Rightarrow> bool" where
  "casts_decimals x \<longleftrightarrow> (\<forall>n. int n \<le> i64_max \<longrightarrow> x_cast_integer x (SqlText (show_nat n)) = int n)"

definition trimmed_key :: "ThreadReadStateRecord \<Rightarrow> string \<times> string \<times> string" where
  "trimmed_key r = (trim (rs_owner_identity_id r), trim (rs_thread_scope r), trim (rs_thread_id r))"

lemma read_state_params_eq_Inr:
  assumes "read_state_params r = Ok row"
  shows "read_state_key row = trimmed_key r"
    and "rs_read_watermark_seq row = nullable_option (rs_read_watermark_seq r)"
  using assms
  by (auto simp: read_state_params_def rs_required_def result_simps Let_def read_state_key_def
      trimmed_key_def split: if_splits)

lemma nullable_show_nat [simp]: "nullable_option (Some (show_nat n)) = Some (show_nat n)"
  by (simp add: nullable_option_def)

lemma merged_watermark_show_nat:
  assumes "casts_decimals x" and "int m \<le> i64_max" and "int n \<le> i64_max"
  shows "merged_watermark x (Some (show_nat m)) (Some (show_nat n)) = Some (show_nat (max m n))"
  using assms by (auto simp: merged_watermark_def cast_seq_def casts_decimals_def max_def)

lemma upsert_watermark:
  assumes "casts_decimals x" and "upsert_thread_read_state x db r = Ok db'"
    and "rs_read_watermark_seq r = Some (show_nat n)" and "int n \<le> i64_max"
    and "stored_watermark db (trimmed_key r) = map_option show_nat m" and "opt_all (\<lambda>k. int k \<le> i64_max) m"
  shows "stored_watermark db' (trimmed_key r) =
    Some (show_nat (case m of None \<Rightarrow> n | Some k \<Rightarrow> max k n))"
proof -
  obtain row where row: "read_state_params r = Ok row"
    and db': "t_read_states db' = upsert_row read_state_key (read_state_merge x) row (t_read_states db)"
    using assms(2) by (auto simp: upsert_thread_read_state_def result_simps)
  note p = read_state_params_eq_Inr [OF row]
  have seq: "rs_read_watermark_seq row = Some (show_nat n)" using p(2) assms(3) by simp
  show ?thesis
  proof (cases "select_row (\<lambda>q. read_state_key q = read_state_key row) (t_read_states db)")
    case None
    with assms(5) have "m = None" by (simp add: stored_watermark_def p)
    with None show ?thesis
      using merged_read_states.lookup_upsert_same [of row x "t_read_states db"]
      by (simp add: stored_watermark_def db' seq p(1) [symmetric])
  next
    case (Some q)
    then have q: "rs_read_watermark_seq q = map_option show_nat m"
      using assms(5) by (simp add: stored_watermark_def p)
    have "merged_watermark x (map_option show_nat m) (Some (show_nat n)) =
        Some (show_nat (case m of None \<Rightarrow> n | Some k \<Rightarrow> max k n))"
      using assms(1,4,6) merged_watermark_show_nat
      by (cases m) (simp_all add: merged_watermark_def)
    with Some show ?thesis
      using merged_read_states.lookup_upsert_same [of row x "t_read_states db"]
      by (simp add: stored_watermark_def db' seq q p(1) [symmetric] read_state_merge_def Let_def)
  qed
qed


definition sample_cast_x :: externs where
  "sample_cast_x = sample_x\<lparr>x_cast_integer :=
     (\<lambda>v. case v of SqlInt i \<Rightarrow> i | SqlText s \<Rightarrow> int (dec_val s) | _ \<Rightarrow> 0)\<rparr>"

definition sample_read :: "string \<Rightarrow> ThreadReadStateRecord" where
  "sample_read seq = \<lparr>rs_owner_identity_id = ''owner'', rs_owner_did = ''did:a'',
     rs_thread_scope = ''group'', rs_thread_id = '' g '', rs_conversation_id = ''g'',
     rs_read_watermark_message_id = None, rs_read_watermark_seq = Some seq,
     rs_read_watermark_at = None, rs_pending_remote_ack = True, rs_remote_ack_at = None,
     rs_remote_state_version = None, rs_updated_at = ''t''\<rparr>"

definition sample_read_db :: sync_db where
  "sample_read_db = empty_db\<lparr>t_read_states := [(sample_read ''5'')\<lparr>rs_thread_id := ''g''\<rparr>]\<rparr>"


lemma get_replaced_read_state:
  assumes "replace_thread_read_state db r = Ok db'" and "read_state_params r = Ok row"
  shows "get_thread_read_state db' (rs_owner_identity_id r) (rs_thread_scope r) (rs_thread_id r) = Ok (Some row)"
proof -
  have db': "t_read_states db' = upsert_row read_state_key read_state_replace row (t_read_states db)"
    using assms by (auto simp: replace_thread_read_state_def result_simps)
  have k: "read_state_key row = trimmed_key r" by (rule read_state_params_eq_Inr [OF assms(2)])
  have P: "(\<lambda>q. rs_owner_identity_id q = trim (rs_owner_identity_id r) \<and> rs_thread_scope q = trim (rs_thread_scope r)
      \<and> rs_thread_id q = trim (rs_thread_id r)) = (\<lambda>q. read_state_key q = read_state_key row)"
    unfolding k by (auto simp: read_state_key_def trimmed_key_def)
  have "get_thread_read_state db' (rs_owner_identity_id r) (rs_thread_scope r) (rs_thread_id r) =
      Ok (select_row (\<lambda>q. read_state_key q = read_state_key row) (t_read_states db'))"
    using assms(2)
    by (auto simp: get_thread_read_state_def read_state_params_def rs_required_def Let_def result_simps
        P [symmetric] split: if_splits)
  also have "select_row (\<lambda>q. read_state_key q = read_state_key row) (t_read_states db') = Some row"
    unfolding db' replaced_read_states.lookup_upsert_same
    by (auto simp: read_state_replace_def read_state_key_def split: option.splits dest!: select_row_Some)
  finally show ?thesis .
qed

end
