(* ===== verification/Mutation_Outbox.thy ===== *)
theory Mutation_Outbox
  imports Sync_Lanes Sync_Receipts Read_State
begin

text \<open>
  The outbox of local read marks, \<open>local_mutation_outbox\<close> in \<open>local_state/sync_v2.rs\<close>: marks
  that the server has not acknowledged are queued per remote thread, merged while they wait,
  claimed one at a time per thread, and retried, failed or acknowledged.

  The random bytes of \<open>random_local_id\<close> and the clock are arguments.  A \<open>serde_json\<close> value is
  encoded by \<open>Value::to_string\<close>, which has no error.
\<close>

section \<open>The rows\<close>

definition validate_local_mutation_status :: "string \<Rightarrow> unit ImResult" where
  "validate_local_mutation_status value =
     (if value \<in> {''pending'', ''in_flight'', ''retryable'', ''committed'', ''permanent_failure''}
      then Ok ()
      else Err (invalid_input (Some ''status'') ''local mutation status is not supported''))"

definition operation_key :: "LocalMutationRecord \<Rightarrow> string \<times> string" where
  "operation_key r = (mu_owner_identity_id r, mu_operation_id r)"

text \<open>The \<open>CHECK\<close>s of \<open>local_mutation_outbox\<close>.\<close>

definition mutation_checks :: "LocalMutationRecord \<Rightarrow> bool" where
  "mutation_checks r \<longleftrightarrow>
     sql_nonblank (mu_mutation_id r) \<and> sql_nonblank (mu_operation_id r)
   \<and> sql_nonblank (mu_aggregate_id r) \<and> mu_mutation_type r = ''read_state_mark_read''
   \<and> mu_status r \<in> {''pending'', ''in_flight'', ''retryable'', ''committed'', ''permanent_failure''}
   \<and> mu_attempt_count r \<ge> 0"

definition mutation_ok :: "sync_db \<Rightarrow> LocalMutationRecord \<Rightarrow> bool" where
  "mutation_ok db r \<longleftrightarrow> mutation_checks r
   \<and> \<not> exists_row (\<lambda>q. mutation_key q = mutation_key r) (t_outbox db)
   \<and> \<not> exists_row (\<lambda>q. operation_key q = operation_key r) (t_outbox db)
   \<and> exists_row (\<lambda>b. bd_owner_identity_id b = mu_owner_identity_id r) (t_bindings db)"

definition enqueue_local_mutation :: "sync_db \<Rightarrow> LocalMutationRecord \<Rightarrow> sync_db ImResult" where
  "enqueue_local_mutation db r =
     bind_result (validate_required ''owner_identity_id'' (mu_owner_identity_id r)) (\<lambda>_.
     bind_result (validate_required ''mutation_id'' (mu_mutation_id r)) (\<lambda>_.
     bind_result (validate_required ''operation_id'' (mu_operation_id r)) (\<lambda>_.
     bind_result (validate_required ''aggregate_id'' (mu_aggregate_id r)) (\<lambda>_.
     bind_result (validate_local_mutation_status (mu_status r)) (\<lambda>_.
       if mu_attempt_count r < 0
       then Err (invalid_input (Some ''attempt_count'') ''attempt_count must not be negative'')
       else if mu_mutation_type r \<noteq> ''read_state_mark_read''
       then Err (invalid_input (Some ''mutation_type'')
              ''only read_state_mark_read is supported by the v2 local mutation outbox'')
       else if mutation_ok db r
       then Ok (db\<lparr>t_outbox := t_outbox db @ [r]\<rparr>)
       else Err constraint_failed)))))"

definition load_local_mutation ::
  "sync_db \<Rightarrow> string \<Rightarrow> string \<Rightarrow> LocalMutationRecord option ImResult" where
  "load_local_mutation db owner mutation_id =
     bind_result (validate_required ''owner_identity_id'' owner) (\<lambda>_.
     bind_result (validate_required ''mutation_id'' mutation_id) (\<lambda>_.
       Ok (select_row (\<lambda>r. mu_owner_identity_id r = owner \<and> mu_mutation_id r = mutation_id)
             (t_outbox db))))"

text \<open>\<open>UPDATE local_mutation_outbox SET ... WHERE owner_identity_id = ? AND mutation_id = ?\<close>,
  with a further condition.\<close>

definition update_mutation ::
  "string \<Rightarrow> string \<Rightarrow> (LocalMutationRecord \<Rightarrow> bool) \<Rightarrow> (LocalMutationRecord \<Rightarrow> LocalMutationRecord)
     \<Rightarrow> sync_db \<Rightarrow> sync_db" where
  "update_mutation owner mutation_id P f db =
     db\<lparr>t_outbox := update_rows (\<lambda>r. mu_owner_identity_id r = owner \<and> mu_mutation_id r = mutation_id \<and> P r)
        f (t_outbox db)\<rparr>"

definition count_mutation ::
  "string \<Rightarrow> string \<Rightarrow> (LocalMutationRecord \<Rightarrow> bool) \<Rightarrow> sync_db \<Rightarrow> nat" where
  "count_mutation owner mutation_id P db =
     count_rows (\<lambda>r. mu_owner_identity_id r = owner \<and> mu_mutation_id r = mutation_id \<and> P r)
       (t_outbox db)"

section \<open>A group mark whose message the server does not know\<close>

definition outbox_corrupt :: "string \<Rightarrow> ImError" where
  "outbox_corrupt detail = sync_error ''SYNC_LOCAL_OUTBOX_CORRUPT'' detail"

definition parse_payload :: "externs \<Rightarrow> string \<Rightarrow> json ImResult" where
  "parse_payload x payload =
     ok_or (outbox_corrupt (''read outbox payload is invalid: '' @ x_parse_error x payload))
       (x_json_from_str x payload)"

definition json_text :: "externs \<Rightarrow> json \<Rightarrow> string" where
  "json_text x v = (case x_json_to_string x v of None \<Rightarrow> [] | Some s \<Rightarrow> s)"

definition nonblank_member :: "string \<Rightarrow> json \<Rightarrow> string option" where
  "nonblank_member k v = filter_option (\<lambda>s. s \<noteq> []) (map_option trim (json_get_str k v))"

text \<open>A member of the metadata, \<open>NULLIF(TRIM(json_extract(metadata, path)), '')\<close> where the
  metadata is valid JSON.\<close>

definition metadata_text :: "externs \<Rightarrow> message_row \<Rightarrow> string \<Rightarrow> string option" where
  "metadata_text x m k =
     (let meta = (case ms_metadata m of None \<Rightarrow> [] | Some s \<Rightarrow> s);
          v = x_json_extract x meta [k]
      in if x_json_valid x meta \<and> v \<noteq> SqlNull \<and> sql_trim (x_as_text x v) \<noteq> []
         then Some (sql_trim (x_as_text x v)) else None)"

text \<open>The messages that both target queries range over: hydrated plain messages of the thread;
  in a group not the system events.\<close>

definition read_candidate ::
  "string \<Rightarrow> string \<Rightarrow> string \<Rightarrow> message_row \<Rightarrow> bool" where
  "read_candidate owner conversation kind m \<longleftrightarrow>
     ms_owner_identity_id m = owner
   \<and> (if ms_conversation_id m \<noteq> [] then ms_conversation_id m else ms_thread_id m) = conversation
   \<and> ms_wire_thread_kind m = kind \<and> ms_hydration_state m = ''hydrated''
   \<and> (case ms_is_e2ee m of None \<Rightarrow> True | Some e \<Rightarrow> e = 0)"

definition not_system_event :: "externs \<Rightarrow> message_row \<Rightarrow> bool" where
  "not_system_event x m \<longleftrightarrow> metadata_text x m ''message_role'' \<noteq> Some ''group_system_event''"

definition latest_by :: "('r \<Rightarrow> 'k::linorder) \<Rightarrow> 'r list \<Rightarrow> 'r option" where
  "latest_by f rows = (case rev (sort_key f rows) of [] \<Rightarrow> None | r # _ \<Rightarrow> Some r)"

definition failed_group_read_message_id_is_untrusted ::
  "externs \<Rightarrow> sync_db \<Rightarrow> string \<Rightarrow> json \<Rightarrow> bool ImResult" where
  "failed_group_read_message_id_is_untrusted x db owner payload =
     (case nonblank_member ''read_watermark_message_id'' payload of
        None \<Rightarrow> Ok False
      | Some message_id \<Rightarrow>
     (case nonblank_member ''thread_id'' payload of
        None \<Rightarrow> Ok False
      | Some thread_id \<Rightarrow>
     (case nonblank_member ''read_watermark_seq'' payload of
        None \<Rightarrow> Ok False
      | Some server_seq \<Rightarrow>
          bind_result (validate_decimal ''read_watermark_seq'' server_seq) (\<lambda>_.
          case latest_by (\<lambda>m. (ms_stored_at m, ms_msg_id m))
                 (filter (\<lambda>m. read_candidate owner thread_id ''group'' m
                      \<and> ms_server_seq m = Some (x_cast_integer x (SqlText server_seq))
                      \<and> not_system_event x m) (t_messages db)) of
            None \<Rightarrow> Ok False
          | Some m \<Rightarrow>
              let raw = metadata_text x m ''raw_message_id'' in
              if raw = Some message_id then Ok False
              else Ok (raw \<noteq> None \<or> ms_msg_id m = message_id
                       \<or> metadata_text x m ''operation_id'' = Some message_id)))))"

fun json_remove :: "string \<Rightarrow> json \<Rightarrow> json" where
  "json_remove k (JObject ms) = JObject (filter (\<lambda>p. fst p \<noteq> k) ms)"
| "json_remove k v = v"

definition normalize_claimed_group_read_mutation ::
  "externs \<Rightarrow> sync_db \<Rightarrow> LocalMutationRecord \<Rightarrow> (sync_db \<times> LocalMutationRecord) ImResult" where
  "normalize_claimed_group_read_mutation x db r =
     (if mu_last_error_code r \<noteq> Some ''anp.target_not_found'' then Ok (db, r)
      else bind_result (parse_payload x (mu_payload_json r)) (\<lambda>payload.
        if \<not> is_object payload then Err (outbox_corrupt ''read outbox payload must be an object'')
        else if json_get_str ''thread_kind'' payload \<noteq> Some ''group'' then Ok (db, r)
        else if nonblank_member ''read_watermark_message_id'' payload = None then Ok (db, r)
        else bind_result (failed_group_read_message_id_is_untrusted x db (mu_owner_identity_id r) payload)
          (\<lambda>untrusted.
            if \<not> untrusted then Ok (db, r)
            else
              let text = json_text x (json_remove ''read_watermark_message_id'' payload);
                  at = (case mu_in_flight_since r of None \<Rightarrow> mu_updated_at r | Some t \<Rightarrow> t);
                  in_flight = (\<lambda>q. mu_status q = ''in_flight'')
              in if count_mutation (mu_owner_identity_id r) (mu_mutation_id r) in_flight db \<noteq> 1
                 then Err (sync_error ''SYNC_LOCAL_OUTBOX_CONFLICT''
                        ''read outbox normalization lost its in-flight mutation'')
                 else Ok (update_mutation (mu_owner_identity_id r) (mu_mutation_id r) in_flight
                        (\<lambda>q. q\<lparr>mu_payload_json := text, mu_attempt_count := 1,
                               mu_updated_at := max (mu_updated_at q) at\<rparr>) db,
                      r\<lparr>mu_payload_json := text, mu_attempt_count := 1\<rparr>))))"

section \<open>Claims\<close>

text \<open>The rows both claims may take: waiting, due, and with no other mark of the thread on its
  way.\<close>

definition claimable :: "string \<Rightarrow> int \<Rightarrow> LocalMutationRecord \<Rightarrow> bool" where
  "claimable owner now r \<longleftrightarrow>
     mu_owner_identity_id r = owner
   \<and> (mu_status r = ''pending'' \<or> mu_status r = ''retryable'')
   \<and> (case mu_retry_at r of None \<Rightarrow> True | Some t \<Rightarrow> t \<le> now)"

definition thread_in_flight :: "sync_db \<Rightarrow> LocalMutationRecord \<Rightarrow> bool" where
  "thread_in_flight db r \<longleftrightarrow>
     exists_row (\<lambda>p. mu_owner_identity_id p = mu_owner_identity_id r
        \<and> mu_aggregate_id p = mu_aggregate_id r \<and> mu_status p = ''in_flight'') (t_outbox db)"

definition other_in_flight :: "sync_db \<Rightarrow> LocalMutationRecord \<Rightarrow> bool" where
  "other_in_flight db r \<longleftrightarrow>
     exists_row (\<lambda>p. mu_owner_identity_id p = mu_owner_identity_id r
        \<and> mu_aggregate_id p = mu_aggregate_id r \<and> mu_status p = ''in_flight''
        \<and> mu_mutation_id p \<noteq> mu_mutation_id r) (t_outbox db)"

definition next_read_mutation :: "sync_db \<Rightarrow> string \<Rightarrow> int \<Rightarrow> string option" where
  "next_read_mutation db owner now =
     (case order_limit (\<lambda>r. (mu_created_at r, mu_mutation_id r)) 1
             (filter (\<lambda>r. claimable owner now r \<and> \<not> thread_in_flight db r) (t_outbox db)) of
        [] \<Rightarrow> None
      | r # _ \<Rightarrow> Some (mu_mutation_id r))"

definition load_claimed ::
  "externs \<Rightarrow> sync_db \<Rightarrow> string \<Rightarrow> string \<Rightarrow> (sync_db \<times> LocalMutationRecord option) ImResult" where
  "load_claimed x db owner mutation_id =
     bind_result (load_local_mutation db owner mutation_id) (\<lambda>loaded.
       case loaded of
         None \<Rightarrow> Ok (db, None)
       | Some r \<Rightarrow> bind_result (normalize_claimed_group_read_mutation x db r) (\<lambda>(db', r').
           Ok (db', Some r')))"

definition claim_next_read_mutation ::
  "externs \<Rightarrow> sync_db \<Rightarrow> string \<Rightarrow> int \<Rightarrow> (sync_db \<times> LocalMutationRecord option) ImResult" where
  "claim_next_read_mutation x db owner now =
     (case next_read_mutation db owner now of
        None \<Rightarrow> Ok (db, None)
      | Some mutation_id \<Rightarrow>
          load_claimed x
            (update_mutation owner mutation_id (\<lambda>_. True)
              (\<lambda>r. r\<lparr>mu_status := ''in_flight'', mu_attempt_count := mu_attempt_count r + 1,
                     mu_in_flight_since := Some now, mu_updated_at := now\<rparr>) db)
            owner mutation_id)"

definition claim_read_mutation_by_operation_id ::
  "externs \<Rightarrow> sync_db \<Rightarrow> string \<Rightarrow> string \<Rightarrow> int
     \<Rightarrow> (sync_db \<times> LocalMutationRecord option) ImResult" where
  "claim_read_mutation_by_operation_id x db owner operation_id now =
     bind_result (validate_required ''owner_identity_id'' owner) (\<lambda>_.
     bind_result (validate_required ''operation_id'' operation_id) (\<lambda>_.
       case select_row (\<lambda>r. claimable owner now r \<and> mu_operation_id r = operation_id
              \<and> \<not> other_in_flight db r) (t_outbox db) of
         None \<Rightarrow> Ok (db, None)
       | Some r \<Rightarrow>
           let waiting = (\<lambda>q. mu_status q = ''pending'' \<or> mu_status q = ''retryable'')
           in if count_mutation owner (mu_mutation_id r) waiting db \<noteq> 1
              then Err (sync_error ''SYNC_LOCAL_OUTBOX_CONFLICT'' ''read outbox claim lost its operation'')
              else load_claimed x
                (update_mutation owner (mu_mutation_id r) waiting
                  (\<lambda>q. q\<lparr>mu_status := ''in_flight'', mu_attempt_count := mu_attempt_count q + 1,
                         mu_retry_at := None, mu_in_flight_since := Some now, mu_updated_at := now\<rparr>) db)
                owner (mu_mutation_id r)))"

definition retry_local_mutation ::
  "sync_db \<Rightarrow> string \<Rightarrow> string \<Rightarrow> string \<Rightarrow> int \<Rightarrow> sync_db" where
  "retry_local_mutation db owner mutation_id error_code retry_at =
     update_mutation owner mutation_id (\<lambda>r. mu_status r = ''in_flight'')
       (\<lambda>r. r\<lparr>mu_status := ''retryable'', mu_in_flight_since := None, mu_retry_at := Some retry_at,
              mu_last_error_code := Some error_code, mu_updated_at := retry_at\<rparr>) db"

text \<open>The subqueries of the second statement of \<open>permanently_fail_local_mutation\<close>: a member of
  the payload of the mutation, which the comparison with a text column turns into text.\<close>

definition payload_text :: "externs \<Rightarrow> LocalMutationRecord option \<Rightarrow> string \<Rightarrow> string option" where
  "payload_text x row k =
     Option.bind row (\<lambda>r.
       if x_json_valid x (mu_payload_json r) \<and> x_json_extract x (mu_payload_json r) [k] \<noteq> SqlNull
       then Some (x_as_text x (x_json_extract x (mu_payload_json r) [k])) else None)"

definition clear_failed_ack :: "externs \<Rightarrow> string \<Rightarrow> string \<Rightarrow> sync_db \<Rightarrow> sync_db" where
  "clear_failed_ack x owner mutation_id db =
     (let row = select_row (\<lambda>r. mu_owner_identity_id r = owner \<and> mu_mutation_id r = mutation_id)
                  (t_outbox db);
          open_marks = exists_row (\<lambda>r. mu_owner_identity_id r = owner
             \<and> Some (mu_aggregate_id r) = map_option mu_aggregate_id row
             \<and> \<not> is_settled (mu_status r)) (t_outbox db)
      in db\<lparr>t_read_states := update_rows
            (\<lambda>s. rs_owner_identity_id s = owner \<and> rs_thread_scope s = ''group''
               \<and> Some (rs_thread_id s) = payload_text x row ''thread_id''
               \<and> rs_read_watermark_seq s \<noteq> None
               \<and> rs_read_watermark_seq s = payload_text x row ''read_watermark_seq''
               \<and> \<not> open_marks)
            (\<lambda>s. s\<lparr>rs_pending_remote_ack := False, rs_remote_ack_at := None\<rparr>) (t_read_states db)\<rparr>)"

definition permanently_fail_local_mutation ::
  "externs \<Rightarrow> sync_db \<Rightarrow> string \<Rightarrow> string \<Rightarrow> string \<Rightarrow> int \<Rightarrow> sync_db ImResult" where
  "permanently_fail_local_mutation x db owner mutation_id error_code failed_at =
     bind_result (validate_required ''owner_identity_id'' owner) (\<lambda>_.
     bind_result (validate_required ''mutation_id'' mutation_id) (\<lambda>_.
     bind_result (validate_required ''error_code'' error_code) (\<lambda>_.
       let in_flight = (\<lambda>r. mu_status r = ''in_flight'')
       in if count_mutation owner mutation_id in_flight db \<noteq> 1
          then Err (sync_error ''SYNC_LOCAL_OUTBOX_CONFLICT''
                 ''read outbox permanent failure lost its in-flight mutation'')
          else Ok (clear_failed_ack x owner mutation_id
                 (update_mutation owner mutation_id in_flight
                   (\<lambda>r. r\<lparr>mu_status := ''permanent_failure'', mu_retry_at := None,
                          mu_in_flight_since := None, mu_last_error_code := Some error_code,
                          mu_updated_at := failed_at\<rparr>) db)))))"

section \<open>Queueing a read mark\<close>

definition random_local_id :: "string \<Rightarrow> nat list \<Rightarrow> string" where
  "random_local_id prefix bytes = prefix @ ''-'' @ concat (map hex_byte bytes)"

definition json_opt_string :: "string option \<Rightarrow> json" where
  "json_opt_string v = (case v of None \<Rightarrow> JNull | Some s \<Rightarrow> JString s)"

definition read_payload ::
  "string \<Rightarrow> string \<Rightarrow> string \<Rightarrow> string \<Rightarrow> string option \<Rightarrow> string option \<Rightarrow> json" where
  "read_payload kind thread_id remote_thread_key seq message_id read_at =
     JObject [(''read_watermark_at'', json_opt_string read_at),
              (''read_watermark_message_id'', json_opt_string message_id),
              (''read_watermark_seq'', JString seq),
              (''remote_thread_key'', JString remote_thread_key),
              (''thread_id'', JString thread_id),
              (''thread_kind'', JString kind)]"

definition waiting_mark :: "sync_db \<Rightarrow> string \<Rightarrow> string \<Rightarrow> LocalMutationRecord option" where
  "waiting_mark db owner remote_thread_key =
     latest_by (\<lambda>r. (mu_created_at r, mu_mutation_id r))
       (filter (\<lambda>r. mu_owner_identity_id r = owner \<and> mu_aggregate_id r = remote_thread_key
                  \<and> mu_status r = ''pending'' \<and> mu_attempt_count r = 0) (t_outbox db))"

definition upsert_read_outbox ::
  "externs \<Rightarrow> nat list \<Rightarrow> nat list \<Rightarrow> int \<Rightarrow> sync_db \<Rightarrow> string \<Rightarrow> string \<Rightarrow> string \<Rightarrow> string
     \<Rightarrow> string \<Rightarrow> string option \<Rightarrow> string option \<Rightarrow> (sync_db \<times> string) ImResult" where
  "upsert_read_outbox x op_bytes id_bytes now db owner kind thread_id remote_thread_key seq message_id
     read_at =
     bind_result (validate_decimal ''read_watermark_seq'' seq) (\<lambda>_.
     let payload = json_text x (read_payload kind thread_id remote_thread_key seq message_id read_at)
     in case waiting_mark db owner remote_thread_key of
          Some r \<Rightarrow>
            bind_result (parse_payload x (mu_payload_json r)) (\<lambda>current.
            let current_seq = (case json_get_str ''read_watermark_seq'' current of
                                 None \<Rightarrow> ''0'' | Some s \<Rightarrow> s)
            in bind_result (compare_decimal seq current_seq) (\<lambda>ord.
                 Ok (if ord = Greater
                     then update_mutation owner (mu_mutation_id r) (\<lambda>_. True)
                            (\<lambda>q. q\<lparr>mu_payload_json := payload, mu_updated_at := now\<rparr>) db
                     else db, mu_operation_id r)))
        | None \<Rightarrow>
            let operation_id = random_local_id ''op-read'' op_bytes in
            bind_result (enqueue_local_mutation db
                \<lparr>mu_owner_identity_id = owner, mu_mutation_id = random_local_id ''read'' id_bytes,
                 mu_operation_id = operation_id, mu_mutation_type = ''read_state_mark_read'',
                 mu_aggregate_id = remote_thread_key, mu_payload_json = payload,
                 mu_status = ''pending'', mu_attempt_count = 0, mu_retry_at = None,
                 mu_in_flight_since = None, mu_last_error_code = None, mu_created_at = now,
                 mu_updated_at = now\<rparr>) (\<lambda>db'.
              Ok (db', operation_id)))"

text \<open>Of messages with the same sequence number, which the statements leave open, the last
  stored one is taken.\<close>

definition seq_up_to :: "externs \<Rightarrow> string \<Rightarrow> message_row \<Rightarrow> bool" where
  "seq_up_to x seq m \<longleftrightarrow> opt_any (\<lambda>s. s \<le> x_cast_integer x (SqlText seq)) (ms_server_seq m)"

definition ordinary_group_read_target ::
  "externs \<Rightarrow> sync_db \<Rightarrow> string \<Rightarrow> string \<Rightarrow> string \<Rightarrow> (string \<times> string option) option ImResult" where
  "ordinary_group_read_target x db owner conversation_id seq =
     bind_result (validate_decimal ''read_watermark_seq'' seq) (\<lambda>_.
       Ok (map_option (\<lambda>m. (show_int (the (ms_server_seq m)), metadata_text x m ''raw_message_id''))
            (latest_by (\<lambda>m. the (ms_server_seq m))
              (filter (\<lambda>m. read_candidate owner conversation_id ''group'' m
                   \<and> seq_up_to x seq m \<and> not_system_event x m) (t_messages db)))))"

definition ordinary_read_outbox_target ::
  "externs \<Rightarrow> sync_db \<Rightarrow> string \<Rightarrow> string \<Rightarrow> string \<Rightarrow> string \<Rightarrow> string option
     \<Rightarrow> (string \<times> string option \<times> string option) option ImResult" where
  "ordinary_read_outbox_target x db owner kind conversation_id seq message_id =
     (if kind = ''group''
      then map_ok (map_option (\<lambda>(seq, message_id). (seq, message_id, None)))
             (ordinary_group_read_target x db owner conversation_id seq)
      else bind_result (validate_decimal ''read_watermark_seq'' seq) (\<lambda>_.
        Ok (Some (case latest_by (\<lambda>m. the (ms_server_seq m))
                    (filter (\<lambda>m. read_candidate owner conversation_id ''direct'' m
                         \<and> seq_up_to x seq m) (t_messages db)) of
             None \<Rightarrow> (seq, message_id, None)
           | Some m \<Rightarrow> (show_int (the (ms_server_seq m)), Some (ms_msg_id m),
                       metadata_text x m ''remote_thread_key'')))))"

section \<open>Acknowledgement\<close>

definition open_mark ::
  "externs \<Rightarrow> string \<Rightarrow> string \<Rightarrow> string option \<Rightarrow> LocalMutationRecord \<Rightarrow> bool" where
  "open_mark x owner aggregate_id conversation_id r \<longleftrightarrow>
     mu_owner_identity_id r = owner \<and> \<not> is_settled (mu_status r)
   \<and> (mu_aggregate_id r = aggregate_id
      \<or> opt_any (\<lambda>c. x_json_valid x (mu_payload_json r)
            \<and> extract_is x (mu_payload_json r) [''thread_id''] c) conversation_id)"

definition mark_seq :: "externs \<Rightarrow> LocalMutationRecord \<Rightarrow> string ImResult" where
  "mark_seq x r =
     bind_result (parse_payload x (mu_payload_json r)) (\<lambda>payload.
       ok_or (outbox_corrupt ''read outbox payload has no watermark'')
         (json_get_str ''read_watermark_seq'' payload))"

fun covered_marks :: "externs \<Rightarrow> string \<Rightarrow> LocalMutationRecord list \<Rightarrow> string list ImResult" where
  "covered_marks x acknowledged_seq [] = Ok []"
| "covered_marks x acknowledged_seq (r # rs) =
     bind_result (mark_seq x r) (\<lambda>seq.
     bind_result (compare_decimal seq acknowledged_seq) (\<lambda>ord.
     bind_result (covered_marks x acknowledged_seq rs) (\<lambda>ids.
       Ok (if ord \<noteq> Greater then mu_mutation_id r # ids else ids))))"

definition commit_mark :: "int \<Rightarrow> LocalMutationRecord \<Rightarrow> LocalMutationRecord" where
  "commit_mark now r = r\<lparr>mu_status := ''committed'', mu_in_flight_since := None, mu_retry_at := None,
     mu_last_error_code := None, mu_updated_at := now\<rparr>"

definition acknowledge_read_outbox ::
  "externs \<Rightarrow> sync_db \<Rightarrow> string \<Rightarrow> string \<Rightarrow> string option \<Rightarrow> string \<Rightarrow> int \<Rightarrow> sync_db ImResult" where
  "acknowledge_read_outbox x db owner aggregate_id conversation_id acknowledged_seq now =
     bind_result (covered_marks x acknowledged_seq
         (filter (open_mark x owner aggregate_id conversation_id) (t_outbox db))) (\<lambda>committed.
       Ok (fold (\<lambda>mutation_id. update_mutation owner mutation_id (\<lambda>_. True) (commit_mark now))
             committed db))"

end
