(* ===== verification/Outbox_Protocol.thy ===== *)
theory Outbox_Protocol
  imports Mutation_Outbox
begin

text \<open>
  The outbox of read marks as a protocol.  Its specification is a board of marks that wait, are
  on their way or are settled; every operation of \<open>Mutation_Outbox\<close> and the repair and cleanup
  of \<open>Sync_Receipts\<close> is a step of that board, in any order, which gives the exclusion between
  marks of one thread.  Then what an acknowledgement commits, and that marks interrupted by a
  restart are claimed again.
\<close>

section \<open>Rows keep their identity\<close>

definition mark_core :: "LocalMutationRecord \<Rightarrow> (string \<times> string) \<times> string \<times> string \<times> string" where
  "mark_core r = (mutation_key r, mu_operation_id r, mu_mutation_type r, mu_aggregate_id r)"

definition row_ok :: "LocalMutationRecord \<Rightarrow> bool" where
  "row_ok r \<longleftrightarrow> mutation_checks r
     \<and> validate_required ''owner_identity_id'' (mu_owner_identity_id r) = Ok ()
     \<and> validate_required ''mutation_id'' (mu_mutation_id r) = Ok ()
     \<and> (mu_status r = ''in_flight'' \<longleftrightarrow> mu_in_flight_since r \<noteq> None)"

definition outbox_wf :: "sync_db \<Rightarrow> bool" where
  "outbox_wf db \<longleftrightarrow> distinct (map mutation_key (t_outbox db)) \<and> distinct (map operation_key (t_outbox db))
     \<and> (\<forall>r\<in>set (t_outbox db). row_ok r)"

text \<open>The columns that \<open>mark_core\<close> determines.\<close>

lemma mark_coreD:
  assumes "mark_core q = mark_core r"
  shows "mutation_key q = mutation_key r" "operation_key q = operation_key r"
    "mu_owner_identity_id q = mu_owner_identity_id r" "mu_mutation_id q = mu_mutation_id r"
    "mu_operation_id q = mu_operation_id r" "mu_mutation_type q = mu_mutation_type r"
    "mu_aggregate_id q = mu_aggregate_id r"
  using assms by (simp_all add: mark_core_def mutation_key_def operation_key_def)

lemma outbox_wf_map:
  assumes "outbox_wf db" and "t_outbox db' = map g (t_outbox db)"
    and "\<And>r. r \<in> set (t_outbox db) \<Longrightarrow> row_ok r \<Longrightarrow> mark_core (g r) = mark_core r \<and> row_ok (g r)"
  shows "outbox_wf db'"
proof -
  have c: "mark_core (g r) = mark_core r \<and> row_ok (g r)" if "r \<in> set (t_outbox db)" for r
    using assms(1,3) that by (simp add: outbox_wf_def)
  have "map mutation_key (t_outbox db') = map mutation_key (t_outbox db)"
    "map operation_key (t_outbox db') = map operation_key (t_outbox db)"
    by (simp_all add: assms(2) mark_coreD(1,2) [OF c [THEN conjunct1]])
  moreover have "\<forall>r\<in>set (t_outbox db'). row_ok r" unfolding assms(2) using c by auto
  ultimately show ?thesis using assms(1) unfolding outbox_wf_def by simp
qed

section \<open>The specification\<close>

text \<open>
  What the outbox is for: a board of marks, each on a thread and waiting, on its way or settled.
  A mark is posted to wait; it sets off only when no other mark of its owner and thread is on
  its way; marks on their way may come back; marks may be settled; settled marks may be taken
  down, and nothing else happens to them.
\<close>

datatype mark_phase = Waiting | Away | Settled

type_synonym mark_board = "string \<times> string \<Rightarrow> (string \<times> mark_phase) option"

fun bring_back :: "string \<times> mark_phase \<Rightarrow> string \<times> mark_phase" where
  "bring_back (thread, Away) = (thread, Waiting)"
| "bring_back (thread, phase) = (thread, phase)"

inductive board_step :: "mark_board \<Rightarrow> mark_board \<Rightarrow> bool" where
  post: "m k = None \<Longrightarrow> board_step m (m(k \<mapsto> (thread, Waiting)))"
| set_off: "m k = Some (thread, Waiting) \<Longrightarrow> \<forall>k'. fst k' = fst k \<longrightarrow> m k' \<noteq> Some (thread, Away) \<Longrightarrow>
    board_step m (m(k \<mapsto> (thread, Away)))"
| come_back: "board_step m (\<lambda>k. if k \<in> K then map_option bring_back (m k) else m k)"
| settle: "board_step m (\<lambda>k. if k \<in> K then map_option (\<lambda>(thread, _). (thread, Settled)) (m k) else m k)"
| take_down: "\<forall>k\<in>K. \<forall>thread phase. m k = Some (thread, phase) \<longrightarrow> phase = Settled \<Longrightarrow>
    board_step m (\<lambda>k. if k \<in> K then None else m k)"

inductive_cases board_stepE: "board_step m m'"

definition one_away :: "mark_board \<Rightarrow> bool" where
  "one_away m \<longleftrightarrow> (\<forall>k k' thread. m k = Some (thread, Away) \<and> m k' = Some (thread, Away) \<and> fst k = fst k'
     \<longrightarrow> k = k')"

lemma bring_back_Away [simp]: "bring_back v \<noteq> (thread, Away)"
  by (cases v rule: bring_back.cases) auto

lemma one_awayD:
  "one_away m \<Longrightarrow> m k = Some (thread, Away) \<Longrightarrow> m k' = Some (thread, Away) \<Longrightarrow> fst k = fst k' \<Longrightarrow> k = k'"
  unfolding one_away_def by blast

lemma one_away_mono:
  assumes "\<And>k thread. m' k = Some (thread, Away) \<Longrightarrow> m k = Some (thread, Away)" and "one_away m"
  shows "one_away m'"
  unfolding one_away_def using assms unfolding one_away_def by meson

lemma one_away_set_off:
  assumes "\<forall>k'. fst k' = fst k \<longrightarrow> m k' \<noteq> Some (thread, Away)" and "one_away m"
  shows "one_away (m(k \<mapsto> (thread, Away)))"
proof -
  have "k1 = k2"
    if a: "(m(k \<mapsto> (thread, Away))) k1 = Some (th, Away)" "(m(k \<mapsto> (thread, Away))) k2 = Some (th, Away)"
      "fst k1 = fst k2" for k1 k2 th
  proof (cases "k1 = k")
    case True
    with a(1) have th: "th = thread" by simp
    show ?thesis
    proof (rule ccontr)
      assume ne: "k1 \<noteq> k2"
      with a(2) True th have "m k2 = Some (thread, Away)" by simp
      with assms(1) a(3) True show False by metis
    qed
  next
    case False
    with a(1) have m1: "m k1 = Some (th, Away)" by simp
    show ?thesis
    proof (cases "k2 = k")
      case True
      with a(2) have "th = thread" by simp
      with m1 a(3) True assms(1) show ?thesis by metis
    next
      case False
      with a(2) have "m k2 = Some (th, Away)" by simp
      with m1 a(3) assms(2) show ?thesis unfolding one_away_def by blast
    qed
  qed
  then show ?thesis unfolding one_away_def by blast
qed

lemma board_step_one_away:
  assumes "board_step m m'" and "one_away m"
  shows "one_away m'"
  using assms(1)
proof cases
  case (set_off k thread)
  then show ?thesis using assms(2) by (simp only: one_away_set_off)
qed (rule one_away_mono [OF _ assms(2)], auto split: if_splits)+

lemma board_step_settled:
  "board_step m m' \<Longrightarrow> m k = Some (thread, Settled) \<Longrightarrow> m' k = None \<or> m' k = Some (thread, Settled)"
  by (induction rule: board_step.induct) auto

definition phase_of :: "string \<Rightarrow> mark_phase" where
  "phase_of status = (if status = ''in_flight'' then Away
     else if is_settled status then Settled else Waiting)"

definition mark_view :: "LocalMutationRecord \<Rightarrow> string \<times> mark_phase" where
  "mark_view r = (mu_aggregate_id r, phase_of (mu_status r))"

definition board :: "sync_db \<Rightarrow> mark_board" where
  "board db k = map_option mark_view (select_row (\<lambda>r. mutation_key r = k) (t_outbox db))"

section \<open>The operations on the board\<close>

lemma select_row_map:
  "(\<And>r. r \<in> set rows \<Longrightarrow> P (g r) = P r) \<Longrightarrow> select_row P (map g rows) = map_option g (select_row P rows)"
  by (induction rows) auto

lemma board_map:
  assumes "t_outbox db' = map g (t_outbox db)"
    and "\<And>r. r \<in> set (t_outbox db) \<Longrightarrow> mutation_key (g r) = mutation_key r"
  shows "board db' k = map_option (\<lambda>r. mark_view (g r)) (select_row (\<lambda>r. mutation_key r = k) (t_outbox db))"
proof -
  have "select_row (\<lambda>r. mutation_key r = k) (map g (t_outbox db)) =
      map_option g (select_row (\<lambda>r. mutation_key r = k) (t_outbox db))"
    by (rule select_row_map) (simp add: assms(2))
  then show ?thesis by (simp add: board_def assms(1) option.map_comp comp_def)
qed

lemma board_Some:
  assumes "outbox_wf db"
  shows "board db k = Some v \<longleftrightarrow> (\<exists>r\<in>set (t_outbox db). mutation_key r = k \<and> mark_view r = v)"
  using assms select_row_keyed_iff [of mutation_key "t_outbox db" k]
  by (auto simp: board_def outbox_wf_def)

lemma board_None: "board db k = None \<longleftrightarrow> (\<forall>r\<in>set (t_outbox db). mutation_key r \<noteq> k)"
  by (simp add: board_def select_row_None)

text \<open>An update of one row that keeps its identity.\<close>

lemma t_outbox_update:
  "t_outbox (update_mutation owner mid P f db) =
     map (\<lambda>r. if mutation_key r = (owner, mid) \<and> P r then f r else r) (t_outbox db)"
  by (auto simp: update_mutation_def update_rows_def mutation_key_def)

lemma board_update:
  assumes "\<And>r. mutation_key (f r) = mutation_key r"
  shows "board (update_mutation owner mid P f db) =
    (\<lambda>k. map_option (\<lambda>r. if k = (owner, mid) \<and> P r then mark_view (f r) else mark_view r)
       (select_row (\<lambda>r. mutation_key r = k) (t_outbox db)))"
proof
  fix k
  have "board (update_mutation owner mid P f db) k =
      map_option (\<lambda>r. mark_view (if mutation_key r = (owner, mid) \<and> P r then f r else r))
        (select_row (\<lambda>r. mutation_key r = k) (t_outbox db))"
    by (rule board_map [OF t_outbox_update]) (simp add: assms)
  then show "board (update_mutation owner mid P f db) k =
      map_option (\<lambda>r. if k = (owner, mid) \<and> P r then mark_view (f r) else mark_view r)
        (select_row (\<lambda>r. mutation_key r = k) (t_outbox db))"
    by (cases "select_row (\<lambda>r. mutation_key r = k) (t_outbox db)") (auto dest!: select_row_Some)
qed

lemma outbox_wf_update:
  assumes "outbox_wf db"
    and "\<And>r. mark_core (f r) = mark_core r"
    and "\<And>r. r \<in> set (t_outbox db) \<Longrightarrow> row_ok r \<Longrightarrow> P r \<Longrightarrow> row_ok (f r)"
  shows "outbox_wf (update_mutation owner mid P f db)"
  by (rule outbox_wf_map [OF assms(1) t_outbox_update]) (auto simp: assms)

lemma phase_of_simps [simp]:
  "phase_of ''in_flight'' = Away" "phase_of ''pending'' = Waiting" "phase_of ''retryable'' = Waiting"
  "phase_of ''committed'' = Settled" "phase_of ''permanent_failure'' = Settled"
  by (simp_all add: phase_of_def is_settled_def)

lemma phase_of_settled: "phase_of s = Settled \<longleftrightarrow> is_settled s"
  by (auto simp: phase_of_def is_settled_def)

lemma bring_back_phase:
  "bring_back (thread, phase_of s) = (thread, if s = ''in_flight'' then Waiting else phase_of s)"
  by (auto simp: phase_of_def)

text \<open>Changes that keep the board: the identity and the phase of every row stay.\<close>

lemma board_step_refl: "board_step m m"
  using board_step.come_back [of m "{}"] by simp

lemma board_step_unchanged: "board db' = board db \<Longrightarrow> board_step (board db) (board db')"
  by (simp add: board_step_refl)

lemma update_keeps_board:
  assumes "\<And>r. mark_core (f r) = mark_core r" and "\<And>r. mu_status (f r) = mu_status r"
  shows "board (update_mutation owner mid P f db) = board db"
proof -
  have "mark_view (f r) = mark_view r" for r
    by (simp add: mark_view_def assms(2) mark_coreD(7) [OF assms(1)])
  then show ?thesis
    by (subst board_update) (simp_all add: mark_coreD(1) [OF assms(1)] board_def fun_eq_iff
        cong: if_cong)
qed

lemma retry_board:
  "board_step (board db) (board (retry_local_mutation db owner mid code at))"
proof -
  have "board (retry_local_mutation db owner mid code at) =
      (\<lambda>k. if k \<in> {(owner, mid)} then map_option bring_back (board db k) else board db k)"
    unfolding retry_local_mutation_def
    by (subst board_update)
      (auto simp: mutation_key_def fun_eq_iff board_def option.map_comp comp_def bring_back_phase
        mark_view_def intro!: option.map_cong0)
  then show ?thesis using board_step.come_back [of "board db" "{(owner, mid)}"] by simp
qed

lemma retry_wf: "outbox_wf db \<Longrightarrow> outbox_wf (retry_local_mutation db owner mid code at)"
  unfolding retry_local_mutation_def
  by (rule outbox_wf_update) (auto simp: mark_core_def mutation_key_def row_ok_def mutation_checks_def)

lemma t_outbox_recover:
  "t_outbox (recover_interrupted_work db t) =
     map (\<lambda>r. if mu_status r = ''in_flight'' then r\<lparr>mu_status := ''retryable'',
       mu_in_flight_since := None, mu_updated_at := t\<rparr> else r) (t_outbox db)"
  by (simp add: recover_interrupted_work_def update_rows_def)

lemma recover_board: "board_step (board db) (board (recover_interrupted_work db t))"
proof -
  have "board (recover_interrupted_work db t) k = map_option bring_back (board db k)" for k
    by (subst board_map [OF t_outbox_recover])
      (auto simp: mutation_key_def board_def option.map_comp comp_def bring_back_phase mark_view_def
        intro!: option.map_cong0)
  then have "board (recover_interrupted_work db t) =
      (\<lambda>k. if k \<in> UNIV then map_option bring_back (board db k) else board db k)" by auto
  then show ?thesis using board_step.come_back [of "board db" UNIV] by simp
qed

lemma recover_wf: "outbox_wf db \<Longrightarrow> outbox_wf (recover_interrupted_work db t)"
  by (rule outbox_wf_map [OF _ t_outbox_recover])
    (auto simp: mark_core_def mutation_key_def row_ok_def mutation_checks_def)

lemma commit_fold:
  "t_outbox (fold (\<lambda>mid. update_mutation owner mid (\<lambda>_. True) (commit_mark now)) ids db) =
     map (\<lambda>r. if fst (mutation_key r) = owner \<and> snd (mutation_key r) \<in> set ids then commit_mark now r else r)
       (t_outbox db)"
proof (induction ids arbitrary: db)
  case Nil
  then show ?case by simp
next
  case (Cons i ids)
  then show ?case
    by (auto simp: t_outbox_update commit_mark_def mutation_key_def)
qed

lemma acknowledge_rows:
  assumes "acknowledge_read_outbox x db owner agg conv seq now = Ok db'"
  obtains ids where "covered_marks x seq (filter (open_mark x owner agg conv) (t_outbox db)) = Ok ids"
    and "t_outbox db' = map (\<lambda>r. if fst (mutation_key r) = owner \<and> snd (mutation_key r) \<in> set ids
      then commit_mark now r else r) (t_outbox db)"
  using assms commit_fold by (auto simp: acknowledge_read_outbox_def result_simps)

lemma commit_mark_simps [simp]:
  "mutation_key (commit_mark now r) = mutation_key r" "mark_core (commit_mark now r) = mark_core r"
  "mu_aggregate_id (commit_mark now r) = mu_aggregate_id r" "mu_status (commit_mark now r) = ''committed''"
  "row_ok r \<Longrightarrow> row_ok (commit_mark now r)"
  by (auto simp: commit_mark_def mutation_key_def mark_core_def mark_view_def row_ok_def mutation_checks_def)

lemma acknowledge_board:
  assumes "acknowledge_read_outbox x db owner agg conv seq now = Ok db'"
  shows "board_step (board db) (board db')" and "outbox_wf db \<Longrightarrow> outbox_wf db'"
proof -
  obtain ids where rows: "t_outbox db' = map (\<lambda>r. if fst (mutation_key r) = owner \<and> snd (mutation_key r) \<in> set ids
      then commit_mark now r else r) (t_outbox db)"
    using assms by (rule acknowledge_rows)
  have "board db' = (\<lambda>k. if k \<in> {owner} \<times> set ids then map_option (\<lambda>(thread, _). (thread, Settled)) (board db k)
      else board db k)"
  proof
    fix k
    show "board db' k = (if k \<in> {owner} \<times> set ids then map_option (\<lambda>(thread, _). (thread, Settled)) (board db k)
      else board db k)"
      by (cases "select_row (\<lambda>r. mutation_key r = k) (t_outbox db)"; subst board_map [OF rows])
        (auto simp: board_def mark_view_def mem_Times_iff dest!: select_row_Some)
  qed
  then show "board_step (board db) (board db')"
    using board_step.settle [of "board db" "{owner} \<times> set ids"] by simp
  show "outbox_wf db \<Longrightarrow> outbox_wf db'" by (rule outbox_wf_map [OF _ rows]) auto
qed

lemma enqueue_rows:
  assumes "enqueue_local_mutation db r = Ok db'"
  shows "t_outbox db' = t_outbox db @ [r]" and "mutation_ok db r"
    and "validate_required ''owner_identity_id'' (mu_owner_identity_id r) = Ok ()"
    and "validate_required ''mutation_id'' (mu_mutation_id r) = Ok ()"
  using assms
  by (auto simp: enqueue_local_mutation_def result_simps split: if_splits)

lemma enqueue_board:
  assumes "enqueue_local_mutation db r = Ok db'"
    and "mu_status r = ''pending''" and "mu_in_flight_since r = None"
  shows "board_step (board db) (board db')" and "outbox_wf db \<Longrightarrow> outbox_wf db'"
proof -
  note e = enqueue_rows [OF assms(1)]
  have new: "\<forall>q\<in>set (t_outbox db). mutation_key q \<noteq> mutation_key r" "\<forall>q\<in>set (t_outbox db). operation_key q \<noteq> operation_key r"
    using e(2) by (auto simp: mutation_ok_def exists_row_iff)
  have "board db' = (board db)(mutation_key r \<mapsto> (mu_aggregate_id r, Waiting))"
  proof
    fix k
    show "board db' k = ((board db)(mutation_key r \<mapsto> (mu_aggregate_id r, Waiting))) k"
    proof (cases "k = mutation_key r")
      case True
      then have "select_row (\<lambda>q. mutation_key q = k) (t_outbox db) = None"
        using new(1) by (simp add: select_row_None)
      with True show ?thesis by (simp add: board_def e(1) select_row_append mark_view_def assms(2))
    next
      case False
      then show ?thesis by (simp add: board_def e(1) select_row_append or_else_def split: option.split)
    qed
  qed
  moreover have "board db (mutation_key r) = None" using new(1) by (simp add: board_None)
  ultimately show "board_step (board db) (board db')" by (simp add: board_step.post)
  show "outbox_wf db'" if "outbox_wf db"
    using that new e(2-4) assms(2,3)
    by (auto simp: outbox_wf_def e(1) row_ok_def mutation_ok_def image_iff)
qed

lemma upsert_read_outbox_board:
  assumes "upsert_read_outbox x ob ib now db owner kind tid key seq msg at = Ok (db', op)"
  shows "board_step (board db) (board db')" and "outbox_wf db \<Longrightarrow> outbox_wf db'"
proof -
  let ?payload = "json_text x (read_payload kind tid key seq msg at)"
  consider (same) "db' = db"
    | (merged) mid where "db' = update_mutation owner mid (\<lambda>_. True)
        (\<lambda>q. q\<lparr>mu_payload_json := ?payload, mu_updated_at := now\<rparr>) db"
    | (queued) r where "enqueue_local_mutation db r = Ok db'" "mu_status r = ''pending''"
        "mu_in_flight_since r = None"
  proof (cases "waiting_mark db owner key")
    case None
    let ?r = "\<lparr>mu_owner_identity_id = owner, mu_mutation_id = random_local_id ''read'' ib,
       mu_operation_id = random_local_id ''op-read'' ob, mu_mutation_type = ''read_state_mark_read'',
       mu_aggregate_id = key, mu_payload_json = ?payload, mu_status = ''pending'', mu_attempt_count = 0,
       mu_retry_at = None, mu_in_flight_since = None, mu_last_error_code = None, mu_created_at = now,
       mu_updated_at = now\<rparr>"
    have "enqueue_local_mutation db ?r = Ok db'"
      using assms None by (auto simp: upsert_read_outbox_def result_simps Let_def)
    then show ?thesis by (rule queued) simp_all
  next
    case (Some r)
    then have "db' = db \<or> db' = update_mutation owner (mu_mutation_id r) (\<lambda>_. True)
        (\<lambda>q. q\<lparr>mu_payload_json := ?payload, mu_updated_at := now\<rparr>) db"
      using assms by (auto simp: upsert_read_outbox_def result_simps Let_def split: if_splits)
    then show ?thesis using same merged by blast
  qed
  then have "board_step (board db) (board db') \<and> (outbox_wf db \<longrightarrow> outbox_wf db')"
  proof cases
    case same
    then show ?thesis by (simp add: board_step_refl)
  next
    case merged
    have "board db' = board db"
      unfolding merged by (rule update_keeps_board) (simp_all add: mark_core_def mutation_key_def)
    moreover have "outbox_wf db \<longrightarrow> outbox_wf db'"
      unfolding merged
      by (intro impI, erule outbox_wf_update)
        (auto simp: mark_core_def mutation_key_def row_ok_def mutation_checks_def)
    ultimately show ?thesis by (simp add: board_step_refl)
  next
    case queued
    then show ?thesis using enqueue_board by blast
  qed
  then show "board_step (board db) (board db')" and "outbox_wf db \<Longrightarrow> outbox_wf db'" by auto
qed

lemma count_mutation_row:
  assumes "count_mutation owner mid P db = 1" and "outbox_wf db"
  shows "\<exists>r\<in>set (t_outbox db). mutation_key r = (owner, mid) \<and> P r"
proof -
  have "filter (\<lambda>r. mu_owner_identity_id r = owner \<and> mu_mutation_id r = mid \<and> P r) (t_outbox db) \<noteq> []"
    using assms(1) by (auto simp: count_mutation_def count_rows_def)
  then show ?thesis by (auto simp: filter_empty_conv mutation_key_def)
qed

lemma fail_rows:
  assumes "permanently_fail_local_mutation x db owner mid code at = Ok db'"
  shows "count_mutation owner mid (\<lambda>r. mu_status r = ''in_flight'') db = 1"
    and "t_outbox db' = t_outbox (update_mutation owner mid (\<lambda>r. mu_status r = ''in_flight'')
       (\<lambda>r. r\<lparr>mu_status := ''permanent_failure'', mu_retry_at := None, mu_in_flight_since := None,
              mu_last_error_code := Some code, mu_updated_at := at\<rparr>) db)"
  using assms
  by (auto simp: permanently_fail_local_mutation_def result_simps Let_def clear_failed_ack_def split: if_splits)

lemma board_cong: "t_outbox db' = t_outbox db \<Longrightarrow> board db' = board db"
  by (simp add: board_def fun_eq_iff)

lemma outbox_wf_cong: "t_outbox db' = t_outbox db \<Longrightarrow> outbox_wf db' = outbox_wf db"
  by (simp add: outbox_wf_def)

lemma fail_board:
  assumes "permanently_fail_local_mutation x db owner mid code at = Ok db'" and "outbox_wf db"
  shows "board_step (board db) (board db')" and "outbox_wf db'"
proof -
  note r = fail_rows [OF assms(1)]
  let ?db = "update_mutation owner mid (\<lambda>r. mu_status r = ''in_flight'')
       (\<lambda>r. r\<lparr>mu_status := ''permanent_failure'', mu_retry_at := None, mu_in_flight_since := None,
              mu_last_error_code := Some code, mu_updated_at := at\<rparr>) db"
  obtain q where q: "q \<in> set (t_outbox db)" "mutation_key q = (owner, mid)" "mu_status q = ''in_flight''"
    using count_mutation_row [OF r(1) assms(2)] by blast
  then have sel: "select_row (\<lambda>r. mutation_key r = (owner, mid)) (t_outbox db) = Some q"
    using assms(2) by (simp add: outbox_wf_def select_row_keyed_iff)
  have bu: "board ?db = (\<lambda>k. map_option (\<lambda>r. if k = (owner, mid) \<and> mu_status r = ''in_flight''
      then (mu_aggregate_id r, Settled) else mark_view r) (select_row (\<lambda>r. mutation_key r = k) (t_outbox db)))"
    by (subst board_update) (simp_all add: mutation_key_def mark_view_def [abs_def] cong: if_cong)
  have "board ?db = (\<lambda>k. if k \<in> {(owner, mid)} then map_option (\<lambda>(thread, _). (thread, Settled)) (board db k)
      else board db k)"
    unfolding bu by (auto simp: fun_eq_iff board_def sel q mark_view_def [abs_def])
  then show "board_step (board db) (board db')"
    using board_step.settle [of "board db" "{(owner, mid)}"] by (simp add: board_cong [OF r(2)])
  have "outbox_wf ?db"
    by (rule outbox_wf_update [OF assms(2)])
      (auto simp: mark_core_def mutation_key_def row_ok_def mutation_checks_def)
  then show "outbox_wf db'" by (simp add: outbox_wf_cong [OF r(2)])
qed

lemma cleanup_rows:
  assumes "cleanup_terminal_sync_state db owner epoch seq budget now = Ok (db', result)"
  obtains rows where "\<forall>r\<in>set rows. r \<in> set (t_outbox db) \<and> is_settled (mu_status r)"
    and "t_outbox db' = delete_rows (\<lambda>r. mutation_key r \<in> mutation_key ` set rows) (t_outbox db)"
proof (cases "budget = 0")
  case True
  then have "db' = db" using assms by (auto simp: cleanup_terminal_sync_state_def result_simps)
  then show ?thesis by (intro that [of "[]"]) (simp_all add: delete_rows_def)
next
  case False
  let ?cut = "saturating_sub now TERMINAL_SYNC_STATE_RETENTION_SECONDS"
  obtain db1 n rec where p: "prune_applied_events db owner epoch seq budget = Ok (db1, n)"
    and c: "cleanup_recovery (db1\<lparr>t_outbox := delete_rows (\<lambda>r. mutation_key r \<in> mutation_key `
          set (terminal_mutations db1 owner ?cut (budget - n))) (t_outbox db1)\<rparr>) owner epoch seq
          (n + length (terminal_mutations db1 owner ?cut (budget - n)) < budget) ?cut = Ok (db', rec)"
    using assms False by (auto simp: cleanup_terminal_sync_state_def result_simps Let_def)
  let ?rows = "terminal_mutations db1 owner ?cut (budget - n)"
  have "\<forall>r\<in>set ?rows. r \<in> set (t_outbox db) \<and> is_settled (mu_status r)"
    using terminal_mutationsD [of _ db1 owner ?cut "budget - n"] by (auto simp: prune_frame(1) [OF p])
  moreover have "t_outbox db' = delete_rows (\<lambda>r. mutation_key r \<in> mutation_key ` set ?rows) (t_outbox db)"
    using cleanup_recovery_frame(1) [OF c] by (simp add: prune_frame(1) [OF p])
  ultimately show ?thesis by (rule that)
qed

lemma cleanup_board:
  assumes "cleanup_terminal_sync_state db owner epoch seq budget now = Ok (db', result)" and "outbox_wf db"
  shows "board_step (board db) (board db')" and "outbox_wf db'"
proof -
  obtain rows where rows: "\<forall>r\<in>set rows. r \<in> set (t_outbox db) \<and> is_settled (mu_status r)"
    and out: "t_outbox db' = delete_rows (\<lambda>r. mutation_key r \<in> mutation_key ` set rows) (t_outbox db)"
    using assms(1) by (rule cleanup_rows)
  let ?K = "mutation_key ` set rows"
  have "board db' k = (if k \<in> ?K then None else board db k)" for k
  proof (cases "k \<in> ?K")
    case True
    then show ?thesis by (auto simp: board_None out set_delete_rows)
  next
    case False
    then have "select_row (\<lambda>r. mutation_key r = k) (delete_rows (\<lambda>r. mutation_key r \<in> ?K) (t_outbox db)) =
        select_row (\<lambda>r. mutation_key r = k) (t_outbox db)"
      by (intro select_row_delete_rows) simp
    with False show ?thesis by (simp add: board_def out)
  qed
  then have "board db' = (\<lambda>k. if k \<in> ?K then None else board db k)" by blast
  moreover have "phase = Settled" if k: "k \<in> ?K" "board db k = Some (thread, phase)" for k thread phase
  proof -
    obtain r where r: "r \<in> set rows" "k = mutation_key r" using k(1) by blast
    then have "board db k = Some (mark_view r)"
      using rows assms(2) by (auto simp: board_def outbox_wf_def select_row_keyed)
    with k(2) r(1) rows show ?thesis by (auto simp: mark_view_def phase_of_settled)
  qed
  ultimately show "board_step (board db) (board db')"
    using board_step.take_down [of ?K "board db"] by simp
  show "outbox_wf db'"
    using assms(2) by (auto simp: outbox_wf_def out distinct_map_delete_rows set_delete_rows)
qed

text \<open>A claim takes a waiting mark whose thread has no mark on its way.\<close>

lemma claim_update_board:
  assumes wf: "outbox_wf db" and r: "r \<in> set (t_outbox db)" "mutation_key r = (owner, mid)" "P r"
    and wait: "mu_status r = ''pending'' \<or> mu_status r = ''retryable''"
    and free: "\<forall>p\<in>set (t_outbox db). mu_owner_identity_id p = owner \<longrightarrow> mu_aggregate_id p = mu_aggregate_id r
      \<longrightarrow> mu_status p \<noteq> ''in_flight''"
    and f: "\<And>q. mark_core (f q) = mark_core q" "\<And>q. mu_status (f q) = ''in_flight''"
      "\<And>q. mu_in_flight_since (f q) \<noteq> None" "\<And>q. mu_attempt_count (f q) = mu_attempt_count q + 1"
  shows "board_step (board db) (board (update_mutation owner mid P f db))"
    and "outbox_wf (update_mutation owner mid P f db)"
proof -
  have sel: "select_row (\<lambda>q. mutation_key q = (owner, mid)) (t_outbox db) = Some r"
    using wf r by (simp add: outbox_wf_def select_row_keyed_iff)
  have bu: "board (update_mutation owner mid P f db) = (\<lambda>k. map_option (\<lambda>q. if k = (owner, mid) \<and> P q
      then (mu_aggregate_id q, Away) else mark_view q) (select_row (\<lambda>q. mutation_key q = k) (t_outbox db)))"
    by (subst board_update)
      (simp_all add: mark_coreD(1,7) [OF f(1)] mark_view_def [abs_def] f(2) cong: if_cong)
  have "board (update_mutation owner mid P f db) = (board db)((owner, mid) \<mapsto> (mu_aggregate_id r, Away))"
    unfolding bu using r(3) by (auto simp: fun_eq_iff board_def sel mark_view_def [abs_def])
  moreover have "board db (owner, mid) = Some (mu_aggregate_id r, Waiting)"
    using wait by (auto simp: board_def sel mark_view_def)
  moreover have "board db k \<noteq> Some (mu_aggregate_id r, Away)" if k: "fst k = owner" for k
  proof
    assume "board db k = Some (mu_aggregate_id r, Away)"
    then obtain p where p: "p \<in> set (t_outbox db)" "mutation_key p = k" "mark_view p = (mu_aggregate_id r, Away)"
      by (auto simp: board_Some [OF wf])
    then have "mu_status p = ''in_flight''"
      by (auto simp: mark_view_def phase_of_def split: if_splits)
    with free p k show False by (auto simp: mutation_key_def mark_view_def)
  qed
  ultimately show "board_step (board db) (board (update_mutation owner mid P f db))"
    using board_step.set_off [of "board db" "(owner, mid)" "mu_aggregate_id r"] by auto
  show "outbox_wf (update_mutation owner mid P f db)"
    by (rule outbox_wf_update [OF wf f(1)])
      (auto simp: row_ok_def f(2-4) mark_coreD(3-7) [OF f(1)] mutation_checks_def)
qed

lemma normalize_board:
  assumes "normalize_claimed_group_read_mutation x db r = Ok (db', r')"
  shows "board db' = board db" and "outbox_wf db \<Longrightarrow> outbox_wf db'"
proof -
  consider (same) "db' = db"
    | (changed) owner mid P payload since where "db' = update_mutation owner mid P
        (\<lambda>q. q\<lparr>mu_payload_json := payload, mu_attempt_count := 1,
              mu_updated_at := max (mu_updated_at q) since\<rparr>) db"
    using assms
    by (auto simp: normalize_claimed_group_read_mutation_def result_simps Let_def split: if_splits)
  then have "board db' = board db \<and> (outbox_wf db \<longrightarrow> outbox_wf db')"
  proof cases
    case changed
    have "board db' = board db"
      unfolding changed by (rule update_keeps_board) (simp_all add: mark_core_def mutation_key_def)
    moreover have "outbox_wf db \<longrightarrow> outbox_wf db'"
      unfolding changed
      by (intro impI, erule outbox_wf_update)
        (auto simp: mark_core_def mutation_key_def row_ok_def mutation_checks_def)
    ultimately show ?thesis by simp
  qed simp
  then show "board db' = board db" and "outbox_wf db \<Longrightarrow> outbox_wf db'" by auto
qed

lemma load_claimed_board:
  assumes "load_claimed x db owner mid = Ok (db', r)"
  shows "board db' = board db" and "outbox_wf db \<Longrightarrow> outbox_wf db'"
  using assms normalize_board
  by (auto simp: load_claimed_def result_simps split: option.splits)

lemma next_read_mutationD:
  assumes "next_read_mutation db owner now = Some mid"
  obtains r where "r \<in> set (t_outbox db)" "mutation_key r = (owner, mid)" "claimable owner now r"
    "\<not> thread_in_flight db r"
proof -
  let ?due = "filter (\<lambda>r. claimable owner now r \<and> \<not> thread_in_flight db r) (t_outbox db)"
  let ?L = "order_limit (\<lambda>r. (mu_created_at r, mu_mutation_id r)) 1 ?due"
  obtain r rs where "?L = r # rs" and m: "mid = mu_mutation_id r"
    using assms by (auto simp: next_read_mutation_def split: list.splits)
  then have "r \<in> set ?due" using set_order_limit by (metis list.set_intros(1) subsetD)
  then show ?thesis using m by (intro that [of r]) (auto simp: mutation_key_def claimable_def)
qed

lemma claim_next_board:
  assumes "claim_next_read_mutation x db owner now = Ok (db', got)" and "outbox_wf db"
  shows "board_step (board db) (board db')" and "outbox_wf db'"
proof -
  let ?f = "\<lambda>r. r\<lparr>mu_status := ''in_flight'', mu_attempt_count := mu_attempt_count r + 1,
                     mu_in_flight_since := Some now, mu_updated_at := now\<rparr>"
  have "board_step (board db) (board db') \<and> outbox_wf db'"
  proof (cases "next_read_mutation db owner now")
    case None
    then show ?thesis using assms by (simp add: claim_next_read_mutation_def board_step_refl)
  next
    case (Some mid)
    let ?db = "update_mutation owner mid (\<lambda>_. True) ?f db"
    from Some obtain r where r: "r \<in> set (t_outbox db)" "mutation_key r = (owner, mid)"
      "claimable owner now r" "\<not> thread_in_flight db r" by (rule next_read_mutationD)
    have wait: "mu_status r = ''pending'' \<or> mu_status r = ''retryable''"
      and owner: "mu_owner_identity_id r = owner" using r(3) by (simp_all add: claimable_def)
    have free: "\<forall>p\<in>set (t_outbox db). mu_owner_identity_id p = owner \<longrightarrow> mu_aggregate_id p = mu_aggregate_id r
      \<longrightarrow> mu_status p \<noteq> ''in_flight''"
      using r(4) by (auto simp: thread_in_flight_def exists_row_iff owner)
    have f: "mark_core (?f q) = mark_core q" "mu_status (?f q) = ''in_flight''"
      "mu_in_flight_since (?f q) \<noteq> None" "mu_attempt_count (?f q) = mu_attempt_count q + 1" for q
      by (simp_all add: mark_core_def mutation_key_def)
    note c = claim_update_board [where P = "\<lambda>_. True" and f = ?f, OF assms(2) r(1,2) TrueI wait free f]
    have l: "load_claimed x ?db owner mid = Ok (db', got)"
      using assms(1) Some by (simp add: claim_next_read_mutation_def)
    show ?thesis using c by (simp add: load_claimed_board [OF l])
  qed
  then show "board_step (board db) (board db')" and "outbox_wf db'" by auto
qed

lemma claim_operation_board:
  assumes "claim_read_mutation_by_operation_id x db owner op now = Ok (db', got)" and "outbox_wf db"
  shows "board_step (board db) (board db')" and "outbox_wf db'"
proof -
  let ?P = "\<lambda>q. mu_status q = ''pending'' \<or> mu_status q = ''retryable''"
  let ?f = "\<lambda>q. q\<lparr>mu_status := ''in_flight'', mu_attempt_count := mu_attempt_count q + 1,
                 mu_retry_at := None, mu_in_flight_since := Some now, mu_updated_at := now\<rparr>"
  let ?S = "select_row (\<lambda>r. claimable owner now r \<and> mu_operation_id r = op \<and> \<not> other_in_flight db r) (t_outbox db)"
  have "board_step (board db) (board db') \<and> outbox_wf db'"
  proof (cases ?S)
    case None
    then show ?thesis
      using assms by (auto simp: claim_read_mutation_by_operation_id_def result_simps board_step_refl)
  next
    case (Some r)
    then have r: "r \<in> set (t_outbox db)" "claimable owner now r" "\<not> other_in_flight db r"
      by (auto dest: select_row_Some)
    let ?db = "update_mutation owner (mu_mutation_id r) ?P ?f db"
    have k: "mutation_key r = (owner, mu_mutation_id r)" using r(2) by (simp add: claimable_def mutation_key_def)
    have free: "\<forall>p\<in>set (t_outbox db). mu_owner_identity_id p = owner \<longrightarrow> mu_aggregate_id p = mu_aggregate_id r
      \<longrightarrow> mu_status p \<noteq> ''in_flight''"
    proof (intro ballI impI notI)
      fix p assume p: "p \<in> set (t_outbox db)" "mu_owner_identity_id p = owner"
        "mu_aggregate_id p = mu_aggregate_id r" "mu_status p = ''in_flight''"
      then have "mu_mutation_id p = mu_mutation_id r"
        using r(2,3) by (auto simp: other_in_flight_def exists_row_iff claimable_def)
      then have "p = r"
        using assms(2) p(1,2) r(1) k
        by (intro keyed_unique [where key = mutation_key]) (auto simp: outbox_wf_def mutation_key_def)
      with p(4) r(2) show False by (auto simp: claimable_def)
    qed
    have wait: "?P r" using r(2) by (simp add: claimable_def)
    have f: "mark_core (?f q) = mark_core q" "mu_status (?f q) = ''in_flight''"
      "mu_in_flight_since (?f q) \<noteq> None" "mu_attempt_count (?f q) = mu_attempt_count q + 1" for q
      by (simp_all add: mark_core_def mutation_key_def)
    note c = claim_update_board [where P = ?P and f = ?f, OF assms(2) r(1) k wait wait free f]
    have l: "load_claimed x ?db owner (mu_mutation_id r) = Ok (db', got)"
      using assms(1) Some
      by (auto simp: claim_read_mutation_by_operation_id_def result_simps Let_def split: if_splits)
    show ?thesis using c by (simp add: load_claimed_board [OF l])
  qed
  then show "board_step (board db) (board db')" and "outbox_wf db'" by auto
qed

section \<open>The outbox as a whole\<close>

text \<open>What the program does to the outbox, in any order: queueing, claiming, the outcomes of a
  claim, acknowledgements, the repair after a restart and the cleanup, between writes to the
  other tables.\<close>

inductive outbox_step :: "externs \<Rightarrow> sync_db \<Rightarrow> sync_db \<Rightarrow> bool" for x where
  enqueue: "enqueue_local_mutation db r = Ok db' \<Longrightarrow> mu_status r = ''pending'' \<Longrightarrow>
    mu_in_flight_since r = None \<Longrightarrow> outbox_step x db db'"
| mark: "upsert_read_outbox x ob ib now db owner kind tid key seq msg at = Ok (db', op) \<Longrightarrow>
    outbox_step x db db'"
| claim_next: "claim_next_read_mutation x db owner now = Ok (db', got) \<Longrightarrow> outbox_step x db db'"
| claim_operation: "claim_read_mutation_by_operation_id x db owner op now = Ok (db', got) \<Longrightarrow>
    outbox_step x db db'"
| retry: "outbox_step x db (retry_local_mutation db owner mid code at)"
| fail: "permanently_fail_local_mutation x db owner mid code at = Ok db' \<Longrightarrow> outbox_step x db db'"
| acknowledge: "acknowledge_read_outbox x db owner agg conv seq now = Ok db' \<Longrightarrow> outbox_step x db db'"
| recover: "outbox_step x db (recover_interrupted_work db t)"
| cleanup: "cleanup_terminal_sync_state db owner epoch seq budget now = Ok (db', result) \<Longrightarrow>
    outbox_step x db db'"
| elsewhere: "t_outbox db' = t_outbox db \<Longrightarrow> outbox_step x db db'"

definition outbox_run :: "externs \<Rightarrow> sync_db \<Rightarrow> sync_db \<Rightarrow> bool" where
  "outbox_run x = (outbox_step x)\<^sup>*\<^sup>*"

lemma outbox_step_board:
  assumes "outbox_step x db db'" and "outbox_wf db"
  shows "outbox_wf db' \<and> board_step (board db) (board db')"
  using assms(1)
proof cases
  case (enqueue r)
  then show ?thesis using enqueue_board [OF enqueue] assms(2) by simp
next
  case (mark ob ib now owner kind tid key seq msg at op)
  then show ?thesis using upsert_read_outbox_board [OF mark] assms(2) by simp
next
  case (claim_next owner now got)
  then show ?thesis using claim_next_board [OF claim_next assms(2)] by simp
next
  case (claim_operation owner op now got)
  then show ?thesis using claim_operation_board [OF claim_operation assms(2)] by simp
next
  case (retry owner mid code at)
  then show ?thesis using retry_board retry_wf [OF assms(2)] by simp
next
  case (fail owner mid code at)
  then show ?thesis using fail_board [OF fail assms(2)] by simp
next
  case (acknowledge owner agg conv seq now)
  then show ?thesis using acknowledge_board [OF acknowledge] assms(2) by simp
next
  case (recover t)
  then show ?thesis using recover_board recover_wf [OF assms(2)] by simp
next
  case (cleanup owner epoch seq budget now result)
  then show ?thesis using cleanup_board [OF cleanup assms(2)] by simp
next
  case elsewhere
  then show ?thesis using assms(2) by (simp add: board_cong [OF elsewhere] outbox_wf_cong [OF elsewhere] board_step_refl)
qed

interpretation marks: step_invariant board_step one_away
  by unfold_locales (rule board_step_one_away)

interpretation outbox: simulation "outbox_step x" outbox_wf board_step board for x
  by unfold_locales (auto dest: outbox_step_board)

lemma outbox_run_board:
  assumes "outbox_run x db db'" and "outbox_wf db"
  shows "outbox_wf db' \<and> board_step\<^sup>*\<^sup>* (board db) (board db')"
  using assms outbox.run_keeps outbox.run_simulates unfolding outbox_run_def by blast

lemmas board_run_one_away = marks.run_keeps

lemma empty_outbox: "outbox_wf empty_db" "board empty_db = Map.empty"
  by (simp_all add: outbox_wf_def board_def empty_db_def fun_eq_iff)

text \<open>
  C5. The outbox implements its specification: every operation on it that succeeds (queueing a
  mark, merging into a waiting one, either claim, a retry, a permanent failure, an
  acknowledgement, the repair after a restart, the cleanup) is one step of the board of marks,
  and keeps the table well formed.
\<close>

theorem outbox_implements_the_board:
  assumes "outbox_wf db" and "outbox_step x db db'"
  shows "outbox_wf db' \<and> board_step (board db) (board db')"
  using outbox_step_board [OF assms(2,1)] .

text \<open>
  C6. At any time at most one mark of a thread is on its way to the server: in every store
  reached from an empty one, two mutations in flight of one owner and one thread are the same.
\<close>

theorem one_mark_of_a_thread_in_flight:
  assumes "outbox_run x empty_db db"
    and "r \<in> set (t_outbox db)" "mu_status r = ''in_flight''"
    and "q \<in> set (t_outbox db)" "mu_status q = ''in_flight''"
    and "mu_owner_identity_id q = mu_owner_identity_id r" "mu_aggregate_id q = mu_aggregate_id r"
  shows "q = r"
proof -
  have wf: "outbox_wf db" and run: "board_step\<^sup>*\<^sup>* (board empty_db) (board db)"
    using outbox_run_board [OF assms(1) empty_outbox(1)] by auto
  have "one_away (board db)"
    by (rule board_run_one_away [OF run]) (simp add: empty_outbox one_away_def)
  moreover have "board db (mutation_key q) = Some (mu_aggregate_id r, Away)"
    using assms(4,5,7) by (auto simp: board_Some [OF wf] mark_view_def)
  moreover have "board db (mutation_key r) = Some (mu_aggregate_id r, Away)"
    using assms(2,3) by (auto simp: board_Some [OF wf] mark_view_def)
  ultimately have "mutation_key q = mutation_key r"
    by (rule one_awayD) (simp add: mutation_key_def assms(6))
  moreover have "distinct (map mutation_key (t_outbox db))" using wf by (simp add: outbox_wf_def)
  ultimately show ?thesis
    using assms(2,4) by (intro keyed_unique [where key = mutation_key])
qed

text \<open>
  C36. Every row of the outbox is of the declared shape, whatever sequence of operations wrote it:
  ids are unique, trimmed and not empty, the type and the status are of the declared sets, attempts are
  not negative, and exactly the rows in flight say since when.
\<close>

theorem outbox_rows_are_well_typed:
  assumes "outbox_run x empty_db db"
  shows "distinct (map mutation_key (t_outbox db)) \<and> distinct (map operation_key (t_outbox db))
    \<and> (\<forall>r\<in>set (t_outbox db). mutation_checks r
         \<and> trim (mu_mutation_id r) = mu_mutation_id r \<and> mu_mutation_id r \<noteq> []
         \<and> (mu_status r = ''in_flight'' \<longleftrightarrow> mu_in_flight_since r \<noteq> None))"
  using outbox_run_board [OF assms empty_outbox(1)]
  by (auto simp: outbox_wf_def row_ok_def validate_required_def split: if_splits)

section \<open>What an acknowledgement commits\<close>

definition covered :: "externs \<Rightarrow> string \<Rightarrow> LocalMutationRecord \<Rightarrow> bool" where
  "covered x acknowledged_seq r \<longleftrightarrow>
     (case mark_seq x r of Inl _ \<Rightarrow> False | Inr seq \<Rightarrow> dec_val seq \<le> dec_val acknowledged_seq)"

lemma covered_marks_ids:
  "covered_marks x acked rows = Ok ids \<Longrightarrow> ids = map mu_mutation_id (filter (covered x acked) rows)"
  by (induction rows arbitrary: ids)
    (auto simp: result_simps covered_def compare_decimal_eq_Inr cmp_def split: if_splits)

text \<open>
  C37. An acknowledgement of a thread up to a sequence number commits exactly the open marks of
  the thread (found under its remote key or under its local id) whose sequence number is not
  beyond the acknowledged one, as numbers, and leaves every other mark as it was.
\<close>

theorem acknowledgement_commits_covered_marks:
  assumes "outbox_wf db"
    and "acknowledge_read_outbox x db owner agg conv acked now = Ok db'"
  shows "t_outbox db' = map (\<lambda>r. if open_mark x owner agg conv r \<and> covered x acked r
    then commit_mark now r else r) (t_outbox db)"
proof -
  obtain ids where ids: "covered_marks x acked (filter (open_mark x owner agg conv) (t_outbox db)) = Ok ids"
    and out: "t_outbox db' = map (\<lambda>r. if fst (mutation_key r) = owner \<and> snd (mutation_key r) \<in> set ids
      then commit_mark now r else r) (t_outbox db)"
    using assms(2) by (rule acknowledge_rows)
  have "(fst (mutation_key r) = owner \<and> snd (mutation_key r) \<in> set ids) \<longleftrightarrow>
      (open_mark x owner agg conv r \<and> covered x acked r)" if r: "r \<in> set (t_outbox db)" for r
  proof
    assume a: "fst (mutation_key r) = owner \<and> snd (mutation_key r) \<in> set ids"
    then obtain q where q: "q \<in> set (t_outbox db)" "open_mark x owner agg conv q" "covered x acked q"
      "mu_mutation_id q = mu_mutation_id r"
      by (auto simp: covered_marks_ids [OF ids] mutation_key_def)
    then have "q = r"
      using assms(1) r a
      by (intro keyed_unique [where key = mutation_key]) (auto simp: outbox_wf_def mutation_key_def open_mark_def)
    with q show "open_mark x owner agg conv r \<and> covered x acked r" by simp
  next
    assume "open_mark x owner agg conv r \<and> covered x acked r"
    with r show "fst (mutation_key r) = owner \<and> snd (mutation_key r) \<in> set ids"
      by (auto simp: covered_marks_ids [OF ids] mutation_key_def open_mark_def)
  qed
  then show ?thesis unfolding out by (intro map_cong) simp_all
qed

section \<open>Work interrupted by a restart\<close>

lemma next_read_mutation_oldest:
  assumes "next_read_mutation db owner now = Some mid" and "outbox_wf db"
    and "r \<in> set (t_outbox db)" "claimable owner now r" "\<not> thread_in_flight db r"
  obtains q where "q \<in> set (t_outbox db)" "mutation_key q = (owner, mid)"
    "(mu_created_at q, mu_mutation_id q) \<le> (mu_created_at r, mu_mutation_id r)"
proof -
  let ?f = "\<lambda>r. (mu_created_at r, mu_mutation_id r)"
  let ?due = "filter (\<lambda>r. claimable owner now r \<and> \<not> thread_in_flight db r) (t_outbox db)"
  obtain q rs where L: "order_limit ?f 1 ?due = q # rs" and m: "mid = mu_mutation_id q"
    using assms(1) by (auto simp: next_read_mutation_def split: list.splits)
  have q: "q \<in> set ?due" using L set_order_limit by (metis list.set_intros(1) subsetD)
  have "length (q # rs) \<le> 1" unfolding L [symmetric] length_order_limit by simp
  then have rs: "rs = []" by simp
  have le: "?f q \<le> ?f r"
  proof (cases "r \<in> set (order_limit ?f 1 ?due)")
    case True
    with L rs show ?thesis by simp
  next
    case False
    then show ?thesis
      using assms(3-5) L by (intro order_limit_least [where f = ?f and n = 1 and rows = ?due]) simp_all
  qed
  from q le show ?thesis using m by (intro that [of q]) (auto simp: mutation_key_def claimable_def)
qed

lemma next_read_mutation_exists:
  assumes "r \<in> set (t_outbox db)" "claimable owner now r" "\<not> thread_in_flight db r"
  obtains mid where "next_read_mutation db owner now = Some mid"
proof -
  let ?due = "filter (\<lambda>r. claimable owner now r \<and> \<not> thread_in_flight db r) (t_outbox db)"
  have "r \<in> set ?due" using assms by simp
  then have "?due \<noteq> []" by (rule ne_of_mem [where s = ?due])
  then have "length (order_limit (\<lambda>r. (mu_created_at r, mu_mutation_id r)) 1 ?due) = 1"
    by (cases ?due) (simp_all add: length_order_limit)
  then show ?thesis
    using that by (auto simp: next_read_mutation_def length_Suc_conv)
qed

lemma claim_next_takes:
  assumes wf: "outbox_wf db" and "next_read_mutation db owner now = Some mid"
    and q: "q \<in> set (t_outbox db)" "mutation_key q = (owner, mid)"
    and "mu_last_error_code q \<noteq> Some ''anp.target_not_found''"
  obtains db' where "claim_next_read_mutation x db owner now = Ok (db', Some (q\<lparr>mu_status := ''in_flight'',
      mu_attempt_count := mu_attempt_count q + 1, mu_in_flight_since := Some now, mu_updated_at := now\<rparr>))"
    and "q\<lparr>mu_status := ''in_flight'', mu_attempt_count := mu_attempt_count q + 1,
      mu_in_flight_since := Some now, mu_updated_at := now\<rparr> \<in> set (t_outbox db')"
proof -
  let ?f = "\<lambda>r. r\<lparr>mu_status := ''in_flight'', mu_attempt_count := mu_attempt_count r + 1,
                     mu_in_flight_since := Some now, mu_updated_at := now\<rparr>"
  let ?db = "update_mutation owner mid (\<lambda>_. True) ?f db"
  have sel: "select_row (\<lambda>r. mutation_key r = (owner, mid)) (t_outbox db) = Some q"
    using wf q by (simp add: outbox_wf_def select_row_keyed_iff)
  have "select_row (\<lambda>r. mutation_key r = (owner, mid)) (t_outbox ?db) = Some (?f q)"
    unfolding t_outbox_update by (subst select_row_map) (auto simp: sel q(2), simp add: mutation_key_def)
  then have row: "select_row (\<lambda>r. mu_owner_identity_id r = owner \<and> mu_mutation_id r = mid) (t_outbox ?db) =
      Some (?f q)" by (simp add: mutation_key_def)
  have "validate_required ''owner_identity_id'' owner = Ok ()" "validate_required ''mutation_id'' mid = Ok ()"
    using wf q by (auto simp: outbox_wf_def row_ok_def mutation_key_def)
  then have "claim_next_read_mutation x db owner now = Ok (?db, Some (?f q))"
    using assms(5)
    by (simp add: claim_next_read_mutation_def assms(2) load_claimed_def load_local_mutation_def
        row normalize_claimed_group_read_mutation_def)
  moreover have "?f q \<in> set (t_outbox ?db)" using select_row_Some [OF row] by blast
  ultimately show ?thesis by (rule that)
qed


section \<open>The properties on samples\<close>

definition sample_marks :: "LocalMutationRecord list" where
  "sample_marks = [sample_mutation ''a'' ''t1'' ''pending'', sample_mutation ''b'' ''t1'' ''pending'']"

definition sample_outbox_db :: sync_db where
  "sample_outbox_db = sample_db\<lparr>t_outbox := sample_marks\<rparr>"

definition sample_sent :: LocalMutationRecord where
  "sample_sent = (sample_mutation ''a'' ''t1'' ''in_flight'')\<lparr>mu_attempt_count := 2,
     mu_in_flight_since := Some 7, mu_updated_at := 7\<rparr>"

definition sample_sent_db :: sync_db where
  "sample_sent_db = sample_db\<lparr>t_outbox := [sample_sent, sample_mutation ''b'' ''t1'' ''pending'']\<rparr>"

lemma sample_outbox_run:
  "outbox_run sample_x empty_db sample_outbox_db"
  "outbox_step sample_x sample_outbox_db sample_sent_db"
proof -
  let ?a = "sample_mutation ''a'' ''t1'' ''pending''" and ?b = "sample_mutation ''b'' ''t1'' ''pending''"
  let ?d = "sample_db\<lparr>t_outbox := [?a]\<rparr>"
  have e: "enqueue_local_mutation sample_db ?a = Ok ?d"
    "enqueue_local_mutation ?d ?b = Ok sample_outbox_db"
    "claim_next_read_mutation sample_x sample_outbox_db ''owner'' 7 = Ok (sample_sent_db, Some sample_sent)"
    by code_simp+
  have s: "mu_status (sample_mutation i t ''pending'') = ''pending''"
    "mu_in_flight_since (sample_mutation i t ''pending'') = None" for i t
    by (simp_all add: sample_mutation_def)
  have "t_outbox sample_db = t_outbox empty_db" by code_simp
  then have "outbox_step sample_x empty_db sample_db" by (rule outbox_step.elsewhere)
  moreover have "outbox_step sample_x sample_db ?d" using outbox_step.enqueue [OF e(1) s] .
  moreover have "outbox_step sample_x ?d sample_outbox_db" using outbox_step.enqueue [OF e(2) s] .
  ultimately show "outbox_run sample_x empty_db sample_outbox_db"
    unfolding outbox_run_def by (meson converse_rtranclp_into_rtranclp rtranclp.rtrancl_refl)
  show "outbox_step sample_x sample_outbox_db sample_sent_db" using outbox_step.claim_next [OF e(3)] .
qed

lemma sample_outbox_wf: "outbox_wf sample_outbox_db"
  using outbox_run_board [OF sample_outbox_run(1) empty_outbox(1)] by simp

lemma sample_sent_run: "outbox_run sample_x empty_db sample_sent_db"
  using sample_outbox_run unfolding outbox_run_def by (rule rtranclp.rtrancl_into_rtrancl)

theorem outbox_implements_the_board_witness:
  "board sample_outbox_db (''owner'', ''a'') = Some (''t1'', Waiting)
   \<and> board_step (board sample_outbox_db) (board sample_sent_db)
   \<and> board sample_sent_db (''owner'', ''a'') = Some (''t1'', Away)"
proof -
  have "board sample_outbox_db (''owner'', ''a'') = Some (''t1'', Waiting)"
    "board sample_sent_db (''owner'', ''a'') = Some (''t1'', Away)" by code_simp+
  with outbox_implements_the_board [OF sample_outbox_wf sample_outbox_run(2)] show ?thesis by simp
qed

theorem one_mark_of_a_thread_in_flight_witness:
  "outbox_run sample_x empty_db sample_sent_db \<and> sample_sent \<in> set (t_outbox sample_sent_db)
   \<and> mu_status sample_sent = ''in_flight'' \<and> hd (t_outbox sample_sent_db) = sample_sent"
proof -
  have s: "sample_sent \<in> set (t_outbox sample_sent_db)" "hd (t_outbox sample_sent_db) \<in> set (t_outbox sample_sent_db)"
    by (simp_all add: sample_sent_db_def)
  have f: "mu_status sample_sent = ''in_flight''" "mu_status (hd (t_outbox sample_sent_db)) = ''in_flight''"
    "mu_owner_identity_id (hd (t_outbox sample_sent_db)) = mu_owner_identity_id sample_sent"
    "mu_aggregate_id (hd (t_outbox sample_sent_db)) = mu_aggregate_id sample_sent" by code_simp+
  show ?thesis
    using sample_sent_run s(1) f(1)
      one_mark_of_a_thread_in_flight [OF sample_sent_run s(1) f(1) s(2) f(2-4)] by simp
qed

theorem outbox_rows_are_well_typed_witness:
  "outbox_run sample_x empty_db sample_sent_db \<and> mutation_checks sample_sent
   \<and> mu_in_flight_since sample_sent \<noteq> None"
proof -
  have "sample_sent \<in> set (t_outbox sample_sent_db)" by (simp add: sample_sent_db_def)
  moreover have "mu_status sample_sent = ''in_flight''" by (simp add: sample_sent_def sample_mutation_def)
  ultimately show ?thesis
    using sample_sent_run outbox_rows_are_well_typed [OF sample_sent_run] by blast
qed

definition sample_mark_x :: externs where
  "sample_mark_x = sample_x\<lparr>x_json_from_str := (\<lambda>s. if s = ''{}''
     then Some (JObject [(''read_watermark_seq'', JString ''5'')]) else None)\<rparr>"

theorem acknowledgement_commits_covered_marks_witness:
  "\<exists>db'. acknowledge_read_outbox sample_mark_x sample_outbox_db ''owner'' ''t1'' None ''7'' 9 = Ok db'
     \<and> map mu_status (t_outbox db') = [''committed'', ''committed'']"
proof -
  have "case acknowledge_read_outbox sample_mark_x sample_outbox_db ''owner'' ''t1'' None ''7'' 9 of
      Inl _ \<Rightarrow> False | Inr _ \<Rightarrow> True" by code_simp
  then obtain db' where a: "acknowledge_read_outbox sample_mark_x sample_outbox_db ''owner'' ''t1'' None ''7'' 9 = Ok db'"
    by (auto split: sum.splits)
  have "map (mu_status \<circ> (\<lambda>r. if open_mark sample_mark_x ''owner'' ''t1'' None r \<and> covered sample_mark_x ''7'' r
      then commit_mark 9 r else r)) (t_outbox sample_outbox_db) = [''committed'', ''committed'']"
    by code_simp
  then have "map mu_status (t_outbox db') = [''committed'', ''committed'']"
    by (simp only: acknowledgement_commits_covered_marks [OF sample_outbox_wf a] map_map)
  with a show ?thesis by (intro exI [of _ db'] conjI)
qed


end
