(* ===== verification/Read_Drain.thy ===== *)
theory Read_Drain
  imports Outbox_Protocol
begin

text \<open>
  What \<open>drain_read_outbox\<close> of \<open>message_runtime/sync_v2.rs\<close> does with a read mark whose sending
  failed: give it up, put it back for later, or stop for a new session.  The sending itself, and what
  it stores after an acknowledgement, are not part of the model; its error is an argument.
\<close>

section \<open>Classifying the error\<close>

definition GROUP_SEQUENCE_ONLY_TARGET_NOT_FOUND_MAX_ATTEMPTS :: int where
  "GROUP_SEQUENCE_ONLY_TARGET_NOT_FOUND_MAX_ATTEMPTS = 3"

fun error_code :: "ImError \<Rightarrow> string option" where
  "error_code (Service _ (Some code) _ _) = Some code"
| "error_code _ = None"

definition is_device_epoch_rejection :: "ImError \<Rightarrow> bool" where
  "is_device_epoch_rejection e \<longleftrightarrow>
     error_code e = Some ''anp.device_not_eligible'' \<or> error_code e = Some ''anp.device_state_changed''"

definition read_mutation_thread_kind :: "externs \<Rightarrow> LocalMutationRecord \<Rightarrow> string option" where
  "read_mutation_thread_kind x r =
     Option.bind (x_json_from_str x (mu_payload_json r)) (\<lambda>payload.
       case json_get_str ''thread_kind'' payload of
         None \<Rightarrow> None
       | Some kind \<Rightarrow>
           if kind = ''direct'' then Some ''direct''
           else if kind = ''group'' then Some ''group'' else None)"

definition is_read_target_not_found :: "externs \<Rightarrow> LocalMutationRecord \<Rightarrow> ImError \<Rightarrow> bool" where
  "is_read_target_not_found x r e \<longleftrightarrow>
     error_code e = Some ''anp.target_not_found''
   \<and> (read_mutation_thread_kind x r = Some ''direct'' \<or> read_mutation_thread_kind x r = Some ''group'')"

definition is_sequence_only_group_read :: "externs \<Rightarrow> LocalMutationRecord \<Rightarrow> bool" where
  "is_sequence_only_group_read x r \<longleftrightarrow>
     read_mutation_thread_kind x r = Some ''group''
   \<and> (case x_json_from_str x (mu_payload_json r) of
        None \<Rightarrow> True
      | Some payload \<Rightarrow> nonblank_member ''read_watermark_message_id'' payload = None)"

definition sequence_only_group_read_retry_delay :: "int \<Rightarrow> int" where
  "sequence_only_group_read_retry_delay attempt_count = (if attempt_count \<le> 1 then 5 else 30)"

definition or_code :: "string option \<Rightarrow> string \<Rightarrow> string" where
  "or_code code other = (case code of Some c \<Rightarrow> c | None \<Rightarrow> other)"

section \<open>After a failed send\<close>

text \<open>The body of \<open>if let Err(error)\<close>; the second component is the error that ends the drain.\<close>

definition after_failed_send ::
  "externs \<Rightarrow> sync_db \<Rightarrow> string \<Rightarrow> LocalMutationRecord \<Rightarrow> ImError \<Rightarrow> int
     \<Rightarrow> (sync_db \<times> ImError option) ImResult" where
  "after_failed_send x db owner r e now =
     (if error_code e = Some ''SYNC_LOCAL_OUTBOX_CORRUPT'' then
        bind_result (permanently_fail_local_mutation x db owner (mu_mutation_id r)
          ''SYNC_LOCAL_OUTBOX_CORRUPT'' now) (\<lambda>db'. Ok (db', None))
      else
        let device_epoch_rejection = is_device_epoch_rejection e;
            target_not_found = is_read_target_not_found x r e;
            sequence_only = (target_not_found \<and> is_sequence_only_group_read x r)
        in if sequence_only \<and> mu_attempt_count r \<ge> GROUP_SEQUENCE_ONLY_TARGET_NOT_FOUND_MAX_ATTEMPTS then
             bind_result (permanently_fail_local_mutation x db owner (mu_mutation_id r)
               (or_code (error_code e) ''READ_STATE_TARGET_NOT_FOUND'') now) (\<lambda>db'. Ok (db', None))
           else
             let retry_delay =
                   (if sequence_only then sequence_only_group_read_retry_delay (mu_attempt_count r)
                    else if target_not_found \<and> read_mutation_thread_kind x r = Some ''direct'' then 300
                    else 5);
                 at = (if device_epoch_rejection then now else saturating_add now retry_delay);
                 db' = retry_local_mutation db owner (mu_mutation_id r)
                         (or_code (error_code e) ''READ_STATE_RETRY'') at
             in Ok (db', if device_epoch_rejection then Some e else None))"

section \<open>Refusals\<close>

definition mark_row :: "sync_db \<Rightarrow> string \<Rightarrow> string \<Rightarrow> LocalMutationRecord option" where
  "mark_row db owner mid = select_row (\<lambda>r. mutation_key r = (owner, mid)) (t_outbox db)"

text \<open>\<open>n\<close> rounds in which the drain claims the mark and the server answers that the target does not
  exist; between two rounds anything may happen to everything but the row of the mark.\<close>

inductive refused :: "externs \<Rightarrow> string \<Rightarrow> string \<Rightarrow> nat \<Rightarrow> sync_db \<Rightarrow> sync_db \<Rightarrow> bool"
  for x owner mid where
  start: "refused x owner mid 0 db db"
| elsewhere: "refused x owner mid n db db1 \<Longrightarrow> mark_row db2 owner mid = mark_row db1 owner mid \<Longrightarrow>
    outbox_wf db2 \<Longrightarrow> refused x owner mid n db db2"
| refusal: "refused x owner mid n db db1 \<Longrightarrow>
    claim_next_read_mutation x db1 owner now = Ok (db2, Some r) \<Longrightarrow> mu_mutation_id r = mid \<Longrightarrow>
    error_code e = Some ''anp.target_not_found'' \<Longrightarrow>
    after_failed_send x db2 owner r e now = Ok (db3, None) \<Longrightarrow> refused x owner mid (Suc n) db db3"

lemma sequence_only_payload:
  "mu_payload_json r = mu_payload_json q \<Longrightarrow>
     is_sequence_only_group_read x r = is_sequence_only_group_read x q"
  by (simp add: is_sequence_only_group_read_def read_mutation_thread_kind_def)

lemma sequence_only_is_refused_target:
  "is_sequence_only_group_read x r \<Longrightarrow> error_code e = Some ''anp.target_not_found'' \<Longrightarrow>
     is_read_target_not_found x r e"
  by (simp add: is_sequence_only_group_read_def is_read_target_not_found_def)

lemma normalize_sequence_only:
  assumes "is_sequence_only_group_read x r"
  shows "normalize_claimed_group_read_mutation x db r = Ok (db, r)"
proof -
  obtain p where p: "x_json_from_str x (mu_payload_json r) = Some p"
    and k: "json_get_str ''thread_kind'' p = Some ''group''"
    and m: "nonblank_member ''read_watermark_message_id'' p = None"
    using assms
    by (auto simp: is_sequence_only_group_read_def read_mutation_thread_kind_def bind_eq_Some_conv
        split: option.splits if_splits)
  have "is_object p" using k by (cases p) (auto simp: json_get_str_def)
  with p k m show ?thesis
    by (simp add: normalize_claimed_group_read_mutation_def parse_payload_def)
qed

lemma mark_row_update:
  assumes "\<And>r. mutation_key (f r) = mutation_key r"
  shows "mark_row (update_mutation owner mid P f db) owner mid =
    map_option (\<lambda>r. if P r then f r else r) (mark_row db owner mid)"
proof -
  let ?g = "\<lambda>r. if mutation_key r = (owner, mid) \<and> P r then f r else r"
  have "mark_row (update_mutation owner mid P f db) owner mid = map_option ?g (mark_row db owner mid)"
    unfolding mark_row_def t_outbox_update by (rule select_row_map) (simp add: assms)
  then show ?thesis
    by (cases "mark_row db owner mid") (auto simp: mark_row_def dest: select_row_Some)
qed

lemma normalize_keeps_id:
  "normalize_claimed_group_read_mutation x db r = Ok (db', r') \<Longrightarrow> mu_mutation_id r' = mu_mutation_id r"
  by (auto simp: normalize_claimed_group_read_mutation_def result_simps Let_def split: if_splits)

lemma claim_sequence_only:
  assumes claim: "claim_next_read_mutation x db owner now = Ok (db', Some r)" "mu_mutation_id r = mid"
    and wf: "outbox_wf db" and q: "mark_row db owner mid = Some q"
    and seq: "is_sequence_only_group_read x q"
  shows "mark_row db' owner mid = Some r" "claimable owner now q"
    "r = q\<lparr>mu_status := ''in_flight'', mu_attempt_count := mu_attempt_count q + 1,
       mu_in_flight_since := Some now, mu_updated_at := now\<rparr>"
proof -
  let ?f = "\<lambda>r. r\<lparr>mu_status := ''in_flight'', mu_attempt_count := mu_attempt_count r + 1,
                     mu_in_flight_since := Some now, mu_updated_at := now\<rparr>"
  let ?db = "\<lambda>mid. update_mutation owner mid (\<lambda>_. True) ?f db"
  obtain mid' r0 where next': "next_read_mutation db owner now = Some mid'"
    and row: "mark_row (?db mid') owner mid' = Some r0"
    and norm: "normalize_claimed_group_read_mutation x (?db mid') r0 = Ok (db', r)"
    using claim(1)
    by (auto simp: claim_next_read_mutation_def load_claimed_def load_local_mutation_def result_simps
        mark_row_def mutation_key_def split: option.splits)
  have "mu_mutation_id r0 = mid'" using select_row_Some [OF row [unfolded mark_row_def]]
    by (simp add: mutation_key_def)
  with normalize_keeps_id [OF norm] claim(2) have mid: "mid' = mid" by simp
  have r0: "r0 = ?f q"
    using row q unfolding mid by (subst (asm) mark_row_update) (simp_all add: mutation_key_def)
  have "is_sequence_only_group_read x r0"
    using seq sequence_only_payload [of r0 q x] by (simp add: r0)
  then have "db' = ?db mid \<and> r = r0" using norm unfolding mid by (simp add: normalize_sequence_only)
  with row mid r0 show "mark_row db' owner mid = Some r" "r = ?f q" by simp_all
  obtain q' where q': "q' \<in> set (t_outbox db)" "mutation_key q' = (owner, mid)" "claimable owner now q'"
    using next_read_mutationD [OF next'] mid by metis
  have "select_row (\<lambda>r. mutation_key r = (owner, mid)) (t_outbox db) = Some q'"
    using wf q' by (simp add: outbox_wf_def select_row_keyed_iff)
  with q q'(3) show "claimable owner now q" by (simp add: mark_row_def)
qed

lemma refusal_of_sequence_only:
  assumes send: "after_failed_send x db owner r e now = Ok (db', None)"
    and e: "error_code e = Some ''anp.target_not_found''" and seq: "is_sequence_only_group_read x r"
    and r: "mark_row db owner (mu_mutation_id r) = Some r" "mu_status r = ''in_flight''"
    and wf: "outbox_wf db"
  shows "\<exists>r'. mark_row db' owner (mu_mutation_id r) = Some r' \<and> outbox_wf db'
    \<and> mu_payload_json r' = mu_payload_json r \<and> mu_attempt_count r' = mu_attempt_count r
    \<and> mu_status r' = (if mu_attempt_count r \<ge> 3 then ''permanent_failure'' else ''retryable'')"
proof -
  note simps = after_failed_send_def e Let_def sequence_only_is_refused_target [OF seq e] seq
    GROUP_SEQUENCE_ONLY_TARGET_NOT_FOUND_MAX_ATTEMPTS_def is_device_epoch_rejection_def or_code_def
  show ?thesis
  proof (cases "mu_attempt_count r \<ge> 3")
    case True
    then have f: "permanently_fail_local_mutation x db owner (mu_mutation_id r)
        ''anp.target_not_found'' now = Ok db'"
      using send by (simp add: simps result_simps)
    have "mark_row db' owner (mu_mutation_id r) = Some (r\<lparr>mu_status := ''permanent_failure'',
        mu_retry_at := None, mu_in_flight_since := None,
        mu_last_error_code := Some ''anp.target_not_found'', mu_updated_at := now\<rparr>)"
      unfolding mark_row_def fail_rows(2) [OF f]
      unfolding mark_row_def [symmetric]
      by (subst mark_row_update) (simp_all add: mutation_key_def r)
    with fail_board(2) [OF f wf] True show ?thesis by simp
  next
    case False
    then obtain at where d: "db' = retry_local_mutation db owner (mu_mutation_id r) ''anp.target_not_found'' at"
      using send by (auto simp: simps)
    have "mark_row db' owner (mu_mutation_id r) = Some (r\<lparr>mu_status := ''retryable'',
        mu_in_flight_since := None, mu_retry_at := Some at,
        mu_last_error_code := Some ''anp.target_not_found'', mu_updated_at := at\<rparr>)"
      unfolding d retry_local_mutation_def
      by (subst mark_row_update) (simp_all add: mutation_key_def r)
    with retry_wf [OF wf] False d show ?thesis by simp
  qed
qed

lemma refused_counts:
  assumes "refused x owner mid n db db'" and "outbox_wf db" "mark_row db owner mid = Some q"
    and "is_sequence_only_group_read x q"
  shows "\<exists>q'. mark_row db' owner mid = Some q' \<and> outbox_wf db'
    \<and> mu_payload_json q' = mu_payload_json q \<and> mu_attempt_count q' = mu_attempt_count q + int n
    \<and> (n > 0 \<and> mu_attempt_count q' \<ge> 3 \<longrightarrow> mu_status q' = ''permanent_failure'')
    \<and> n \<le> 3"
  using assms
proof (induction rule: refused.induct)
  case (start db)
  then show ?case by simp
next
  case (elsewhere n db db1 db2)
  then show ?case by auto
next
  case (refusal n db db1 now db2 r e db3)
  then obtain q1 where q1: "mark_row db1 owner mid = Some q1" "outbox_wf db1"
    "mu_payload_json q1 = mu_payload_json q" "mu_attempt_count q1 = mu_attempt_count q + int n"
    "n > 0 \<and> mu_attempt_count q1 \<ge> 3 \<longrightarrow> mu_status q1 = ''permanent_failure''"
    by blast
  have seq1: "is_sequence_only_group_read x q1"
    using refusal.prems(3) sequence_only_payload [OF q1(3)] by simp
  note c = claim_sequence_only [OF refusal.hyps(2,3) q1(2,1) seq1]
  have "0 \<le> mu_attempt_count q"
    using refusal.prems(1,2) select_row_Some
    by (fastforce simp: outbox_wf_def row_ok_def mutation_checks_def mark_row_def)
  moreover have "n = 0 \<or> mu_attempt_count q1 < 3" using q1(5) c(2) by (auto simp: claimable_def)
  ultimately have n: "Suc n \<le> 3" using q1(4) by auto
  have "is_sequence_only_group_read x r" using seq1 sequence_only_payload [of r q1 x] by (simp add: c(3))
  from refusal_of_sequence_only [OF refusal.hyps(5,4) this] c(1,3) refusal.hyps(3)
    claim_next_board(2) [OF refusal.hyps(2) q1(2)]
  obtain r' where "mark_row db3 owner mid = Some r'" "outbox_wf db3"
    "mu_payload_json r' = mu_payload_json r" "mu_attempt_count r' = mu_attempt_count r"
    "mu_status r' = (if mu_attempt_count r \<ge> 3 then ''permanent_failure'' else ''retryable'')"
    by auto
  with q1 c(3) n show ?case by auto
qed

text \<open>
  C15. The sending of a group mark that names only a sequence number comes to an end although the
  server refuses it every time: when the server keeps answering that the target does not exist, the
  drain sends the mark at most three times, and after the attempt with number three it is failed for
  good - whatever happens to the other marks in between.
\<close>
theorem refused_group_mark_is_given_up:
  assumes "refused x owner mid n db db'" and "outbox_wf db" "mark_row db owner mid = Some q"
    and "is_sequence_only_group_read x q"
  shows "n \<le> 3 \<and> (n > 0 \<and> mu_attempt_count q + int n \<ge> 3 \<longrightarrow>
    map_option mu_status (mark_row db' owner mid) = Some ''permanent_failure'')"
  using refused_counts [OF assms] by auto

section \<open>Concrete values for the witness\<close>

definition sample_group_x :: externs where
  "sample_group_x = sample_x\<lparr>x_json_from_str := (\<lambda>s. if s = ''{}''
     then Some (JObject [(''thread_kind'', JString ''group'')]) else None)\<rparr>"

definition target_not_found :: ImError where
  "target_not_found = Service None (Some ''anp.target_not_found'') [] None"

definition refuse_once :: "int \<Rightarrow> sync_db \<Rightarrow> sync_db" where
  "refuse_once now db =
     (case claim_next_read_mutation sample_group_x db ''owner'' now of
        Inr (db1, Some r) \<Rightarrow>
          (case after_failed_send sample_group_x db1 ''owner'' r target_not_found now of
             Inr (db2, _) \<Rightarrow> db2 | Inl _ \<Rightarrow> db)
      | _ \<Rightarrow> db)"

definition round_ok :: "int \<Rightarrow> sync_db \<Rightarrow> bool" where
  "round_ok now db \<longleftrightarrow>
     (case claim_next_read_mutation sample_group_x db ''owner'' now of
        Inr (db1, Some r) \<Rightarrow> mu_mutation_id r = ''a''
          \<and> (case after_failed_send sample_group_x db1 ''owner'' r target_not_found now of
               Inr (_, None) \<Rightarrow> True | _ \<Rightarrow> False)
      | _ \<Rightarrow> False)"

lemma refuse_once_refused:
  assumes "refused sample_group_x ''owner'' ''a'' n db0 db" "round_ok now db"
  shows "refused sample_group_x ''owner'' ''a'' (Suc n) db0 (refuse_once now db)"
proof -
  obtain db1 r where c: "claim_next_read_mutation sample_group_x db ''owner'' now = Ok (db1, Some r)"
    using assms(2) by (auto simp: round_ok_def split: sum.split_asm prod.split_asm option.split_asm)
  with assms(2) obtain db2 where "mu_mutation_id r = ''a''"
    "after_failed_send sample_group_x db1 ''owner'' r target_not_found now = Ok (db2, None)"
    by (cases "after_failed_send sample_group_x db1 ''owner'' r target_not_found now")
       (auto simp: round_ok_def split: prod.split_asm option.split_asm)
  note c this
  with assms(1) show ?thesis
    using refused.refusal [OF assms(1), where e = target_not_found]
    by (auto simp: refuse_once_def target_not_found_def)
qed

lemma sample_rounds:
  "round_ok 7 sample_outbox_db" "round_ok 100 (refuse_once 7 sample_outbox_db)"
  by code_simp+

theorem refused_group_mark_is_given_up_witness:
  "map_option mu_status
     (mark_row (refuse_once 100 (refuse_once 7 sample_outbox_db)) ''owner'' ''a'') = Some ''permanent_failure''"
proof -
  have r: "refused sample_group_x ''owner'' ''a'' (Suc (Suc 0)) sample_outbox_db
      (refuse_once 100 (refuse_once 7 sample_outbox_db))"
    by (intro refuse_once_refused sample_rounds refused.start)
  have q: "mark_row sample_outbox_db ''owner'' ''a'' = Some (sample_mutation ''a'' ''t1'' ''pending'')"
    "mu_attempt_count (sample_mutation ''a'' ''t1'' ''pending'') = 1"
    "is_sequence_only_group_read sample_group_x (sample_mutation ''a'' ''t1'' ''pending'')"
    by code_simp+
  show ?thesis
    using refused_group_mark_is_given_up [OF r sample_outbox_wf q(1,3)] q(2) by simp
qed

end
