(* ===== verification/Dispatcher.thy ===== *)
theory Dispatcher
  imports Inbox_Protocol
begin

text \<open>
  The dispatcher of received inputs, \<open>message_runtime/sync_dispatcher.rs\<close>, with the
  classification of failures it uses from \<open>message_runtime/sync_processing.rs\<close>.

  The first part follows one attempt on an input through \<open>run_claim\<close>.  An attempt is a sequence of
  short transactions; what its worker and everybody else write between two of them is the argument
  \<open>others\<close>, so that the theorems hold whatever happens in between.

  The second part is the run loop: the state behind the mutex, each critical section as one
  function, and the interleavings of callers, loops and their guards as a step relation.
\<close>

section \<open>Failures\<close>

definition internal_failure_codes :: "string list" where
  "internal_failure_codes =
     [''group.e2ee.epoch_conflict'', ''group.e2ee.state_not_ready'', ''group.e2ee.state_locked'',
      ''state_locked'', ''state_write_failed'']"

fun failure_code :: "ImError \<Rightarrow> string" where
  "failure_code (Internal message) =
     (case find (\<lambda>code. contains_str (''('' @ code @ '')'') message) internal_failure_codes of
        Some code \<Rightarrow> code | None \<Rightarrow> ''sync.processing_blocked'')"
| "failure_code (MessageWireIdentityConflict _) = ''message_wire_identity_conflict''"
| "failure_code (Service _ (Some code) _ _) = code"
| "failure_code (TransportUnavailable _) = ''sync.processing_transport_unavailable''"
| "failure_code (LocalStateUnavailable _) = ''sync.processing_storage_unavailable''"
| "failure_code (PeerNotFound _) = ''sync.peer_resolution_pending''"
| "failure_code (GroupNotFound _) = ''sync.group_state_pending''"
| "failure_code AuthRequired = ''sync.processing_auth_required''"
| "failure_code SessionExpired = ''sync.processing_auth_required''"
| "failure_code (UnsupportedCapability _) = ''sync.processing_upgrade_required''"
| "failure_code _ = ''sync.processing_blocked''"

fun transient_error :: "ImError \<Rightarrow> bool" where
  "transient_error (TransportUnavailable _) = True"
| "transient_error (LocalStateUnavailable _) = True"
| "transient_error (PeerNotFound _) = True"
| "transient_error (GroupNotFound _) = True"
| "transient_error AuthRequired = True"
| "transient_error SessionExpired = True"
| "transient_error _ = False"

definition transient_codes :: "string list" where
  "transient_codes =
     [''sync.peer_resolution_pending'', ''sync.group_sent_projection_pending'',
      ''sync.baseline_pending'', ''sync.group_state_pending'', ''group.e2ee.epoch_conflict'',
      ''group.e2ee.state_not_ready'', ''group.e2ee.state_locked'', ''state_locked'',
      ''state_write_failed'', ''p5.session_pending'', ''p5.session_revision_changed'',
      ''anp.direct.e2ee.max_skip_exceeded'', ''sync.processing_timeout'']"

definition retryable :: "ImError \<Rightarrow> bool" where
  "retryable e \<longleftrightarrow> transient_error e \<or> failure_code e \<in> set transient_codes"

text \<open>The shift \<open>1_i64 << attempts.clamp(0, 6)\<close> stays far below the width of an \<open>i64\<close>.\<close>

definition retry_delay :: "int \<Rightarrow> int" where
  "retry_delay attempts = min (2 ^ nat (max 0 (min attempts 6))) 60"

definition retry_at :: "ImError \<Rightarrow> int \<Rightarrow> int \<Rightarrow> int option" where
  "retry_at e attempts now =
     (if retryable e then Some (saturating_add now (retry_delay attempts)) else None)"

section \<open>One attempt\<close>

definition processing_update ::
  "InputClaim \<Rightarrow> MessageProcessingStatus \<Rightarrow> string \<Rightarrow> MessageProcessingUpdate" where
  "processing_update claim status code =
     \<lparr>pu_event_id = cl_event_id claim, pu_status = status, pu_changed_conversation_ids = [],
      pu_committed_incoming_messages = [], pu_error_code = Some code\<rparr>"

definition removed_updates :: "RemovedInput list \<Rightarrow> (string \<times> MessageProcessingUpdate) list" where
  "removed_updates removed =
     map (\<lambda>r. (rm_owner_identity_id r,
       \<lparr>pu_event_id = rm_event_id r, pu_status = Discarded, pu_changed_conversation_ids = [],
        pu_committed_incoming_messages = [], pu_error_code = Some ''sync.input_discarded''\<rparr>)) removed"

text \<open>The work has used up its time: the input is parked, and the job goes on waiting for the work.\<close>

definition time_out ::
  "InputClaim \<Rightarrow> int \<Rightarrow> sync_db \<Rightarrow> sync_db \<times> bool \<times> MessageProcessingUpdate list" where
  "time_out claim now db =
     (let (db1, parked) = park_timeout db claim now
      in (db1, parked,
          if parked then [processing_update claim Retrying ''sync.processing_timeout''] else []))"

definition late_result ::
  "InputClaim \<Rightarrow> bool \<Rightarrow> int \<Rightarrow> MessageProcessingUpdate ImResult \<Rightarrow> sync_db
     \<Rightarrow> sync_db \<times> MessageProcessingUpdate ImResult" where
  "late_result claim parked now result db =
     (if \<not> parked then (db, result)
      else let (db1, released) = release_timeout db claim (now + 2)
           in (db1, Err (if released
                then inbox_error ''sync.processing_timeout''
                       ''business processing exceeded its time budget''
                else inbox_error ''SYNC_INPUT_SUPERSEDED''
                       ''timed-out input was discarded before its call ended'')))"

text \<open>An attempt that could not be recorded is over without a word when the input is still queued
  or was completed; \<open>unwrap_or(true)\<close> takes a failing look-up for that.\<close>

definition retained_or_completed :: "externs \<Rightarrow> sync_db \<Rightarrow> InputClaim \<Rightarrow> bool" where
  "retained_or_completed x db claim \<longleftrightarrow>
     exists_row (\<lambda>r. ib_input_id r = cl_input_id claim) (t_inbox db)
   \<or> (case claim_was_completed x db claim of Inl _ \<Rightarrow> True | Inr completed \<Rightarrow> completed)"

definition failure_update :: "InputClaim \<Rightarrow> string \<Rightarrow> int option \<Rightarrow> bool \<Rightarrow> MessageProcessingUpdate" where
  "failure_update claim code at discarded =
     processing_update claim
       (if discarded then Discarded else if at \<noteq> None then Retrying else Blocked)
       (if discarded then ''sync.input_discarded'' else code)"

definition end_attempt ::
  "externs \<Rightarrow> (nat \<Rightarrow> sync_db \<Rightarrow> sync_db) \<Rightarrow> InputClaim \<Rightarrow> int \<Rightarrow> int
     \<Rightarrow> MessageProcessingUpdate ImResult \<Rightarrow> sync_db \<Rightarrow> sync_db \<times> MessageProcessingUpdate list" where
  "end_attempt x others claim retry_clock clock result db =
     (case result of
        Inr update \<Rightarrow> (release_claim_lease claim db, [update])
      | Inl e \<Rightarrow>
          (let code = failure_code e;
               at = retry_at e (cl_attempt_count claim) retry_clock
           in case fail_claim db claim code at clock of
                Inr db1 \<Rightarrow>
                  (release_claim_lease claim (others 3 db1), [failure_update claim code at False])
              | Inl _ \<Rightarrow>
                  (let db1 = others 3 db;
                       db2 = release_claim_lease claim (others 4 db1)
                   in if retained_or_completed x db1 claim then (db2, [])
                      else (db2, [failure_update claim code at
                                    (code \<noteq> ''sync.processing_timeout'')]))))"

text \<open>The job of a claim, from the start of its work: \<open>overran\<close> says whether the work exceeds
  \<open>PROCESSING_TIMEOUT\<close>, \<open>result\<close> what it returns in the end, \<open>clock\<close> the readings of \<open>now()\<close>.\<close>

definition run_claim ::
  "externs \<Rightarrow> (nat \<Rightarrow> sync_db \<Rightarrow> sync_db) \<Rightarrow> (nat \<Rightarrow> int) \<Rightarrow> InputClaim \<Rightarrow> bool
     \<Rightarrow> MessageProcessingUpdate ImResult \<Rightarrow> sync_db \<Rightarrow> sync_db \<times> MessageProcessingUpdate list" where
  "run_claim x others clock claim overran result db =
     (if \<not> overran then end_attempt x others claim (clock 2) (clock 3) result (others 0 db)
      else let (db1, parked, early) = time_out claim (clock 0) (others 0 db);
               (db2, final) = late_result claim parked (clock 1) result (others 1 db1);
               (db3, updates) = end_attempt x others claim (clock 2) (clock 3) final (others 2 db2)
           in (db3, early @ updates))"

section \<open>The state of the dispatcher\<close>

record SyncAccountContext =
  sa_account_id :: string
  sa_protocol_device_id :: string
  sa_device_auth_generation :: string

text \<open>A client as the dispatcher sees it: the identity it acts for and what its
  \<open>sync_account_context\<close> returns.\<close>

record sync_client =
  sc_owner :: string
  sc_context :: "SyncAccountContext ImResult"

text \<open>\<open>clients\<close> is a \<open>BTreeMap\<close>: its entries in the order of the keys.\<close>

record DispatchState =
  running :: bool
  run_epoch :: "64 word"
  wake_generation :: "64 word"
  next_owner :: "64 word"
  clients :: "(string \<times> sync_client) list"
  active_by_owner :: "string \<rightharpoonup> nat"

definition dispatch_default :: DispatchState where
  "dispatch_default =
     \<lparr>running = False, run_epoch = 0, wake_generation = 0, next_owner = 0, clients = [],
      active_by_owner = Map.empty\<rparr>"

text \<open>Two clients of one identity: the one with the later device authorisation is kept, an
  incoming one wins a tie.\<close>

definition newer_client :: "sync_client \<Rightarrow> sync_client \<Rightarrow> bool" where
  "newer_client current incoming \<longleftrightarrow>
     (case (sc_context current, sc_context incoming) of
        (Inr c, Inr i) \<Rightarrow>
          (length (sa_device_auth_generation c), sa_device_auth_generation c)
          > (length (sa_device_auth_generation i), sa_device_auth_generation i)
      | _ \<Rightarrow> False)"

text \<open>The critical section of \<open>wake_client\<close>; the second component is the epoch of the loop that the
  caller has to spawn.\<close>

definition wake_client :: "sync_client \<Rightarrow> DispatchState \<Rightarrow> DispatchState \<times> 64 word option" where
  "wake_client client st =
     (let owner = sc_owner client;
          use_current = opt_any (\<lambda>current. newer_client current client) (map_of (clients st) owner);
          st1 = (if use_current then st
                 else st\<lparr>clients := btree_insert owner client (clients st)\<rparr>);
          st2 = st1\<lparr>wake_generation := wake_generation st1 + 1\<rparr>;
          st3 = st2\<lparr>running := True\<rparr>
      in if \<not> running st2
         then (st3\<lparr>run_epoch := run_epoch st3 + 1\<rparr>, Some (run_epoch st3 + 1))
         else (st3, None))"

text \<open>The head of an iteration: the clients of this round, rotated, and the generation seen.\<close>

definition take_snapshot :: "DispatchState \<Rightarrow> DispatchState \<times> sync_client list \<times> 64 word" where
  "take_snapshot st =
     (let cs = map snd (clients st)
      in if cs = [] then (st, cs, wake_generation st)
         else (st\<lparr>next_owner := next_owner st + 1\<rparr>,
               rotate (unat (next_owner st) mod length cs) cs, wake_generation st))"

text \<open>The end of an iteration: the loop leaves, starts over at once, or waits for an event.\<close>

datatype loop_verdict = Leave DispatchState | Again | Wait

definition try_leave ::
  "nat \<Rightarrow> bool \<Rightarrow> nat \<Rightarrow> 64 word \<Rightarrow> DispatchState \<Rightarrow> loop_verdict" where
  "try_leave jobs retained receivers generation st =
     (if jobs = 0 \<and> \<not> retained \<and> receivers = 0
      then if wake_generation st = generation
           then Leave (st\<lparr>running := False, clients := []\<rparr>)
           else Again
      else Wait)"

text \<open>\<open>Drop\<close> of \<open>RunGuard\<close>.\<close>

definition drop_guard :: "64 word \<Rightarrow> DispatchState \<Rightarrow> DispatchState" where
  "drop_guard epoch st =
     (if run_epoch st = epoch then st\<lparr>running := False, active_by_owner := Map.empty\<rparr> else st)"

definition active_for_owner :: "DispatchState \<Rightarrow> string \<Rightarrow> nat" where
  "active_for_owner st owner = (case active_by_owner st owner of Some n \<Rightarrow> n | None \<Rightarrow> 0)"

definition input_started :: "InputClaim \<Rightarrow> DispatchState \<Rightarrow> DispatchState" where
  "input_started claim st =
     st\<lparr>active_by_owner := (active_by_owner st)
        (cl_owner_identity_id claim \<mapsto> active_for_owner st (cl_owner_identity_id claim) + 1)\<rparr>"

definition input_finished :: "InputClaim option \<Rightarrow> DispatchState \<Rightarrow> DispatchState" where
  "input_finished finished st =
     (case finished of
        None \<Rightarrow> st
      | Some claim \<Rightarrow>
          (case active_by_owner st (cl_owner_identity_id claim) of
             None \<Rightarrow> st
           | Some n \<Rightarrow> st\<lparr>active_by_owner := (active_by_owner st)(cl_owner_identity_id claim \<mapsto> n - 1)\<rparr>))"

text \<open>The loop while there is nothing to do, as long as callers keep waking it: element \<open>k\<close> of the
  schedule is the list of the clients that arrive between the snapshot and the check of
  iteration \<open>k\<close>.  The result is \<^term>\<open>None\<close> when the schedule ends before the loop.\<close>

fun idle_loop :: "sync_client list list \<Rightarrow> DispatchState \<Rightarrow> DispatchState option" where
  "idle_loop [] st = None"
| "idle_loop (arrivals # schedule) st =
     (let (st1, _, generation) = take_snapshot st;
          st2 = fold (\<lambda>c s. fst (wake_client c s)) arrivals st1
      in case try_leave 0 False 0 generation st2 of
           Leave st3 \<Rightarrow> Some st3
         | _ \<Rightarrow> idle_loop schedule st2)"

section \<open>Callers, loops and guards\<close>

text \<open>A loop is about to take its snapshot, works with the generation it saw, or has left and is
  about to drop its guard.  The last fields of the world are for the statements only: how many
  wakes there were, the owners ever woken, those that were part of a snapshot since they were last
  woken, and whether the last loop was torn down before it could leave.\<close>

datatype loop_phase = AtHead | Working "64 word" | Left

record dispatch_world =
  dw_state :: DispatchState
  dw_loops :: "(64 word \<times> loop_phase) list"
  dw_wakes :: nat
  dw_woken :: "string set"
  dw_seen :: "string set"
  dw_crashed :: bool

definition spawned :: "64 word option \<Rightarrow> (64 word \<times> loop_phase) list" where
  "spawned start = (case start of None \<Rightarrow> [] | Some epoch \<Rightarrow> [(epoch, AtHead)])"

definition live_loops :: "dispatch_world \<Rightarrow> (64 word \<times> loop_phase) list" where
  "live_loops w = filter (\<lambda>(_, phase). phase \<noteq> Left) (dw_loops w)"

definition dispatch_init :: dispatch_world where
  "dispatch_init =
     \<lparr>dw_state = dispatch_default, dw_loops = [], dw_wakes = 0, dw_woken = {}, dw_seen = {},
      dw_crashed = False\<rparr>"

inductive dispatch_step :: "dispatch_world \<Rightarrow> dispatch_world \<Rightarrow> bool" where
  wake: "wake_client c (dw_state w) = (st, start) \<Longrightarrow>
    dispatch_step w (w\<lparr>dw_state := st, dw_loops := dw_loops w @ spawned start,
      dw_wakes := dw_wakes w + 1, dw_woken := insert (sc_owner c) (dw_woken w),
      dw_seen := dw_seen w - {sc_owner c}, dw_crashed := False\<rparr>)"
| snapshot: "dw_loops w = ls @ (epoch, AtHead) # ms \<Longrightarrow> take_snapshot (dw_state w) = (st, cs, g) \<Longrightarrow>
    dispatch_step w (w\<lparr>dw_state := st, dw_loops := ls @ (epoch, Working g) # ms,
      dw_seen := dw_seen w \<union> sc_owner ` set cs\<rparr>)"
| start_input: "dispatch_step w (w\<lparr>dw_state := input_started claim (dw_state w)\<rparr>)"
| finish_input: "dispatch_step w (w\<lparr>dw_state := input_finished finished (dw_state w)\<rparr>)"
| go_round: "dw_loops w = ls @ (epoch, Working g) # ms \<Longrightarrow>
    try_leave jobs retained receivers g (dw_state w) \<in> {Again, Wait} \<Longrightarrow>
    dispatch_step w (w\<lparr>dw_loops := ls @ (epoch, AtHead) # ms\<rparr>)"
| leave: "dw_loops w = ls @ (epoch, Working g) # ms \<Longrightarrow>
    try_leave jobs retained receivers g (dw_state w) = Leave st \<Longrightarrow>
    dispatch_step w (w\<lparr>dw_state := st, dw_loops := ls @ (epoch, Left) # ms\<rparr>)"
| unwind: "dw_loops w = ls @ (epoch, Left) # ms \<Longrightarrow>
    dispatch_step w (w\<lparr>dw_state := drop_guard epoch (dw_state w), dw_loops := ls @ ms\<rparr>)"
| crash: "dw_loops w = ls @ (epoch, phase) # ms \<Longrightarrow> phase \<noteq> Left \<Longrightarrow>
    dispatch_step w (w\<lparr>dw_state := drop_guard epoch (dw_state w), dw_loops := ls @ ms,
      dw_crashed := True\<rparr>)"

inductive_cases dispatch_stepE: "dispatch_step w w'"

inductive dispatch_run :: "dispatch_world \<Rightarrow> bool" where
  init: "dispatch_run dispatch_init"
| step: "dispatch_run w \<Longrightarrow> dispatch_step w w' \<Longrightarrow> dispatch_run w'"

section \<open>How an attempt ends\<close>

lemma retry_delay_bounds: "1 \<le> retry_delay a" "retry_delay a \<le> 60"
  by (simp_all add: retry_delay_def)

lemma retry_delay_mono: "a \<le> b \<Longrightarrow> retry_delay a \<le> retry_delay b"
proof -
  assume "a \<le> b"
  then have "nat (max 0 (min a 6)) \<le> nat (max 0 (min b 6))" by simp
  then have "(2::int) ^ nat (max 0 (min a 6)) \<le> 2 ^ nat (max 0 (min b 6))"
    by (intro power_increasing) auto
  then show ?thesis unfolding retry_delay_def by (rule min.mono) simp
qed

lemma retry_at_bounds:
  assumes "i64_min \<le> now" "now + 60 \<le> i64_max"
  shows "now + 1 \<le> saturating_add now (retry_delay a)" "saturating_add now (retry_delay a) \<le> now + 60"
  using assms retry_delay_bounds [of a] by (simp_all add: saturating_add_def i64_clip_def)

lemma released_lease:
  "\<not> exists_row (\<lambda>l. le_attempt_token l = cl_token claim) (t_leases (release_claim_lease claim db))"
  by (auto simp: release_claim_lease_def release_processing_slot_def exists_row_iff set_delete_rows)

lemma release_keeps_inbox [simp]: "t_inbox (release_claim_lease claim db) = t_inbox db"
  by (simp add: release_claim_lease_def release_processing_slot_def)

lemma end_attempt_releases:
  assumes "end_attempt x others claim rc c result db = (db', ups)"
  shows "\<not> exists_row (\<lambda>l. le_attempt_token l = cl_token claim) (t_leases db') \<and> length ups \<le> 1"
  using assms released_lease
  by (auto simp: end_attempt_def Let_def split: sum.splits if_splits)

lemma time_out_updates:
  "time_out claim now db = (db', parked, ups) \<Longrightarrow>
     ups = (if parked then [processing_update claim Retrying ''sync.processing_timeout''] else [])"
  by (auto simp: time_out_def split: prod.splits)


definition rescheduled :: "string \<Rightarrow> int option \<Rightarrow> inbox_row \<Rightarrow> inbox_row" where
  "rescheduled code at r =
     r\<lparr>ib_attempt_token := None, ib_attempt_deadline := None, ib_closed_at := None,
       ib_next_attempt_at := at, ib_processing_error_code := Some code\<rparr>"

text \<open>
  C17. An attempt that fails.  While its claim is live, the input goes back to the queue with the
  code of the failure, at a time between one and sixty seconds away when the failure is transient
  and without a time, waiting for a user or another event, when it is not; the one update it
  announces says the same.  When the claim is no longer live the queue is left as it is, and
  nothing is announced as long as the input is still queued.
\<close>
theorem failed_attempt_goes_back_to_the_queue:
  assumes "end_attempt x (\<lambda>_ d. d) claim now clock (Err e) db = (db', updates)"
    and "i64_min \<le> now" "now + 60 \<le> i64_max"
  shows "if claim_is_live db claim clock
    then (\<exists>at. t_inbox db' = update_rows (\<lambda>r. ib_input_id r = cl_input_id claim)
                  (rescheduled (failure_code e) at) (t_inbox db)
          \<and> (if retryable e
             then (\<exists>t. at = Some t \<and> now + 1 \<le> t \<and> t \<le> now + 60)
                  \<and> updates = [processing_update claim Retrying (failure_code e)]
             else at = None \<and> updates = [processing_update claim Blocked (failure_code e)]))
    else t_inbox db' = t_inbox db
      \<and> (exists_row (\<lambda>r. ib_input_id r = cl_input_id claim) (t_inbox db) \<longrightarrow> updates = [])"
proof -
  let ?at = "retry_at e (cl_attempt_count claim) now"
  have at: "if retryable e then \<exists>t. ?at = Some t \<and> now + 1 \<le> t \<and> t \<le> now + 60 else ?at = None"
    using retry_at_bounds [OF assms(2,3)] by (auto simp: retry_at_def)
  show ?thesis
  proof (cases "claim_is_live db claim clock")
    case True
    then have "t_inbox db' = update_rows (\<lambda>r. ib_input_id r = cl_input_id claim)
        (rescheduled (failure_code e) ?at) (t_inbox db)"
      and "updates = [failure_update claim (failure_code e) ?at False]"
      using assms(1)
      by (auto simp: end_attempt_def Let_def fail_claim_def require_claim_def rescheduled_def [abs_def])
    with at True show ?thesis
      by (auto simp: failure_update_def intro!: exI [of _ ?at] split: if_split_asm)
  next
    case False
    then show ?thesis using assms(1)
      by (auto simp: end_attempt_def Let_def fail_claim_def require_claim_def
          retained_or_completed_def split: if_splits)
  qed
qed

text \<open>An attempt keeps the invariant of the queue, provided everybody else does.\<close>

lemma release_lease_inv: "inbox_inv db \<Longrightarrow> inbox_inv (release_claim_lease claim db)"
  unfolding release_claim_lease_def by (rule free_inv)

lemma end_attempt_inv:
  assumes "\<And>n d. inbox_inv d \<Longrightarrow> inbox_inv (others n d)" and "inbox_inv db"
  shows "inbox_inv (fst (end_attempt x others claim rc c result db))"
  using assms fail_inv
  by (auto simp: end_attempt_def Let_def intro!: release_lease_inv split: sum.split)

lemma run_claim_inv:
  assumes "\<And>n d. inbox_inv d \<Longrightarrow> inbox_inv (others n d)" and "inbox_inv db"
  shows "inbox_inv (fst (run_claim x others clock claim overran result db))"
proof -
  have park: "inbox_inv (fst (time_out claim t d))" if "inbox_inv d" for t d
    using park_inv [OF that, of claim t] by (auto simp: time_out_def split: prod.split)
  have late: "inbox_inv (fst (late_result claim parked t result d))" if "inbox_inv d" for parked t d
    using release_inv [OF that, of claim "t + 2"] that by (auto simp: late_result_def split: prod.split)
  show ?thesis
  proof (cases overran)
    case False
    with assms show ?thesis by (simp add: run_claim_def end_attempt_inv)
  next
    case True
    then show ?thesis using park [of "others 0 db" "clock 0"] late assms
      by (auto simp: run_claim_def split: prod.split dest!: arg_cong [where f = fst] intro!: end_attempt_inv)
  qed
qed

section \<open>The idle loop\<close>

lemma unat_incr64: "unat (w :: 64 word) + 1 < 2 ^ 64 \<Longrightarrow> unat (w + 1) = unat w + 1"
  by (simp add: unat_word_ariths)

lemma wake_client_effect:
  assumes "wake_client c st = (st', start)"
  shows "running st'" "wake_generation st' = wake_generation st + 1"
    "fst ` set (clients st') = insert (sc_owner c) (fst ` set (clients st))"
    "set (clients st') \<subseteq> insert (sc_owner c, c) (set (clients st))"
    "run_epoch st' = (if running st then run_epoch st else run_epoch st + 1)"
    "start = (if running st then None else Some (run_epoch st + 1))"
proof -
  have use: "opt_any P (map_of (clients st) (sc_owner c)) \<Longrightarrow> sc_owner c \<in> fst ` set (clients st)" for P
    by (cases "map_of (clients st) (sc_owner c)") (auto dest!: map_of_SomeD intro: rev_image_eqI)
  show "running st'" "wake_generation st' = wake_generation st + 1"
    "run_epoch st' = (if running st then run_epoch st else run_epoch st + 1)"
    "start = (if running st then None else Some (run_epoch st + 1))"
    using assms by (auto simp: wake_client_def Let_def split: if_splits)
  have "clients st' = (if opt_any (\<lambda>current. newer_client current c) (map_of (clients st) (sc_owner c))
      then clients st else btree_insert (sc_owner c) c (clients st))"
    using assms by (auto simp: wake_client_def Let_def split: if_splits)
  then show "fst ` set (clients st') = insert (sc_owner c) (fst ` set (clients st))"
    using use by (simp add: keys_btree_insert insert_absorb)
  show "set (clients st') \<subseteq> insert (sc_owner c, c) (set (clients st))"
    using assms set_btree_insert [of "sc_owner c" c "clients st"]
    by (auto simp: wake_client_def Let_def split: if_splits)
qed

lemma take_snapshot_effect:
  assumes "take_snapshot st = (st', cs, g)"
  shows "set cs = snd ` set (clients st)" "g = wake_generation st"
    "running st' = running st" "run_epoch st' = run_epoch st"
    "wake_generation st' = wake_generation st" "clients st' = clients st"
  using assms by (simp_all add: take_snapshot_def Let_def split: if_splits) force+

lemma fold_wake_generation:
  "wake_generation (fold (\<lambda>c s. fst (wake_client c s)) cs st) = wake_generation st + of_nat (length cs)"
proof (induction cs arbitrary: st)
  case (Cons c cs)
  have "wake_generation (fst (wake_client c st)) = wake_generation st + 1"
    using wake_client_effect(2) [of c st] by (cases "wake_client c st") simp
  with Cons show ?case by (simp add: algebra_simps)
qed simp

lemma of_nat_64_eq_0: "0 < n \<Longrightarrow> n < 2 ^ 64 \<Longrightarrow> (of_nat n :: 64 word) \<noteq> 0"
  by (simp add: word_of_nat_eq_0_iff nat_dvd_not_less)

lemma idle_loop_busy:
  assumes "\<forall>arrivals\<in>set busy. 0 < length arrivals \<and> length arrivals < 2 ^ 64"
  shows "\<exists>st'. idle_loop (busy @ schedule) st = idle_loop schedule st'"
  using assms
proof (induction busy arbitrary: st)
  case (Cons arrivals busy)
  obtain st1 cs g where s: "take_snapshot st = (st1, cs, g)" by (cases "take_snapshot st") auto
  let ?st2 = "fold (\<lambda>c s. fst (wake_client c s)) arrivals st1"
  have "wake_generation ?st2 = g + of_nat (length arrivals)"
    using take_snapshot_effect(2,5) [OF s] by (simp add: fold_wake_generation)
  moreover have "(of_nat (length arrivals) :: 64 word) \<noteq> 0"
    using Cons.prems by (intro of_nat_64_eq_0) auto
  ultimately have "wake_generation ?st2 \<noteq> g" by simp
  then have "idle_loop ((arrivals # busy) @ schedule) st = idle_loop (busy @ schedule) ?st2"
    by (simp add: s try_leave_def)
  with Cons show ?case by simp
qed auto

lemma idle_loop_quiet:
  "\<exists>st'. idle_loop ([] # schedule) st = Some st' \<and> \<not> running st' \<and> clients st' = []"
  by (cases "take_snapshot st") (auto dest: take_snapshot_effect(2,5) simp: try_leave_def)

text \<open>
  C13. A dispatcher with no job, no queued work and nobody listening ends: while callers wake it
  between its snapshot and its check it goes round once more, so that no client is dropped unseen,
  and in the first iteration without such a call it stops, with no client left behind.
\<close>
theorem idle_dispatcher_stops:
  assumes "\<forall>arrivals\<in>set busy. 0 < length arrivals \<and> length arrivals < 2 ^ 64"
  shows "idle_loop busy st = None
    \<and> (\<exists>st'. idle_loop (busy @ [] # schedule) st = Some st' \<and> \<not> running st' \<and> clients st' = [])"
proof
  obtain st' where "idle_loop (busy @ []) st = idle_loop [] st'"
    using idle_loop_busy [OF assms] by blast
  then show "idle_loop busy st = None" by simp
  obtain st1 where "idle_loop (busy @ [] # schedule) st = idle_loop ([] # schedule) st1"
    using idle_loop_busy [OF assms] by blast
  then show "\<exists>st'. idle_loop (busy @ [] # schedule) st = Some st' \<and> \<not> running st' \<and> clients st' = []"
    using idle_loop_quiet by simp
qed

section \<open>No lost wake\<close>

definition client_owners :: "DispatchState \<Rightarrow> string set" where
  "client_owners st = fst ` set (clients st)"

text \<open>What holds of one loop: a loop that has not left carries the current epoch, and when no wake
  came since its snapshot every client was part of a snapshot.\<close>

definition loop_ok :: "dispatch_world \<Rightarrow> 64 word \<Rightarrow> loop_phase \<Rightarrow> bool" where
  "loop_ok w epoch phase \<longleftrightarrow>
     unat epoch \<le> unat (run_epoch (dw_state w))
   \<and> (phase \<noteq> Left \<longrightarrow> epoch = run_epoch (dw_state w) \<and> running (dw_state w))
   \<and> (case phase of
        Working g \<Rightarrow> unat g \<le> dw_wakes w
          \<and> (unat g = dw_wakes w \<longrightarrow> client_owners (dw_state w) \<subseteq> dw_seen w)
      | _ \<Rightarrow> True)"

definition loops_inv :: "dispatch_world \<Rightarrow> bool" where
  "loops_inv w \<longleftrightarrow>
     unat (wake_generation (dw_state w)) = dw_wakes w
   \<and> unat (run_epoch (dw_state w)) \<le> dw_wakes w
   \<and> distinct (map fst (dw_loops w))
   \<and> (\<forall>epoch phase. (epoch, phase) \<in> set (dw_loops w) \<longrightarrow> loop_ok w epoch phase)
   \<and> (running (dw_state w) \<longrightarrow>
        (\<exists>phase. (run_epoch (dw_state w), phase) \<in> set (dw_loops w) \<and> phase \<noteq> Left))"

definition clients_inv :: "dispatch_world \<Rightarrow> bool" where
  "clients_inv w \<longleftrightarrow>
     (\<forall>k c. (k, c) \<in> set (clients (dw_state w)) \<longrightarrow> sc_owner c = k)
   \<and> dw_woken w \<subseteq> dw_seen w \<union> client_owners (dw_state w)
   \<and> (clients (dw_state w) \<noteq> [] \<longrightarrow> running (dw_state w) \<or> dw_crashed w)"

definition dispatch_inv :: "dispatch_world \<Rightarrow> bool" where
  "dispatch_inv w \<longleftrightarrow> loops_inv w \<and> clients_inv w"

lemma dispatch_inv_init: "dispatch_inv dispatch_init"
  by (simp add: dispatch_inv_def loops_inv_def clients_inv_def dispatch_init_def dispatch_default_def
      client_owners_def)

lemma wake_step_inv:
  assumes inv: "dispatch_inv w" and wake: "wake_client c (dw_state w) = (st, start)"
    and few: "dw_wakes w + 1 < 2 ^ 64"
  shows "dispatch_inv (w\<lparr>dw_state := st, dw_loops := dw_loops w @ spawned start,
      dw_wakes := dw_wakes w + 1, dw_woken := insert (sc_owner c) (dw_woken w),
      dw_seen := dw_seen w - {sc_owner c}, dw_crashed := False\<rparr>)" (is "dispatch_inv ?w")
proof -
  note e = wake_client_effect [OF wake]
  have l: "loops_inv w" and c: "clients_inv w" using inv by (simp_all add: dispatch_inv_def)
  have gen: "unat (wake_generation st) = dw_wakes w + 1"
    using l few by (simp add: loops_inv_def e(2) unat_incr64)
  have epoch: "unat (run_epoch st) = unat (run_epoch (dw_state w)) + (if running (dw_state w) then 0 else 1)"
    using l few by (auto simp: loops_inv_def e(5) unat_incr64)
  have fresh: "run_epoch (dw_state w) + 1 \<notin> fst ` set (dw_loops w)" if "\<not> running (dw_state w)"
  proof
    assume "run_epoch (dw_state w) + 1 \<in> fst ` set (dw_loops w)"
    then obtain ph where "(run_epoch (dw_state w) + 1, ph) \<in> set (dw_loops w)" by auto
    then have "loop_ok w (run_epoch (dw_state w) + 1) ph" using l by (simp add: loops_inv_def)
    with epoch that show False by (simp add: loop_ok_def e(5))
  qed
  have "loop_ok ?w ep ph" if "(ep, ph) \<in> set (dw_loops ?w)" for ep ph
  proof (cases "(ep, ph) \<in> set (dw_loops w)")
    case True
    then have "loop_ok w ep ph" using l by (simp add: loops_inv_def)
    with epoch show ?thesis by (auto simp: loop_ok_def e(1,5) split: loop_phase.splits)
  next
    case False
    with that have "\<not> running (dw_state w)" "ep = run_epoch (dw_state w) + 1" "ph = AtHead"
      by (auto simp: spawned_def e(6) split: if_splits)
    with epoch show ?thesis by (simp add: loop_ok_def e(1,5))
  qed
  moreover have "distinct (map fst (dw_loops ?w))"
    using l fresh by (auto simp: loops_inv_def spawned_def e(6))
  moreover have "\<exists>ph. (run_epoch st, ph) \<in> set (dw_loops ?w) \<and> ph \<noteq> Left"
    using l by (cases "running (dw_state w)") (auto simp: loops_inv_def spawned_def e(5,6))
  ultimately have "loops_inv ?w"
    using gen epoch l by (simp add: loops_inv_def)
  moreover have "clients_inv ?w"
  proof -
    have "sc_owner c' = k" if "(k, c') \<in> set (clients st)" for k c'
      using c e(4) that by (auto simp: clients_inv_def)
    moreover have "client_owners st = insert (sc_owner c) (client_owners (dw_state w))"
      by (simp add: client_owners_def e(3))
    ultimately show ?thesis using c e(1) by (auto simp: clients_inv_def)
  qed
  ultimately show ?thesis by (simp add: dispatch_inv_def)
qed

text \<open>The phase of one loop changes.\<close>

lemma loops_inv_phase:
  assumes "loops_inv w" "dw_loops w = ls @ (epoch, p) # ms" "p \<noteq> Left" "q \<noteq> Left"
    and "running st = running (dw_state w)" "run_epoch st = run_epoch (dw_state w)"
    and "wake_generation st = wake_generation (dw_state w)" "clients st = clients (dw_state w)"
    and "dw_seen w \<subseteq> seen"
    and "\<And>g. q = Working g \<Longrightarrow> g = wake_generation st \<and> client_owners st \<subseteq> seen"
  shows "loops_inv (w\<lparr>dw_state := st, dw_loops := ls @ (epoch, q) # ms, dw_seen := seen\<rparr>)"
    (is "loops_inv ?w")
proof -
  have ok: "loop_ok w e p'" if "(e, p') \<in> set (dw_loops w)" for e p'
    using assms(1) that by (simp add: loops_inv_def)
  have "loop_ok ?w e p'" if "(e, p') \<in> set ls \<union> set ms" for e p'
    using ok [of e p'] that assms(2,5,6,8,9)
    by (auto simp: loop_ok_def client_owners_def split: loop_phase.splits)
  moreover have "loop_ok ?w epoch q"
    using ok [of epoch p] assms by (auto simp: loop_ok_def loops_inv_def split: loop_phase.splits)
  moreover have "running (dw_state w)" "epoch = run_epoch (dw_state w)"
    using ok [of epoch p] assms(2,3) by (simp_all add: loop_ok_def)
  ultimately show ?thesis
    using assms(1,2,4,5,6,7) by (auto simp: loops_inv_def)
qed

text \<open>A loop stops being live: it leaves, or it is torn down.\<close>

lemma live_epoch:
  assumes "loops_inv w" "dw_loops w = ls @ (epoch, p) # ms" "p \<noteq> Left"
  shows "epoch = run_epoch (dw_state w)" "running (dw_state w)"
    and "(e, q) \<in> set ls \<union> set ms \<Longrightarrow> q = Left"
proof -
  have ok: "loop_ok w e q" if "(e, q) \<in> set (dw_loops w)" for e q
    using assms(1) that by (simp add: loops_inv_def)
  show e: "epoch = run_epoch (dw_state w)" "running (dw_state w)"
    using ok [of epoch p] assms(2,3) by (simp_all add: loop_ok_def)
  assume m: "(e, q) \<in> set ls \<union> set ms"
  then have "e \<noteq> epoch" using assms(1,2) by (auto simp: loops_inv_def intro: rev_image_eqI)
  then show "q = Left" using ok [of e q] m assms(2) e by (auto simp: loop_ok_def)
qed

lemma loops_inv_stop:
  assumes inv: "loops_inv w" and w: "dw_loops w = ls @ (epoch, p) # ms" "p \<noteq> Left"
    and st: "\<not> running st" "run_epoch st = run_epoch (dw_state w)"
      "wake_generation st = wake_generation (dw_state w)"
    and ends: "ends \<in> {[], [(epoch, Left)]}"
  shows "loops_inv (w\<lparr>dw_state := st, dw_loops := ls @ ends @ ms, dw_crashed := crashed\<rparr>)"
    (is "loops_inv ?w")
proof -
  note e = live_epoch [OF inv w]
  have "loop_ok ?w ep q" if "(ep, q) \<in> set (ls @ ends @ ms)" for ep q
  proof (cases "(ep, q) \<in> set ls \<union> set ms")
    case True
    then have "loop_ok w ep q" "q = Left" using inv w(1) e(3) by (auto simp: loops_inv_def)
    then show ?thesis using st by (simp add: loop_ok_def)
  next
    case False
    then have "ep = epoch" "q = Left" using that ends by auto
    then show ?thesis using st e(1) by (simp add: loop_ok_def)
  qed
  moreover have "distinct (map fst (ls @ ends @ ms))"
    using inv w(1) ends unfolding loops_inv_def by (elim conjE insertE emptyE) simp_all
  ultimately show ?thesis using inv st by (simp add: loops_inv_def)
qed

lemma unwind_step_inv:
  assumes inv: "dispatch_inv w" and w: "dw_loops w = ls @ (epoch, Left) # ms"
  shows "dispatch_inv (w\<lparr>dw_state := drop_guard epoch (dw_state w), dw_loops := ls @ ms\<rparr>)"
    (is "dispatch_inv ?w")
proof -
  have l: "loops_inv w" and c: "clients_inv w" using inv by (simp_all add: dispatch_inv_def)
  have same: "running (drop_guard epoch (dw_state w)) = running (dw_state w)"
    "run_epoch (drop_guard epoch (dw_state w)) = run_epoch (dw_state w)"
    "wake_generation (drop_guard epoch (dw_state w)) = wake_generation (dw_state w)"
    "clients (drop_guard epoch (dw_state w)) = clients (dw_state w)"
  proof -
    have "\<not> running (dw_state w)" if ep: "epoch = run_epoch (dw_state w)"
    proof
      assume "running (dw_state w)"
      then obtain p where p: "(epoch, p) \<in> set (dw_loops w)" "p \<noteq> Left"
        using l ep by (auto simp: loops_inv_def)
      moreover have "(epoch, Left) \<in> set (dw_loops w)" using w by simp
      ultimately show False
        using l eq_key_imp_eq_value [of "dw_loops w" epoch p Left] by (simp add: loops_inv_def)
    qed
    then show "running (drop_guard epoch (dw_state w)) = running (dw_state w)"
      by (auto simp: drop_guard_def)
  qed (simp_all add: drop_guard_def)
  have "loop_ok ?w e p" if "(e, p) \<in> set (ls @ ms)" for e p
  proof -
    have "loop_ok w e p" using l w that by (auto simp: loops_inv_def)
    then show ?thesis by (simp add: loop_ok_def same client_owners_def split: loop_phase.splits)
  qed
  moreover have "\<exists>p. (run_epoch (dw_state w), p) \<in> set (ls @ ms) \<and> p \<noteq> Left"
    if "running (dw_state w)"
    using l w that by (auto simp: loops_inv_def)
  ultimately have "loops_inv ?w" using l w by (simp add: loops_inv_def same)
  moreover have "clients_inv ?w" using c by (simp add: clients_inv_def same client_owners_def)
  ultimately show ?thesis by (simp add: dispatch_inv_def)
qed

lemma active_count_inv:
  assumes "dispatch_inv w" "running st = running (dw_state w)" "run_epoch st = run_epoch (dw_state w)"
    "wake_generation st = wake_generation (dw_state w)" "clients st = clients (dw_state w)"
  shows "dispatch_inv (w\<lparr>dw_state := st\<rparr>)"
proof -
  have "loop_ok (w\<lparr>dw_state := st\<rparr>) e p = loop_ok w e p" for e p
    using assms by (simp add: loop_ok_def client_owners_def split: loop_phase.split)
  with assms show ?thesis
    by (simp add: dispatch_inv_def loops_inv_def clients_inv_def client_owners_def)
qed

lemma dispatch_step_inv:
  assumes "dispatch_step w w'" and "dispatch_inv w" and "dw_wakes w' < 2 ^ 64"
  shows "dispatch_inv w'"
  using assms
proof (induction rule: dispatch_step.induct)
  case (wake c w st start)
  then show ?case by (intro wake_step_inv) auto
next
  case (snapshot w ls epoch ms st cs g)
  note e = take_snapshot_effect [OF snapshot(2)]
  have l: "loops_inv w" and c: "clients_inv w" using snapshot by (simp_all add: dispatch_inv_def)
  have owners: "client_owners (dw_state w) \<subseteq> sc_owner ` set cs"
    using c by (force simp: clients_inv_def client_owners_def e(1))
  have "loops_inv (w\<lparr>dw_state := st, dw_loops := ls @ (epoch, Working g) # ms,
      dw_seen := dw_seen w \<union> sc_owner ` set cs\<rparr>)"
    using owners e by (intro loops_inv_phase [OF l snapshot(1)]) (auto simp: client_owners_def)
  moreover have "clients_inv (w\<lparr>dw_state := st, dw_loops := ls @ (epoch, Working g) # ms,
      dw_seen := dw_seen w \<union> sc_owner ` set cs\<rparr>)"
    using c e by (auto simp: clients_inv_def client_owners_def)
  ultimately show ?case by (simp add: dispatch_inv_def)
next
  case (start_input w claim)
  then show ?case by (intro active_count_inv) (simp_all add: input_started_def)
next
  case (finish_input w finished)
  then show ?case
    by (intro active_count_inv) (simp_all add: input_finished_def split: option.splits)
next
  case (go_round w ls epoch g ms jobs retained receivers)
  have l: "loops_inv w" and c: "clients_inv w" using go_round by (simp_all add: dispatch_inv_def)
  have "loops_inv (w\<lparr>dw_state := dw_state w, dw_loops := ls @ (epoch, AtHead) # ms,
      dw_seen := dw_seen w\<rparr>)"
    by (intro loops_inv_phase [OF l go_round(1)]) auto
  with c show ?case by (simp add: dispatch_inv_def clients_inv_def)
next
  case (leave w ls epoch g ms jobs retained receivers st)
  have l: "loops_inv w" and c: "clients_inv w" using leave by (simp_all add: dispatch_inv_def)
  have g: "wake_generation (dw_state w) = g" and st: "st = (dw_state w)\<lparr>running := False, clients := []\<rparr>"
    using leave(2) by (simp_all add: try_leave_def split: if_splits)
  have "loop_ok w epoch (Working g)" using l leave(1) by (simp add: loops_inv_def)
  then have "client_owners (dw_state w) \<subseteq> dw_seen w" using l g by (simp add: loop_ok_def loops_inv_def)
  then have "clients_inv (w\<lparr>dw_state := st, dw_loops := ls @ (epoch, Left) # ms\<rparr>)"
    using c unfolding clients_inv_def by (simp add: client_owners_def st Un_absorb2)
  moreover have "loops_inv (w\<lparr>dw_state := st, dw_loops := ls @ [(epoch, Left)] @ ms, dw_crashed := dw_crashed w\<rparr>)"
    by (intro loops_inv_stop [OF l leave(1)]) (simp_all add: st)
  ultimately show ?case by (simp add: dispatch_inv_def)
next
  case (unwind w ls epoch ms)
  then show ?case by (intro unwind_step_inv) auto
next
  case (crash w ls epoch phase ms)
  have l: "loops_inv w" and c: "clients_inv w" using crash by (simp_all add: dispatch_inv_def)
  have "loops_inv (w\<lparr>dw_state := drop_guard epoch (dw_state w), dw_loops := ls @ [] @ ms, dw_crashed := True\<rparr>)"
    using live_epoch [OF l crash(1,2)]
    by (intro loops_inv_stop [OF l crash(1,2)]) (simp_all add: drop_guard_def)
  with c show ?case by (simp add: dispatch_inv_def clients_inv_def client_owners_def drop_guard_def)
qed

lemma dispatch_step_wakes: "dispatch_step w w' \<Longrightarrow> dw_wakes w \<le> dw_wakes w'"
  by (induction rule: dispatch_step.induct) auto

lemma dispatch_run_inv: "dispatch_run w \<Longrightarrow> dw_wakes w < 2 ^ 64 \<Longrightarrow> dispatch_inv w"
proof (induction rule: dispatch_run.induct)
  case (step w w')
  then show ?case using dispatch_step_inv dispatch_step_wakes by fastforce
qed (simp add: dispatch_inv_init)

lemma one_live_loop: "loops_inv w \<Longrightarrow> length (live_loops w) \<le> 1"
proof (rule ccontr)
  assume inv: "loops_inv w" and many: "\<not> length (live_loops w) \<le> 1"
  have d: "distinct (map fst (live_loops w))"
    using inv by (auto simp: loops_inv_def live_loops_def distinct_map_filter)
  have "fst l = run_epoch (dw_state w)" if "l \<in> set (live_loops w)" for l
    using inv that by (cases l) (auto simp: loops_inv_def loop_ok_def live_loops_def)
  moreover obtain l m ls where "live_loops w = l # m # ls"
    using many by (cases "live_loops w"; cases "tl (live_loops w)") auto
  ultimately show False using d by simp
qed


section \<open>Concrete values for the witnesses\<close>

definition sample_client :: "string \<Rightarrow> sync_client" where
  "sample_client owner = \<lparr>sc_owner = owner, sc_context = Err AuthRequired\<rparr>"


theorem failed_attempt_goes_back_to_the_queue_witness:
  "claim_is_live sample_claimed_db (sample_claim ''t1'') 1030
   \<and> snd (end_attempt sample_x (\<lambda>_ d. d) (sample_claim ''t1'') 1030 1030 (Err AuthRequired)
        sample_claimed_db)
     = [processing_update (sample_claim ''t1'') Retrying ''sync.processing_auth_required'']"
proof -
  have live: "claim_is_live sample_claimed_db (sample_claim ''t1'') 1030" by code_simp
  have r: "retryable AuthRequired" by (simp add: retryable_def)
  show ?thesis
    using failed_attempt_goes_back_to_the_queue [where x = sample_x
        and claim = "sample_claim ''t1''" and now = 1030 and clock = 1030 and e = AuthRequired
        and db = sample_claimed_db, OF surjective_pairing]
    by (auto simp: live r i64_min_def i64_max_def)
qed

theorem idle_dispatcher_stops_witness:
  "idle_loop [[sample_client ''a''], [sample_client ''b'']] dispatch_default = None
   \<and> (\<exists>st. idle_loop [[sample_client ''a''], [sample_client ''b''], []] dispatch_default = Some st
        \<and> \<not> running st \<and> clients st = [])"
  using idle_dispatcher_stops [of "[[sample_client ''a''], [sample_client ''b'']]" dispatch_default "[]"]
  by simp

definition sample_world :: dispatch_world where
  "sample_world = dispatch_init\<lparr>dw_state := fst (wake_client (sample_client ''a'') dispatch_default),
     dw_loops := [(1, AtHead)], dw_wakes := 1, dw_woken := {''a''}\<rparr>"

lemma sample_world_run: "dispatch_run sample_world"
proof -
  have "dispatch_step dispatch_init sample_world"
    using dispatch_step.wake [of "sample_client ''a''" dispatch_init
        "fst (wake_client (sample_client ''a'') dispatch_default)" "Some 1"]
    by (simp add: sample_world_def dispatch_init_def dispatch_default_def sample_client_def
        wake_client_def spawned_def)
  then show ?thesis using dispatch_run.init dispatch_run.step by blast
qed


end
