(* ===== verification/Realtime.thy ===== *)
theory Realtime
  imports Decimal
begin

text \<open>
  The pure parts of the realtime listener under \<open>internal/realtime\<close>: the back-off of the session
  loop (\<open>reconnect.rs\<close>), its decisions (\<open>session_loop.rs\<close>, \<open>heartbeat.rs\<close>, \<open>shutdown.rs\<close>) and the
  dispatch of incoming frames to pending requests and to the bounded queue of notifications
  (\<open>dispatch.rs\<close>, \<open>frame.rs\<close>, and the queue of \<open>notification.rs\<close>).

  A \<open>Duration\<close> is its number of seconds; every duration of this code is a whole number of them.
\<close>

section \<open>Reconnecting\<close>

definition SESSION_RECONNECT_BASE_DELAY :: nat where "SESSION_RECONNECT_BASE_DELAY = 1"
definition SESSION_RECONNECT_MAX_DELAY :: nat where "SESSION_RECONNECT_MAX_DELAY = 30"

datatype ContextSleep = Completed | SleepCancelled

datatype SessionLoopRetryPhase = ConnectFailure | ConsumeFailure

datatype SessionLoopRetryDecision =
    Retry SessionLoopRetryPhase nat nat
  | ExitAfterCancelledSleep SessionLoopRetryPhase nat nat

datatype ConsumeFinishedDecision =
    ExitAfterSessionCancelled nat
  | Sleep SessionLoopRetryDecision

record SessionLoopBackoff =
  next_delay :: nat

definition backoff_new :: SessionLoopBackoff where
  "backoff_new = \<lparr>next_delay = SESSION_RECONNECT_BASE_DELAY\<rparr>"

text \<open>\<open>Duration::saturating_mul\<close> stays at the largest number of seconds.\<close>

definition capped_double_delay :: "nat \<Rightarrow> nat" where
  "capped_double_delay delay =
     (let doubled = min (delay * 2) (2 ^ 64 - 1)
      in if doubled > SESSION_RECONNECT_MAX_DELAY then SESSION_RECONNECT_MAX_DELAY else doubled)"

definition connected :: "SessionLoopBackoff \<Rightarrow> SessionLoopBackoff \<times> nat" where
  "connected b =
     (let b1 = b\<lparr>next_delay := SESSION_RECONNECT_BASE_DELAY\<rparr> in (b1, next_delay b1))"

definition retry_after_failure ::
  "SessionLoopRetryPhase \<Rightarrow> ContextSleep \<Rightarrow> SessionLoopBackoff
     \<Rightarrow> SessionLoopBackoff \<times> SessionLoopRetryDecision" where
  "retry_after_failure phase sleep b =
     (let sleep_delay = next_delay b
      in case sleep of
           Completed \<Rightarrow>
             (let b1 = b\<lparr>next_delay := capped_double_delay (next_delay b)\<rparr>
              in (b1, Retry phase sleep_delay (next_delay b1)))
         | SleepCancelled \<Rightarrow> (b, ExitAfterCancelledSleep phase sleep_delay (next_delay b)))"

definition connect_failed ::
  "ContextSleep \<Rightarrow> SessionLoopBackoff \<Rightarrow> SessionLoopBackoff \<times> SessionLoopRetryDecision" where
  "connect_failed = retry_after_failure ConnectFailure"

definition consume_finished ::
  "bool \<Rightarrow> ContextSleep \<Rightarrow> SessionLoopBackoff \<Rightarrow> SessionLoopBackoff \<times> ConsumeFinishedDecision" where
  "consume_finished session_cancelled sleep b =
     (if session_cancelled then (b, ExitAfterSessionCancelled (next_delay b))
      else let (b1, decision) = retry_after_failure ConsumeFailure sleep b in (b1, Sleep decision))"

section \<open>Decisions of the session loop\<close>

definition SECURE_PREKEY_RETRY_DELAY :: nat where "SECURE_PREKEY_RETRY_DELAY = 1"

datatype SessionLoopStartDecision = Connect | CloseCurrentClientAndExit

definition session_loop_start_decision :: "bool \<Rightarrow> SessionLoopStartDecision" where
  "session_loop_start_decision session_cancelled =
     (if session_cancelled then CloseCurrentClientAndExit else Connect)"

record InitialSessionSignal =
  signaled :: bool

definition signal :: "InitialSessionSignal \<Rightarrow> InitialSessionSignal \<times> bool" where
  "signal s = (if signaled s then (s, False) else (s\<lparr>signaled := True\<rparr>, True))"

datatype SecurePrekeyRetryDecision = Finished | RetryPrekey string nat

fun join_str :: "string \<Rightarrow> string list \<Rightarrow> string" where
  "join_str sep [] = []"
| "join_str sep [s] = s"
| "join_str sep (s # t # ss) = s @ sep @ join_str sep (t # ss)"

definition secure_prekey_retry_decision :: "string \<Rightarrow> string list \<Rightarrow> SecurePrekeyRetryDecision" where
  "secure_prekey_retry_decision identity_name warnings =
     (if warnings = [] then Finished
      else RetryPrekey
        (''listener secure prekey publish retry identity='' @ identity_name @ '' warnings=''
           @ join_str ''; '' warnings)
        SECURE_PREKEY_RETRY_DELAY)"

datatype RealtimeShutdownDecision = ShutdownContinue | ShutdownExit

definition shutdown_decision :: "bool \<Rightarrow> RealtimeShutdownDecision" where
  "shutdown_decision shutdown_requested =
     (if shutdown_requested then ShutdownExit else ShutdownContinue)"

definition SESSION_PING_TIMEOUT :: nat where "SESSION_PING_TIMEOUT = 15"

datatype NotificationPingOutcome = PingOk | PingError string

datatype ConsumeNotificationsEvent =
    ContextDone string
  | PingTick NotificationPingOutcome
  | Notification json
  | NotificationsClosed "string option"

datatype ConsumeNotificationsAction = StartPing nat | CancelPing | HandleNotification json

datatype ConsumeNotificationsDecision = ConsumeContinue | ConsumeExit string

record ConsumeNotificationsStep =
  actions :: "ConsumeNotificationsAction list"
  decision :: ConsumeNotificationsDecision

definition consume_ping_tick :: "NotificationPingOutcome \<Rightarrow> ConsumeNotificationsStep" where
  "consume_ping_tick outcome =
     \<lparr>actions = [StartPing SESSION_PING_TIMEOUT] @ [CancelPing],
      decision = (case outcome of
          PingOk \<Rightarrow> ConsumeContinue
        | PingError e \<Rightarrow> ConsumeExit (''websocket ping failed: '' @ e))\<rparr>"

fun consume_notifications_step :: "ConsumeNotificationsEvent \<Rightarrow> ConsumeNotificationsStep" where
  "consume_notifications_step (ContextDone e) = \<lparr>actions = [], decision = ConsumeExit e\<rparr>"
| "consume_notifications_step (PingTick outcome) = consume_ping_tick outcome"
| "consume_notifications_step (Notification n) =
     \<lparr>actions = [HandleNotification n], decision = ConsumeContinue\<rparr>"
| "consume_notifications_step (NotificationsClosed reader_error) =
     \<lparr>actions = [], decision = ConsumeExit
        (case reader_error of Some e \<Rightarrow> e | None \<Rightarrow> ''websocket notification loop closed'')\<rparr>"

section \<open>Frames\<close>

type_synonym frame = "(string \<times> json) list"

datatype IncomingWsMessage = Response string | IncomingNotification

text \<open>\<open>format!("{value:.0}")\<close> of a finite \<open>f64\<close>: the nearest integer, ties to even, with the sign
  bit.  A number of \<open>serde_json\<close> is always finite.\<close>

definition round_half_even :: "nat \<Rightarrow> nat \<Rightarrow> nat" where
  "round_half_even n d =
     (let q = n div d; r = n mod d
      in if 2 * r < d \<or> (2 * r = d \<and> even q) then q else q + 1)"

definition f64_magnitude :: "64 word \<Rightarrow> nat" where
  "f64_magnitude bits =
     (let fraction = unat bits mod 2 ^ 52;
          exponent = (unat bits div 2 ^ 52) mod 2 ^ 11;
          mantissa = (if exponent = 0 then fraction else 2 ^ 52 + fraction);
          e = (if exponent = 0 then 1 else exponent)
      in if e \<ge> 1075 then mantissa * 2 ^ (e - 1075)
         else round_half_even mantissa (2 ^ (1075 - e)))"

definition format_f64 :: "64 word \<Rightarrow> string" where
  "format_f64 bits =
     (if unat bits \<ge> 2 ^ 63 then ''-'' else []) @ show_nat (f64_magnitude bits)"

definition format_i64 :: "int \<Rightarrow> string" where
  "format_i64 i = (if i < 0 then ''-'' @ show_nat (nat (- i)) else show_nat (nat i))"

fun request_id_from_value :: "json \<Rightarrow> string" where
  "request_id_from_value (JString value) = value"
| "request_id_from_value (JNumber (PosInt n)) = show_nat (unat n)"
| "request_id_from_value (JNumber (NegInt i)) = format_i64 i"
| "request_id_from_value (JNumber (Float bits)) = format_f64 bits"
| "request_id_from_value _ = []"

text \<open>\<open>i64::wrapping_add\<close>.\<close>

definition wrapping_incr :: "int \<Rightarrow> int" where
  "wrapping_incr i = (if i = i64_max then i64_min else i + 1)"

definition next_ws_rpc_request_id :: "int \<Rightarrow> int \<times> string" where
  "next_ws_rpc_request_id next_id =
     (let i = wrapping_incr next_id in (i, ''req-'' @ format_i64 i))"

text \<open>The members of an object in the order of their keys.\<close>

definition build_ws_rpc_request :: "string \<Rightarrow> string \<Rightarrow> frame option \<Rightarrow> frame" where
  "build_ws_rpc_request request_id meth params =
     [(''id'', JString request_id), (''jsonrpc'', JString ''2.0''), (''method'', JString meth)]
     @ (case params of None \<Rightarrow> [] | Some ps \<Rightarrow> [(''params'', JObject ps)])"

definition pending_failure_response :: "string \<Rightarrow> string \<Rightarrow> frame" where
  "pending_failure_response request_id e =
     [(''error'', JObject [(''message'', JString e)]), (''id'', JString request_id)]"

definition classify_incoming_message :: "frame \<Rightarrow> IncomingWsMessage" where
  "classify_incoming_message message =
     (case map_of message ''id'' of
        Some i \<Rightarrow> Response (request_id_from_value i)
      | None \<Rightarrow> IncomingNotification)"

section \<open>The queue of notifications\<close>

definition LISTENER_WS_NOTIFICATION_QUEUE_CAPACITY :: nat where
  "LISTENER_WS_NOTIFICATION_QUEUE_CAPACITY = 128"

record ListenerWsNotificationQueue =
  notifications :: "frame list"
  capacity :: nat

definition queue_with_capacity :: "nat \<Rightarrow> ListenerWsNotificationQueue" where
  "queue_with_capacity cap = \<lparr>notifications = [], capacity = cap\<rparr>"

definition queue_push :: "frame \<Rightarrow> ListenerWsNotificationQueue \<Rightarrow> ListenerWsNotificationQueue \<times> bool" where
  "queue_push n q =
     (if length (notifications q) \<ge> capacity q then (q, False)
      else (q\<lparr>notifications := notifications q @ [n]\<rparr>, True))"

definition queue_pop :: "ListenerWsNotificationQueue \<Rightarrow> ListenerWsNotificationQueue \<times> frame option" where
  "queue_pop q =
     (case notifications q of
        [] \<Rightarrow> (q, None)
      | n # ns \<Rightarrow> (q\<lparr>notifications := ns\<rparr>, Some n))"

section \<open>Pending requests\<close>

datatype ListenerWsDispatchOutcome =
    RoutedResponse string | DroppedResponse string | QueuedNotification | DroppedNotification

record ListenerWsPendingDispatch =
  pending :: "(string \<times> frame list) list"
  queue :: ListenerWsNotificationQueue

definition with_notification_capacity :: "nat \<Rightarrow> ListenerWsPendingDispatch" where
  "with_notification_capacity cap = \<lparr>pending = [], queue = queue_with_capacity cap\<rparr>"

definition register_pending ::
  "string \<Rightarrow> ListenerWsPendingDispatch \<Rightarrow> ListenerWsPendingDispatch \<times> bool" where
  "register_pending request_id d =
     (d\<lparr>pending := btree_insert request_id [] (pending d)\<rparr>, map_of (pending d) request_id = None)"

definition prepare_ws_rpc_request ::
  "int \<Rightarrow> string \<Rightarrow> frame option \<Rightarrow> ListenerWsPendingDispatch
     \<Rightarrow> ListenerWsPendingDispatch \<times> int \<times> frame" where
  "prepare_ws_rpc_request next_id meth params d =
     (let (next_id, request_id) = next_ws_rpc_request_id next_id;
          d1 = fst (register_pending request_id d)
      in (d1, next_id, build_ws_rpc_request request_id meth params))"

definition remove_pending ::
  "string \<Rightarrow> ListenerWsPendingDispatch \<Rightarrow> ListenerWsPendingDispatch \<times> frame list option" where
  "remove_pending request_id d =
     (d\<lparr>pending := filter (\<lambda>(i, _). i \<noteq> request_id) (pending d)\<rparr>, map_of (pending d) request_id)"

definition take_pending_response ::
  "string \<Rightarrow> ListenerWsPendingDispatch \<Rightarrow> ListenerWsPendingDispatch \<times> frame option" where
  "take_pending_response request_id d =
     (case map_of (pending d) request_id of
        Some (m # ms) \<Rightarrow> (d\<lparr>pending := btree_modify request_id tl (pending d)\<rparr>, Some m)
      | _ \<Rightarrow> (d, None))"

definition queue_notification ::
  "frame \<Rightarrow> ListenerWsPendingDispatch \<Rightarrow> ListenerWsPendingDispatch \<times> ListenerWsDispatchOutcome" where
  "queue_notification n d =
     (let (q, pushed) = queue_push n (queue d)
      in (d\<lparr>queue := q\<rparr>, if \<not> pushed then DroppedNotification else QueuedNotification))"

definition route_incoming_message ::
  "frame \<Rightarrow> ListenerWsPendingDispatch \<Rightarrow> ListenerWsPendingDispatch \<times> ListenerWsDispatchOutcome" where
  "route_incoming_message message d =
     (case classify_incoming_message message of
        Response request_id \<Rightarrow>
          (case map_of (pending d) request_id of
             Some _ \<Rightarrow>
               (d\<lparr>pending := btree_modify request_id (\<lambda>ms. ms @ [message]) (pending d)\<rparr>,
                RoutedResponse request_id)
           | None \<Rightarrow> (d, DroppedResponse request_id))
      | IncomingNotification \<Rightarrow> queue_notification message d)"

definition fail_pending_requests ::
  "string \<Rightarrow> ListenerWsPendingDispatch \<Rightarrow> ListenerWsPendingDispatch \<times> string list" where
  "fail_pending_requests e d =
     (let request_ids = map fst (pending d);
          fail = (\<lambda>i. btree_modify i (\<lambda>ms. ms @ [pending_failure_response i e]))
      in (d\<lparr>pending := fold fail request_ids (pending d)\<rparr>, request_ids))"

definition pop_notification ::
  "ListenerWsPendingDispatch \<Rightarrow> ListenerWsPendingDispatch \<times> frame option" where
  "pop_notification d =
     (let (q, n) = queue_pop (queue d) in (d\<lparr>queue := q\<rparr>, n))"

section \<open>The delay before a reconnect\<close>

lemma capped_double_delay_le:
  "d \<le> SESSION_RECONNECT_MAX_DELAY \<Longrightarrow> capped_double_delay d = min SESSION_RECONNECT_MAX_DELAY (2 * d)"
  by (simp add: capped_double_delay_def SESSION_RECONNECT_MAX_DELAY_def Let_def)

text \<open>After a session was connected, the delay before attempt \<open>n\<close> in a row is \<open>2 ^ n\<close> seconds, up to
  half a minute; a cancelled sleep leaves the delay as it is and ends the loop.\<close>

lemma reconnect_delay:
  "next_delay (((\<lambda>b. fst (retry_after_failure phase Completed b)) ^^ n) (fst (connected b)))
     = min SESSION_RECONNECT_MAX_DELAY (2 ^ n)"
proof (induction n)
  case 0
  then show ?case
    by (simp add: connected_def SESSION_RECONNECT_BASE_DELAY_def SESSION_RECONNECT_MAX_DELAY_def)
next
  case (Suc n)
  let ?b = "((\<lambda>b. fst (retry_after_failure phase Completed b)) ^^ n) (fst (connected b))"
  have "next_delay (fst (retry_after_failure phase Completed ?b)) = capped_double_delay (next_delay ?b)"
    by (simp add: retry_after_failure_def Let_def)
  also have "\<dots> = min SESSION_RECONNECT_MAX_DELAY (2 ^ Suc n)"
    using Suc by (simp add: capped_double_delay_le)
  finally show ?case by simp
qed

lemma signal_once:
  "snd (signal (fst (signal s))) = False"
  by (simp add: signal_def)

section \<open>Requests and responses\<close>

lemma show_nat_inj: "show_nat m = show_nat n \<Longrightarrow> m = n"
  by (metis dec_val_show_nat)

lemma format_i64_inj: "format_i64 i = format_i64 j \<Longrightarrow> i = j"
proof -
  have minus: "''-'' @ s \<noteq> show_nat n" for s n
    using show_nat_digits [of n] by (cases "show_nat n") (auto simp: is_ascii_digit_def)
  assume "format_i64 i = format_i64 j"
  then show "i = j"
    using minus minus [symmetric] by (auto simp: format_i64_def dest!: show_nat_inj split: if_splits)
qed

lemma next_request_id_fresh:
  "next_ws_rpc_request_id i = (i', r) \<Longrightarrow> next_ws_rpc_request_id j = (j', s) \<Longrightarrow>
     i64_range i \<Longrightarrow> i64_range j \<Longrightarrow> r = s \<Longrightarrow> i = j"
  by (auto simp: next_ws_rpc_request_id_def wrapping_incr_def i64_range_def Let_def
      dest!: format_i64_inj split: if_splits)

definition route_all :: "frame list \<Rightarrow> ListenerWsPendingDispatch \<Rightarrow> ListenerWsPendingDispatch" where
  "route_all = fold (\<lambda>m d. fst (route_incoming_message m d))"

lemma route_pending:
  "map_of (pending (fst (route_incoming_message m d))) i =
     (if classify_incoming_message m = Response i
      then map_option (\<lambda>ms. ms @ [m]) (map_of (pending d) i) else map_of (pending d) i)"
  by (auto simp: route_incoming_message_def queue_notification_def
      split: IncomingWsMessage.splits option.splits prod.splits)

lemma route_queue:
  "notifications (queue (fst (route_incoming_message m d))) =
     (if classify_incoming_message m = IncomingNotification
         \<and> length (notifications (queue d)) < capacity (queue d)
      then notifications (queue d) @ [m] else notifications (queue d))"
  "capacity (queue (fst (route_incoming_message m d))) = capacity (queue d)"
  by (auto simp: route_incoming_message_def queue_notification_def queue_push_def
      split: IncomingWsMessage.splits option.splits prod.splits if_splits)

lemma route_all_pending:
  "map_of (pending (route_all ms d)) i =
     map_option (\<lambda>rs. rs @ filter (\<lambda>m. classify_incoming_message m = Response i) ms) (map_of (pending d) i)"
  by (induction ms arbitrary: d) (simp_all add: route_all_def route_pending option.map_comp comp_def map_option.id [unfolded id_def])

lemma route_all_queue:
  "notifications (queue (route_all ms d)) = notifications (queue d)
     @ take (capacity (queue d) - length (notifications (queue d)))
         (filter (\<lambda>m. classify_incoming_message m = IncomingNotification) ms)"
proof (induction ms arbitrary: d)
  case (Cons m ms)
  have "capacity (queue d) - length (notifications (queue d)) =
      Suc (capacity (queue d) - Suc (length (notifications (queue d))))"
    if "length (notifications (queue d)) < capacity (queue d)" using that by simp
  with Cons [of "fst (route_incoming_message m d)"] show ?case
    by (auto simp: route_all_def route_queue)
qed (simp add: route_all_def)

text \<open>When the connection is lost every pending request gets one failure, behind the responses that
  already arrived.\<close>

lemma fold_fail_pending:
  assumes "distinct is"
  shows "map_of (fold (\<lambda>i. btree_modify i (\<lambda>ms. ms @ [f i])) is m) j =
     (if j \<in> set is then map_option (\<lambda>ms. ms @ [f j]) (map_of m j) else map_of m j)"
  using assms by (induction "is" arbitrary: m) auto

lemma fail_pending_requests_fails_all:
  assumes "distinct (map fst (pending d))"
  shows "map_of (pending (fst (fail_pending_requests e d))) i =
    map_option (\<lambda>ms. ms @ [pending_failure_response i e]) (map_of (pending d) i)"
  using fold_fail_pending [OF assms, of "\<lambda>i. pending_failure_response i e" "pending d" i]
  by (cases "i \<in> fst ` set (pending d)")
     (auto simp: fail_pending_requests_def Let_def dest: map_of_eq_None_iff [THEN iffD2])

text \<open>
  C20. Whatever frames arrive and in whatever order, a pending request receives exactly the responses
  that carry its id, in the order of their arrival; a request that is not pending receives none;
  and the queue of notifications takes the notifications in order until it is full, and drops the
  rest.
\<close>
theorem responses_reach_their_requests:
  "map_of (pending (route_all ms d)) i =
     map_option (\<lambda>rs. rs @ filter (\<lambda>m. classify_incoming_message m = Response i) ms) (map_of (pending d) i)
   \<and> notifications (queue (route_all ms d)) = notifications (queue d)
     @ take (capacity (queue d) - length (notifications (queue d)))
         (filter (\<lambda>m. classify_incoming_message m = IncomingNotification) ms)"
  using route_all_pending route_all_queue by blast

end
