(* ===== verification/Spec2Isabelle.thy ===== *)
theory Spec2Isabelle
  imports Prelude Json Decimal Sync_Coordinator Lane_Safety Outbox_Protocol Read_Drain Dispatcher
    Realtime
begin

text \<open>
  A verification development for the message synchronisation of the AWiki client workspace
  (\<open>awiki-cli-rs2\<close>), the crate \<open>crates/im-core\<close>.  Paths below are relative to
  \<open>src/crates/im-core/src/internal\<close> unless they start with \<open>src\<close>.

  \<^bold>\<open>The program.\<close>  A client keeps a SQLite store per installation.  A sync pass, started through the
  coordinator (\<open>message_runtime/sync_coordinator.rs\<close>), asks the server for the events behind a
  cursor and puts them, together with the new cursor, into a receive queue
  (\<open>local_state/sync_inbox.rs\<close>).  The dispatcher (\<open>message_runtime/sync_dispatcher.rs\<close>) claims
  queued inputs under leases, processes each of them within a time limit and completes, fails, parks
  or drops them.  Two encrypted lanes have cursors, outcomes and receipts of their own, and hand
  their events to the same queue (\<open>local_state/sync_v2.rs\<close>).  What the user has read is kept per
  thread (\<open>local_state/read_state.rs\<close>) and goes to the server through an outbox of read marks
  (\<open>sync_v2.rs\<close>, drained by \<open>message_runtime/sync_v2.rs\<close>).  A websocket listener
  (\<open>realtime\<close>) keeps a session open and distributes incoming frames.

  \<^bold>\<open>How it is modelled.\<close>  A Rust \<open>str\<close> is a \<^typ>\<open>string\<close>, an \<open>i64\<close> an \<^typ>\<open>int\<close> with the saturating
  operations of \<open>Prelude\<close> where the code saturates, a \<open>u64\<close> that wraps a 64-bit word.  A fallible
  function returns a sum whose left side is the error type of \<open>src/crates/im-core/src/error.rs\<close>.  A
  table is the list of its rows in rowid order, the store a record of tables; the \<open>CHECK\<close>, \<open>UNIQUE\<close>
  and foreign key constraints of the schema are conditions of the inserts.  A transaction returns the new
  store or an error, the store then being the old one.  Clocks, random tokens and the results of
  concurrent work are arguments.  What comes from outside the repository (the JSON parser and
  printer, SHA-256, the JSON functions and casts of SQLite, the choice of rows by a \<open>LIMIT\<close> without
  \<open>ORDER BY\<close>) is the record \<open>externs\<close>, an argument of the definitions that use it; a theorem that
  relies on their behaviour says so in a hypothesis.

  \<^bold>\<open>Theories.\<close>

  \<^item> \<open>Prelude\<close>: results, folds that stop at an error, saturating arithmetic, text, row
    updates, ordered maps, and the locales \<open>step_invariant\<close> and \<open>simulation\<close> for step relations.
  \<^item> \<open>Json\<close>: JSON values with their accessors, and the errors of the core (\<open>error.rs\<close>).
  \<^item> \<open>Decimal\<close>: sequence numbers as decimal text (\<open>sync_v2.rs\<close>, \<open>sync_state.rs\<close>): comparison is the
    numeric order and the digit-by-digit subtraction is subtraction, for numbers of any size.
  \<^item> \<open>Sync_Coordinator\<close>: \<open>register\<close>, \<open>complete_run\<close>, \<open>fail_unfinished_run\<close> and the tasks around them as a
    step relation: one pass at a time, every caller is answered exactly once, a caller that reports a
    change is answered by a later pass, and after at most two passes.
  \<^item> \<open>Sql_Tables\<close>, \<open>Sync_Tables\<close>: rows, selection, ordering and the locale \<open>keyed_upsert\<close> for
    \<open>INSERT ... ON CONFLICT DO UPDATE\<close>, interpreted for each table that is written that way; the tables
    of the sync store and the record \<open>externs\<close>.
  \<^item> \<open>Sync_Account\<close>: account bindings, DID cutovers, message cursor and run generations
    (\<open>sync_v2.rs\<close>): bindings and cursors move forward only, a newer run fences an older one.
  \<^item> \<open>Sync_Inbox\<close>: every operation of the receive queue (\<open>sync_inbox.rs\<close>).  \<open>Inbox_Capacity\<close>: a received
    page is stored or recognised, eviction takes the oldest inputs.  \<open>Inbox_Claims\<close>: a live claim is
    exclusive, a fresh claim is live, a superseded attempt cannot commit.  \<open>Inbox_Protocol\<close>: all
    operations as steps, with the bounds of the queue and of the leases as an invariant; parked inputs,
    baselines, and redelivery after completion.
  \<^item> \<open>Sync_Lanes\<close>, \<open>Lane_Safety\<close>: negotiation, cursors, handoff, outcomes, receipts and blockers of the
    encrypted lanes (\<open>sync_v2.rs\<close>): cursors only advance, a handoff stores the event and moves the cursor
    together, repeating it or a commit changes nothing, a closed outcome is final.
  \<^item> \<open>Sync_Receipts\<close>: receipts of applied events, pruning, recovery record, diagnostics, cleanup and
    the repair after a restart (\<open>sync_v2.rs\<close>).
  \<^item> \<open>Read_State\<close>: the read watermark of a thread (\<open>read_state.rs\<close>): whatever the order of the writes, the
    furthest one is kept.
  \<^item> \<open>Mutation_Outbox\<close>, \<open>Outbox_Protocol\<close>: the operations on \<open>local_mutation_outbox\<close> (\<open>sync_v2.rs\<close>), and
    their abstract specification, a board of waiting, travelling and settled marks.  The interpretation of
    \<open>simulation\<close> shows that each operation is a step of the board; exclusion between the marks of a
    thread is proved on the board.  \<open>Read_Drain\<close>: the treatment of a failed send
    (\<open>drain_read_outbox\<close>), and that a refused group mark is given up after three attempts.
  \<^item> \<open>Dispatcher\<close>: one attempt (\<open>run_claim\<close>, \<open>failure_code\<close>, \<open>retry_at\<close>) with arbitrary writes of others
    between its transactions, and the run loop (\<open>wake_client\<close>, the snapshot and the exit check of
    \<open>run\<close>, the guard) as a step relation: slots are freed, failures are rescheduled, no wake is lost, an
    idle loop stops.
  \<^item> \<open>Realtime\<close>: back-off, decisions of the session loop and the dispatch of frames (\<open>realtime\<close>).

  \<^bold>\<open>Bounds.\<close>  No definition uses fuel: every loop of the modelled code runs over a list or is a
  structural recursion.  \<open>idle_loop\<close> runs over the calls that arrive in each iteration; its theorem gives
  the iteration in which it ends.  The dispatcher counts wakes in 64 bits that wrap around; the theorem on
  lost wakes is for fewer than \<open>2 ^ 64\<close> wakes, after which a generation could repeat.

  \<^bold>\<open>Not modelled.\<close>  The message, conversation and group store (\<open>local_state/messages.rs\<close> and its
  siblings), and therefore the transactions that write messages and cursors together: the application of
  bootstrap, delta and snapshot pages, \<open>apply_ordinary_claim\<close>, \<open>mark_thread_read_and_update_outbox\<close>,
  \<open>upsert_sync_thread_binding\<close> and \<open>apply_remote_read_state\<close>; a model of them would have to stub the part that
  matters.  The work of an attempt and of the maintenance jobs, network calls, wire formats other than the
  event envelope, the parsing of inline events, identity protocols, encryption, attachments, the vault, the
  daemon, the command line, the language bindings and the build tasks: they are input and output, driven by
  remote services, or built on cryptographic crates that are not part of the repository.  Creation and
  migration of the schema, and failures of SQLite other than violated constraints.
\<close>

end
